theory Spec2Isabelle
  imports Main "HOL-Library.Word"
begin

section \<open>The cluster metadata catalog (package meta, data.go)\<close>

text \<open>
  A shallow embedding of the catalog type \<open>Data\<close> and of the operations on it.
  Go mutates the receiver in place and returns an \<open>error\<close>; an operation is modelled as
  a function from the state to the pair of the state it leaves behind and the error it
  returns (\<open>None\<close> for \<open>nil\<close>). An operation that can panic (an index out of range)
  returns an \<open>option\<close> of that pair, \<open>None\<close> for the panic.

  A Go map is an association list with one entry per key; \<open>map_of\<close> reads it. A nil map
  and an empty map are both the empty list: every operation modelled here either
  allocates the map before writing or only reads, ranges over or deletes from it, and Go
  treats a nil map as empty for those.
\<close>

subsection \<open>Scalars\<close>

type_synonym u32 = "32 word"
type_synonym u64 = "64 word"
type_synonym i32 = "32 word"

text \<open>\<open>time.Time\<close> as nanoseconds since the Unix epoch, \<open>time.Duration\<close> as nanoseconds.\<close>

type_synonym Time = int
type_synonym Duration = int

text \<open>The zero \<open>time.Time\<close> (January 1, year 1, 00:00 UTC) and \<open>Time.IsZero\<close>.\<close>

definition zeroTime :: Time where
  "zeroTime = - 62135596800 * 1000000000"

definition IsZero :: "Time \<Rightarrow> bool" where
  "IsZero t = (t = zeroTime)"

text \<open>
  Modelled from the spec: \<open>config.EngineType\<close> is declared in a package that is not part
  of the sources; it is an integer enumeration of the row-oriented engine \<open>TSSTORE\<close> and
  the column-oriented engine \<open>COLUMNSTORE\<close>, in that order, so that a field of the type
  that is never assigned holds \<open>TSSTORE\<close>.
\<close>

datatype EngineType = TSSTORE | COLUMNSTORE

datatype PtStatus = Offline | Online

datatype Role = Master | Slave

datatype RGStatus = Health | SubHealth | UnHealth

datatype HaPolicy = WriteAvailableFirst | SharedStorage | Replication

datatype Privilege = NoPrivileges | ReadPrivilege | WritePrivilege | AllPrivileges

text \<open>
  \<open>serf.MemberStatus\<close> is an integer enumeration; \<open>UpdateNodeStatus\<close> receives an
  \<open>int32\<close> and casts it.
  Modelled from the spec: the serf package, which declares \<open>StatusAlive\<close>, is not part of
  the sources; the enumeration starts at \<open>none\<close> and \<open>alive\<close> follows it.
\<close>

type_synonym MemberStatus = int

definition StatusNone :: MemberStatus where "StatusNone = 0"
definition StatusAlive :: MemberStatus where "StatusAlive = 1"
definition StatusFailed :: MemberStatus where "StatusFailed = 4"

datatype error =
    ErrUsernameRequired
  | ErrUserExists
  | ErrUserForbidden
  | ErrUserDropSelf
  | ErrUserNotFound
  | ErrPwdUsed
  | ErrGrantOrRevokeAdmin
  | ErrDatabaseNotFound
  | ErrDatabaseIsBeingDelete
  | ErrDatabaseNameRequired
  | ErrStorageNodeNotReady
  | ErrDatabaseExists
  | ErrCreateOverDeleting
  | ErrRetentionPolicyRequired
  | ErrRetentionPolicyNameRequired
  | ErrReplicationFactorTooLow
  | ErrReplicaNConflict
  | ErrRetentionPolicyConflict
  | ErrRetentionPolicyExists
  | ErrRetentionPolicyNotFound
  | ErrRpIsBeingDelete
  | ErrSpecInvalid
  | ErrMeasurementNotFound
  | ErrFieldTypeConflict
  | ErrShardGroupNotFound
  | ErrShardGroupAlreadyReSharding u64
  | ErrDataNodeNotFound
  | ErrOlderEvent
  | ErrDataNodeSplitBrain
  | ErrDataNoAlive
  | ErrReplicaNodeNumIncorrect
  | ErrNoMeasurement

subsection \<open>The data model\<close>

record UserInfo =
  u_Name :: string
  u_Hash :: string
  u_Admin :: bool
  u_Rwuser :: bool
  u_Privileges :: "(string \<times> Privilege) list"

record IndexInfo =
  ix_ID :: u64
  ix_Owners :: "u32 list"
  ix_MarkDelete :: bool

record IndexGroupInfo =
  ig_ID :: u64
  ig_StartTime :: Time
  ig_EndTime :: Time
  ig_Indexes :: "IndexInfo list"
  ig_DeletedAt :: Time
  ig_EngineType :: EngineType

record ShardInfo =
  sh_ID :: u64
  sh_Owners :: "u32 list"
  sh_Min :: string
  sh_Max :: string
  sh_Tier :: u64
  sh_IndexID :: u64
  sh_MarkDelete :: bool

record ShardGroupInfo =
  sg_ID :: u64
  sg_StartTime :: Time
  sg_EndTime :: Time
  sg_DeletedAt :: Time
  sg_Shards :: "ShardInfo list"
  sg_EngineType :: EngineType
  sg_Version :: u32

record ShardKeyInfo =
  sk_ShardKey :: "string list"
  sk_Type :: string
  sk_ShardGroup :: u64

record MeasurementInfo =
  m_Name :: string
  m_ShardKeys :: "ShardKeyInfo list"
  m_Schema :: "(string \<times> i32) list"
  m_MarkDeleted :: bool
  m_EngineType :: EngineType
  m_ObsOptions :: "string option"

record RetentionPolicyInfo =
  rp_Name :: string
  rp_ReplicaN :: int
  rp_Duration :: Duration
  rp_ShardGroupDuration :: Duration
  rp_IndexGroupDuration :: Duration
  rp_HotDuration :: Duration
  rp_WarmDuration :: Duration
  rp_Measurements :: "(string \<times> MeasurementInfo) list"
  rp_MstVersions :: "(string \<times> string) list"
  rp_ShardGroups :: "ShardGroupInfo list"
  rp_IndexGroups :: "IndexGroupInfo list"
  rp_MarkDeleted :: bool

record DatabaseInfo =
  db_Name :: string
  db_DefaultRetentionPolicy :: string
  db_RetentionPolicies :: "(string \<times> RetentionPolicyInfo) list"
  db_MarkDeleted :: bool
  db_ShardKey :: ShardKeyInfo
  db_EnableTagArray :: bool
  db_ReplicaN :: int
  db_Options :: "string option"

record PtInfo =
  pt_Owner :: u64
  pt_Status :: PtStatus
  pt_PtId :: u32
  pt_Ver :: u64
  pt_RGID :: u32

record Peer =
  peer_ID :: u32
  peer_PtRole :: Role

record ReplicaGroup =
  rg_ID :: u32
  rg_MasterPtID :: u32
  rg_Peers :: "Peer list"
  rg_Status :: RGStatus
  rg_Term :: u64

record DataNode =
  dn_ID :: u64
  dn_Host :: string
  dn_TCPHost :: string
  dn_Role :: string
  dn_Status :: MemberStatus
  dn_LTime :: u64
  dn_ConnID :: u64
  dn_AliveConnID :: u64
  dn_GossipAddr :: string
  dn_SegregateStatus :: u64

text \<open>
  The fields of \<open>Data\<close> that the operations below read or write. The raft term and
  index, the meta nodes, the streams, the migrate events, the query-id offsets and the
  counters of those registries are left out: no operation modelled here touches them.
\<close>

record Data =
  ClusterPtNum :: u32
  PtNumPerNode :: u32
  DataNodes :: "DataNode list"
  PtView :: "(string \<times> PtInfo list) list"
  ReplicaGroups :: "(string \<times> ReplicaGroup list) list"
  Databases :: "(string \<times> DatabaseInfo) list"
  Users :: "UserInfo list"
  AdminUserExists :: bool
  TakeOverEnabled :: bool
  MaxShardGroupID :: u64
  MaxShardID :: u64
  MaxIndexGroupID :: u64
  MaxIndexID :: u64

type_synonym 'a result = "'a \<times> error option"

subsection \<open>Go maps as association lists\<close>

text \<open>\<open>m[k] = v\<close>: replace the entry of \<open>k\<close>, or add one.\<close>

fun map_set :: "('k \<times> 'v) list \<Rightarrow> 'k \<Rightarrow> 'v \<Rightarrow> ('k \<times> 'v) list" where
  "map_set [] k v = [(k, v)]"
| "map_set ((k', v') # m) k v = (if k' = k then (k, v) # m else (k', v') # map_set m k v)"

text \<open>An update through the pointer that \<open>m[k]\<close> holds: the entry that \<open>map_of\<close> reads.\<close>

fun map_modify :: "('k \<times> 'v) list \<Rightarrow> 'k \<Rightarrow> ('v \<Rightarrow> 'v) \<Rightarrow> ('k \<times> 'v) list" where
  "map_modify [] k f = []"
| "map_modify ((k', v') # m) k f =
     (if k' = k then (k', f v') # m else (k', v') # map_modify m k f)"

text \<open>\<open>delete(m, k)\<close>.\<close>

definition map_delete :: "('k \<times> 'v) list \<Rightarrow> 'k \<Rightarrow> ('k \<times> 'v) list" where
  "map_delete m k = filter (\<lambda>kv. fst kv \<noteq> k) m"

subsection \<open>Databases\<close>

definition Database :: "Data \<Rightarrow> string \<Rightarrow> DatabaseInfo option" where
  "Database data name = map_of (Databases data) name"

definition GetDatabase :: "Data \<Rightarrow> string \<Rightarrow> error + DatabaseInfo" where
  "GetDatabase data name =
     (case Database data name of
        None \<Rightarrow> Inl ErrDatabaseNotFound
      | Some dbi \<Rightarrow> if db_MarkDeleted dbi then Inl ErrDatabaseIsBeingDelete else Inr dbi)"

subsection \<open>Users\<close>

text \<open>\<open>GetUser\<close> returns the first user of that name.\<close>

fun findUser :: "UserInfo list \<Rightarrow> string \<Rightarrow> UserInfo option" where
  "findUser [] username = None"
| "findUser (u # us) username = (if u_Name u = username then Some u else findUser us username)"

definition GetUser :: "Data \<Rightarrow> string \<Rightarrow> UserInfo option" where
  "GetUser data username = findUser (Users data) username"

fun anyAdmin :: "UserInfo list \<Rightarrow> bool" where
  "anyAdmin [] = False"
| "anyAdmin (u # us) = (if u_Admin u then True else anyAdmin us)"

definition HasAdminUser :: "Data \<Rightarrow> bool" where
  "HasAdminUser data = anyAdmin (Users data)"

definition AdminUserExist :: "Data \<Rightarrow> bool" where
  "AdminUserExist data = AdminUserExists data"

definition CreateUser :: "Data \<Rightarrow> string \<Rightarrow> string \<Rightarrow> bool \<Rightarrow> bool \<Rightarrow> Data result" where
  "CreateUser data name hash admin rwuser =
     (if name = [] then (data, Some ErrUsernameRequired)
      else if GetUser data name \<noteq> None then (data, Some ErrUserExists)
      else if admin \<and> HasAdminUser data then (data, Some ErrUserForbidden)
      else
        let data1 = data\<lparr>Users := Users data @
              [\<lparr>u_Name = name, u_Hash = hash, u_Admin = admin, u_Rwuser = rwuser,
                u_Privileges = []\<rparr>]\<rparr>;
            data2 = (if admin then data1\<lparr>AdminUserExists := True\<rparr> else data1)
        in (data2, None))"

text \<open>The second loop of \<open>DropUser\<close>: remove the first user of that name, if there is one.\<close>

fun removeUser :: "UserInfo list \<Rightarrow> string \<Rightarrow> UserInfo list option" where
  "removeUser [] name = None"
| "removeUser (u # us) name =
     (if u_Name u = name then Some us
      else case removeUser us name of None \<Rightarrow> None | Some us' \<Rightarrow> Some (u # us'))"

definition DropUser :: "Data \<Rightarrow> string \<Rightarrow> Data result" where
  "DropUser data name =
     (if (case GetUser data name of Some u \<Rightarrow> u_Admin u | None \<Rightarrow> False)
      then (data, Some ErrUserDropSelf)
      else case removeUser (Users data) name of
             Some us \<Rightarrow> (data\<lparr>Users := us\<rparr>, None)
           | None \<Rightarrow> (data, Some ErrUserNotFound))"

fun updateHash :: "UserInfo list \<Rightarrow> string \<Rightarrow> string \<Rightarrow> UserInfo list result" where
  "updateHash [] name hash = ([], Some ErrUserNotFound)"
| "updateHash (u # us) name hash =
     (if u_Name u = name then
        (if u_Hash u = hash then (u # us, Some ErrPwdUsed)
         else (u\<lparr>u_Hash := hash\<rparr> # us, None))
      else case updateHash us name hash of (us', e) \<Rightarrow> (u # us', e))"

definition UpdateUser :: "Data \<Rightarrow> string \<Rightarrow> string \<Rightarrow> Data result" where
  "UpdateUser data name hash =
     (case updateHash (Users data) name hash of (us, e) \<Rightarrow> (data\<lparr>Users := us\<rparr>, e))"

text \<open>\<open>ui.Privileges[database] = p\<close> on the first user of that name (\<open>ui\<close> points into the slice).\<close>

fun setPriv :: "UserInfo list \<Rightarrow> string \<Rightarrow> string \<Rightarrow> Privilege \<Rightarrow> UserInfo list" where
  "setPriv [] name database p = []"
| "setPriv (u # us) name database p =
     (if u_Name u = name then u\<lparr>u_Privileges := map_set (u_Privileges u) database p\<rparr> # us
      else u # setPriv us name database p)"

definition SetPrivilege :: "Data \<Rightarrow> string \<Rightarrow> string \<Rightarrow> Privilege \<Rightarrow> Data result" where
  "SetPrivilege data name database p =
     (case GetUser data name of
        None \<Rightarrow> (data, Some ErrUserNotFound)
      | Some ui \<Rightarrow>
          (case GetDatabase data database of
             Inl err \<Rightarrow> (data, Some err)
           | Inr dbi \<Rightarrow> (data\<lparr>Users := setPriv (Users data) name database p\<rparr>, None)))"

definition SetAdminPrivilege :: "Data \<Rightarrow> string \<Rightarrow> bool \<Rightarrow> Data result" where
  "SetAdminPrivilege data name admin =
     (case GetUser data name of
        None \<Rightarrow> (data, Some ErrUserNotFound)
      | Some ui \<Rightarrow> (data, Some ErrGrantOrRevokeAdmin))"

text \<open>\<open>DropDatabase\<close> returns nothing.\<close>

definition DropDatabase :: "Data \<Rightarrow> string \<Rightarrow> Data" where
  "DropDatabase data name =
     data\<lparr>Databases := map_delete (Databases data) name,
          ReplicaGroups := map_delete (ReplicaGroups data) name,
          Users := map (\<lambda>u. u\<lparr>u_Privileges := map_delete (u_Privileges u) name\<rparr>) (Users data),
          PtView := map_delete (PtView data) name\<rparr>"

subsection \<open>Measurements and their schema\<close>

text \<open>
  Modelled from the spec: \<open>DatabaseInfo.GetRetentionPolicy\<close> and
  \<open>RetentionPolicyInfo.Measurement\<close> are declared in a file that is not part of the
  sources. The first looks the policy up by name and refuses one that is marked deleted;
  the second resolves the measurement's original name through \<open>mst_versions\<close> to the
  name with version under which \<open>measurements\<close> stores it.
\<close>

definition GetRetentionPolicy :: "DatabaseInfo \<Rightarrow> string \<Rightarrow> error + RetentionPolicyInfo" where
  "GetRetentionPolicy dbi name =
     (case map_of (db_RetentionPolicies dbi) name of
        None \<Rightarrow> Inl ErrRetentionPolicyNotFound
      | Some rpi \<Rightarrow> if rp_MarkDeleted rpi then Inl ErrRpIsBeingDelete else Inr rpi)"

definition rpMeasurement :: "RetentionPolicyInfo \<Rightarrow> string \<Rightarrow> (string \<times> MeasurementInfo) option" where
  "rpMeasurement rpi mst =
     (case map_of (rp_MstVersions rpi) mst of
        None \<Rightarrow> None
      | Some nameWithVer \<Rightarrow>
          (case map_of (rp_Measurements rpi) nameWithVer of
             None \<Rightarrow> None
           | Some msti \<Rightarrow> Some (nameWithVer, msti)))"

text \<open>
  The databases, the retention policies and the measurements are maps to pointers: a
  write through \<open>rp\<close> or \<open>msti\<close> is a write into the catalog.
\<close>

definition modifyRp ::
  "Data \<Rightarrow> string \<Rightarrow> string \<Rightarrow> (RetentionPolicyInfo \<Rightarrow> RetentionPolicyInfo) \<Rightarrow> Data" where
  "modifyRp data database rp f =
     data\<lparr>Databases := map_modify (Databases data) database
       (\<lambda>dbi. dbi\<lparr>db_RetentionPolicies := map_modify (db_RetentionPolicies dbi) rp f\<rparr>)\<rparr>"

definition setMeasurement ::
  "Data \<Rightarrow> string \<Rightarrow> string \<Rightarrow> string \<Rightarrow> MeasurementInfo \<Rightarrow> Data" where
  "setMeasurement data database rp nameWithVer msti =
     modifyRp data database rp
       (\<lambda>rpi. rpi\<lparr>rp_Measurements := map_modify (rp_Measurements rpi) nameWithVer (\<lambda>_. msti)\<rparr>)"

text \<open>
  \<open>Measurement\<close> returns the pointer (here: the key under which the measurement is
  stored, and its value); it fills in \<open>ObsOptions\<close> from the database on the way.
\<close>

definition Measurement ::
  "Data \<Rightarrow> string \<Rightarrow> string \<Rightarrow> string \<Rightarrow> Data \<times> (error + string \<times> MeasurementInfo)" where
  "Measurement data database retentionPolicy mst =
     (case GetDatabase data database of
        Inl err \<Rightarrow> (data, Inl err)
      | Inr db \<Rightarrow>
     (case GetRetentionPolicy db retentionPolicy of
        Inl err \<Rightarrow> (data, Inl err)
      | Inr rp \<Rightarrow>
     (case rpMeasurement rp mst of
        None \<Rightarrow> (data, Inl ErrMeasurementNotFound)
      | Some (nameWithVer, msti) \<Rightarrow>
          if m_MarkDeleted msti then (data, Inl ErrMeasurementNotFound)
          else if m_ObsOptions msti = None \<and> db_Options db \<noteq> None then
            (let msti' = msti\<lparr>m_ObsOptions := db_Options db\<rparr>
             in (setMeasurement data database retentionPolicy nameWithVer msti',
                 Inr (nameWithVer, msti')))
          else (data, Inr (nameWithVer, msti)))))"

record FieldSchema =
  fs_FieldName :: string
  fs_FieldType :: i32

text \<open>
  The loop of \<open>UpdateSchema\<close> over \<open>fieldToCreate\<close>, on the copy \<open>schema\<close> of the
  measurement's schema; \<open>None\<close> is the return of \<open>ErrFieldTypeConflict\<close>.
\<close>

fun addFields :: "(string \<times> i32) list \<Rightarrow> FieldSchema list \<Rightarrow> (string \<times> i32) list option" where
  "addFields schema [] = Some schema"
| "addFields schema (f # fs) =
     (case map_of schema (fs_FieldName f) of
        None \<Rightarrow> addFields (map_set schema (fs_FieldName f) (fs_FieldType f)) fs
      | Some existType \<Rightarrow>
          if existType \<noteq> fs_FieldType f then None else addFields schema fs)"

definition UpdateSchema ::
  "Data \<Rightarrow> string \<Rightarrow> string \<Rightarrow> string \<Rightarrow> FieldSchema list \<Rightarrow> Data result" where
  "UpdateSchema data database retentionPolicy mst fieldToCreate =
     (case Measurement data database retentionPolicy mst of
        (data1, Inl err) \<Rightarrow> (data1, Some err)
      | (data1, Inr (nameWithVer, msti)) \<Rightarrow>
          (case addFields (m_Schema msti) fieldToCreate of
             None \<Rightarrow> (data1, Some ErrFieldTypeConflict)
           | Some schema \<Rightarrow>
               (setMeasurement data1 database retentionPolicy nameWithVer
                  (msti\<lparr>m_Schema := schema\<rparr>), None)))"

text \<open>The schema stored for a measurement, read through the three maps.\<close>

definition schemaAt :: "Data \<Rightarrow> string \<Rightarrow> string \<Rightarrow> string \<Rightarrow> (string \<times> i32) list option" where
  "schemaAt data database rp nameWithVer =
     (case map_of (Databases data) database of
        None \<Rightarrow> None
      | Some dbi \<Rightarrow>
     (case map_of (db_RetentionPolicies dbi) rp of
        None \<Rightarrow> None
      | Some rpi \<Rightarrow> map_option m_Schema (map_of (rp_Measurements rpi) nameWithVer)))"

subsection \<open>Creating a database\<close>

definition GetClusterPtNum :: "Data \<Rightarrow> u32" where
  "GetClusterPtNum data = ClusterPtNum data"

definition checkStoreReady :: "Data \<Rightarrow> error option" where
  "checkStoreReady data = (if GetClusterPtNum data = 0 then Some ErrStorageNodeNotReady else None)"

text \<open>
  The error for a database that is being deleted is built with \<open>fmt.Errorf\<close>; it is
  \<open>ErrCreateOverDeleting\<close> here.
\<close>

definition CheckCanCreateDatabase :: "Data \<Rightarrow> string \<Rightarrow> error option" where
  "CheckCanCreateDatabase data name =
     (if name = [] then Some ErrDatabaseNameRequired
      else case checkStoreReady data of
        Some err \<Rightarrow> Some err
      | None \<Rightarrow>
          (case Database data name of
             None \<Rightarrow> None
           | Some databaseInfo \<Rightarrow>
               if db_MarkDeleted databaseInfo then Some ErrCreateOverDeleting
               else Some ErrDatabaseExists))"

text \<open>
  Modelled from the spec: \<open>NewDatabase\<close>, \<open>DatabaseInfo.RetentionPolicy\<close> and
  \<open>RetentionPolicyInfo.EqualsAnotherRp\<close> are declared in a file that is not part of the
  sources. A new database has its name and nothing else; the lookup is by name; two
  policies are equal when their definitions (name, replica count, durations) are.
  \<open>RetentionPolicyInfo.CheckSpecValid\<close> is missing too, and is a parameter.
\<close>

definition NewDatabase :: "string \<Rightarrow> DatabaseInfo" where
  "NewDatabase name = \<lparr>db_Name = name, db_DefaultRetentionPolicy = [],
     db_RetentionPolicies = [], db_MarkDeleted = False,
     db_ShardKey = \<lparr>sk_ShardKey = [], sk_Type = [], sk_ShardGroup = 0\<rparr>,
     db_EnableTagArray = False, db_ReplicaN = 0, db_Options = None\<rparr>"

definition dbRetentionPolicy :: "DatabaseInfo \<Rightarrow> string \<Rightarrow> RetentionPolicyInfo option" where
  "dbRetentionPolicy dbi name = map_of (db_RetentionPolicies dbi) name"

definition EqualsAnotherRp :: "RetentionPolicyInfo \<Rightarrow> RetentionPolicyInfo \<Rightarrow> bool" where
  "EqualsAnotherRp a b \<longleftrightarrow>
     rp_Name a = rp_Name b \<and> rp_ReplicaN a = rp_ReplicaN b \<and> rp_Duration a = rp_Duration b \<and>
     rp_ShardGroupDuration a = rp_ShardGroupDuration b \<and>
     rp_IndexGroupDuration a = rp_IndexGroupDuration b \<and>
     rp_HotDuration a = rp_HotDuration b \<and> rp_WarmDuration a = rp_WarmDuration b"

definition CheckCanCreateRetentionPolicy ::
  "(RetentionPolicyInfo \<Rightarrow> error option) \<Rightarrow> DatabaseInfo \<Rightarrow> RetentionPolicyInfo option \<Rightarrow> bool
     \<Rightarrow> error option" where
  "CheckCanCreateRetentionPolicy CheckSpecValid dbi rpi makeDefault =
     (case rpi of
        None \<Rightarrow> Some ErrRetentionPolicyRequired
      | Some rpi \<Rightarrow>
          if rp_Name rpi = [] then Some ErrRetentionPolicyNameRequired
          else if rp_ReplicaN rpi < 1 then Some ErrReplicationFactorTooLow
          else (case CheckSpecValid rpi of
            Some err \<Rightarrow> Some err
          | None \<Rightarrow>
              (case dbRetentionPolicy dbi (rp_Name rpi) of
                 None \<Rightarrow>
                   if db_ReplicaN dbi \<noteq> 0 \<and> rp_ReplicaN rpi \<noteq> db_ReplicaN dbi
                   then Some ErrReplicaNConflict else None
               | Some existRp \<Rightarrow>
                   if \<not> EqualsAnotherRp existRp rpi then Some ErrRetentionPolicyConflict
                   else if makeDefault \<and> db_DefaultRetentionPolicy dbi \<noteq> rp_Name rpi
                   then Some ErrRetentionPolicyConflict
                   else Some ErrRetentionPolicyExists)))"

definition SetRetentionPolicy :: "DatabaseInfo \<Rightarrow> RetentionPolicyInfo \<Rightarrow> bool \<Rightarrow> DatabaseInfo" where
  "SetRetentionPolicy dbi rpi makeDefault =
     (let dbi1 = dbi\<lparr>db_RetentionPolicies := map_set (db_RetentionPolicies dbi) (rp_Name rpi) rpi\<rparr>
      in if makeDefault then dbi1\<lparr>db_DefaultRetentionPolicy := rp_Name rpi\<rparr> else dbi1)"

definition SetDatabase :: "Data \<Rightarrow> DatabaseInfo \<Rightarrow> Data result" where
  "SetDatabase data dbi = (data\<lparr>Databases := map_set (Databases data) (db_Name dbi) dbi\<rparr>, None)"

definition CreateDatabase ::
  "(RetentionPolicyInfo \<Rightarrow> error option) \<Rightarrow> Data \<Rightarrow> string \<Rightarrow> RetentionPolicyInfo option
     \<Rightarrow> ShardKeyInfo option \<Rightarrow> bool \<Rightarrow> u32 \<Rightarrow> string option \<Rightarrow> Data result" where
  "CreateDatabase CheckSpecValid data dbName rpi shardKey enableTagArray replicaN options =
     (case CheckCanCreateDatabase data dbName of
        Some err \<Rightarrow> if err = ErrDatabaseExists then (data, None) else (data, Some err)
      | None \<Rightarrow>
          (let dbi = NewDatabase dbName in
           case (case rpi of
                   None \<Rightarrow> Inr dbi
                 | Some r \<Rightarrow>
                     (case CheckCanCreateRetentionPolicy CheckSpecValid dbi rpi True of
                        Some err \<Rightarrow> Inl err
                      | None \<Rightarrow> Inr (SetRetentionPolicy dbi r True))) of
             Inl err \<Rightarrow> (data, Some err)
           | Inr dbi1 \<Rightarrow>
               (let dbi2 = (case shardKey of None \<Rightarrow> dbi1 | Some ski \<Rightarrow> dbi1\<lparr>db_ShardKey := ski\<rparr>);
                    dbi3 = dbi2\<lparr>db_EnableTagArray := enableTagArray,
                                db_ReplicaN := int (unat replicaN)\<rparr>;
                    dbi4 = (case options of None \<Rightarrow> dbi3 | Some opt \<Rightarrow> dbi3\<lparr>db_Options := Some opt\<rparr>)
                in SetDatabase data dbi4)))"

subsection \<open>Node status\<close>

text \<open>\<open>DataNode\<close> returns a pointer to the first node with that id.\<close>

fun findNode :: "DataNode list \<Rightarrow> u64 \<Rightarrow> DataNode option" where
  "findNode [] nid = None"
| "findNode (n # ns) nid = (if dn_ID n = nid then Some n else findNode ns nid)"

definition DataNode :: "Data \<Rightarrow> u64 \<Rightarrow> DataNode option" where
  "DataNode data nid = findNode (DataNodes data) nid"

text \<open>A write through that pointer.\<close>

fun modifyNode :: "DataNode list \<Rightarrow> u64 \<Rightarrow> (DataNode \<Rightarrow> DataNode) \<Rightarrow> DataNode list" where
  "modifyNode [] nid f = []"
| "modifyNode (n # ns) nid f = (if dn_ID n = nid then f n # ns else n # modifyNode ns nid f)"

definition updatePt :: "u64 \<Rightarrow> PtStatus \<Rightarrow> PtInfo \<Rightarrow> PtInfo" where
  "updatePt nid status pt =
     (if pt_Owner pt = nid then pt\<lparr>pt_Status := status, pt_Ver := pt_Ver pt + 1\<rparr> else pt)"

definition updatePtViewStatus :: "Data \<Rightarrow> u64 \<Rightarrow> PtStatus \<Rightarrow> Data" where
  "updatePtViewStatus data nid status =
     data\<lparr>PtView := map (\<lambda>(db, pts). (db, map (updatePt nid status) pts)) (PtView data)\<rparr>"

text \<open>
  \<open>config.GetHaPolicy()\<close> reads the process configuration: the policy is a parameter.
  \<open>net.SplitHostPort\<close> belongs to Go's library: the host part it returns is the
  parameter \<open>hostOf\<close>. The status arrives as an \<open>int32\<close> and is cast.
\<close>

definition UpdateNodeStatus ::
  "HaPolicy \<Rightarrow> (string \<Rightarrow> string) \<Rightarrow> Data \<Rightarrow> u64 \<Rightarrow> i32 \<Rightarrow> u64 \<Rightarrow> string \<Rightarrow> Data result" where
  "UpdateNodeStatus haPolicy hostOf data nid status lTime gossipPort =
     (if \<not> TakeOverEnabled data then (data, None)
      else case DataNode data nid of
        None \<Rightarrow> (data, Some ErrDataNodeNotFound)
      | Some dn \<Rightarrow>
          if lTime < dn_LTime dn then (data, Some ErrOlderEvent)
          else
            let updateStatus = sint status in
            if haPolicy = SharedStorage \<and> updateStatus = StatusAlive \<and>
               dn_ConnID dn = dn_AliveConnID dn
            then (data, Some ErrDataNodeSplitBrain)
            else
              let upd = (\<lambda>dn.
                    let dn1 = dn\<lparr>dn_Status := updateStatus, dn_LTime := lTime\<rparr>;
                        dn2 = (if updateStatus = StatusAlive
                               then dn1\<lparr>dn_AliveConnID := dn_ConnID dn1\<rparr> else dn1)
                    in if dn_GossipAddr dn2 = []
                       then dn2\<lparr>dn_GossipAddr := hostOf (dn_Host dn2) @ '':'' @ gossipPort\<rparr>
                       else dn2);
                  data1 = data\<lparr>DataNodes := modifyNode (DataNodes data) nid upd\<rparr>
              in (updatePtViewStatus data1 nid Offline, None))"

subsection \<open>Pruning shard groups and index groups\<close>

text \<open>
  \<open>sort.Search(n, f)\<close> of Go's library: binary search for the smallest index in
  \<open>[0, n)\<close> at which \<open>f\<close> holds, \<open>n\<close> if the search meets none.
\<close>

function searchFrom :: "(nat \<Rightarrow> bool) \<Rightarrow> nat \<Rightarrow> nat \<Rightarrow> nat" where
  "searchFrom f i j =
     (if i < j then
        (let h = (i + j) div 2 in
         if \<not> f h then searchFrom f (h + 1) j else searchFrom f i h)
      else i)"
  by pat_completeness auto
termination
  by (relation "measure (\<lambda>(f, i, j). j - i)") auto

declare searchFrom.simps [simp del]

definition Search :: "nat \<Rightarrow> (nat \<Rightarrow> bool) \<Rightarrow> nat" where
  "Search n f = searchFrom f 0 n"

text \<open>
  Modelled from the spec: \<open>ShardGroupInfo.canDelete\<close> and \<open>IndexGroupInfo.canDelete\<close>
  are declared in a file that is not part of the sources; a group can be deleted when
  all its shards (indexes) are marked for delete.
\<close>

definition sgCanDelete :: "ShardGroupInfo \<Rightarrow> bool" where
  "sgCanDelete sg = list_all sh_MarkDelete (sg_Shards sg)"

definition igCanDelete :: "IndexGroupInfo \<Rightarrow> bool" where
  "igCanDelete ig = list_all ix_MarkDelete (ig_Indexes ig)"

text \<open>
  The first statement of the loop body of \<open>pruneShardGroups\<close> and of
  \<open>pruneIndexGroups\<close>, on the shards (indexes) \<open>xs\<close> of one group, with \<open>ident\<close> for the
  field \<open>ID\<close> and \<open>mark\<close> for \<open>MarkDelete = true\<close>:
  \<^verbatim>\<open>if id >= xs[0].ID && id <= xs[len(xs)-1].ID {
      pos := sort.Search(len(xs), func(i int) bool { return xs[i].ID >= id })
      xs[pos].MarkDelete = true }\<close>
  \<open>xs[0]\<close> panics on a group without shards, \<open>xs[pos]\<close> when the search finds nothing.
\<close>

definition markFound :: "('a \<Rightarrow> u64) \<Rightarrow> ('a \<Rightarrow> 'a) \<Rightarrow> u64 \<Rightarrow> 'a list \<Rightarrow> 'a list option" where
  "markFound ident mark id1 xs =
     (if xs = [] then None
      else if id1 \<ge> ident (xs ! 0) \<and> id1 \<le> ident (xs ! (length xs - 1)) then
        (let pos = Search (length xs) (\<lambda>i. ident (xs ! i) \<ge> id1) in
         if pos < length xs then Some (xs[pos := mark (xs ! pos)]) else None)
      else Some xs)"

definition markShard :: "u64 \<Rightarrow> ShardInfo list \<Rightarrow> ShardInfo list option" where
  "markShard id1 shards = markFound sh_ID (\<lambda>sh. sh\<lparr>sh_MarkDelete := True\<rparr>) id1 shards"

definition markIndex :: "u64 \<Rightarrow> IndexInfo list \<Rightarrow> IndexInfo list option" where
  "markIndex id1 indexes = markFound ix_ID (\<lambda>ix. ix\<lparr>ix_MarkDelete := True\<rparr>) id1 indexes"

text \<open>
  The loop over the groups of one retention policy: \<open>idx\<close> stays where it is after a
  removal, so each group is visited once, in order.
\<close>

fun pruneShardGroupList :: "u64 \<Rightarrow> ShardGroupInfo list \<Rightarrow> ShardGroupInfo list option" where
  "pruneShardGroupList id1 [] = Some []"
| "pruneShardGroupList id1 (sg # sgs) =
     (case markShard id1 (sg_Shards sg) of
        None \<Rightarrow> None
      | Some shards \<Rightarrow>
          (let sg' = sg\<lparr>sg_Shards := shards\<rparr> in
           case pruneShardGroupList id1 sgs of
             None \<Rightarrow> None
           | Some rest \<Rightarrow>
               if \<not> IsZero (sg_DeletedAt sg') \<and> sgCanDelete sg' then Some rest
               else Some (sg' # rest)))"

fun pruneIndexGroupList :: "u64 \<Rightarrow> IndexGroupInfo list \<Rightarrow> IndexGroupInfo list option" where
  "pruneIndexGroupList id1 [] = Some []"
| "pruneIndexGroupList id1 (ig # igs) =
     (case markIndex id1 (ig_Indexes ig) of
        None \<Rightarrow> None
      | Some indexes \<Rightarrow>
          (let ig' = ig\<lparr>ig_Indexes := indexes\<rparr> in
           case pruneIndexGroupList id1 igs of
             None \<Rightarrow> None
           | Some rest \<Rightarrow>
               if igCanDelete ig' then Some rest else Some (ig' # rest)))"

text \<open>
  \<open>WalkDatabases\<close> and \<open>WalkRetentionPolicy\<close> visit every value of the map; the visits
  are independent of each other, so the order of the visits does not matter.
\<close>

fun walk :: "('v \<Rightarrow> 'v option) \<Rightarrow> ('k \<times> 'v) list \<Rightarrow> ('k \<times> 'v) list option" where
  "walk f [] = Some []"
| "walk f ((k, v) # m) =
     (case f v of
        None \<Rightarrow> None
      | Some v' \<Rightarrow> (case walk f m of None \<Rightarrow> None | Some m' \<Rightarrow> Some ((k, v') # m')))"

definition walkRps ::
  "(RetentionPolicyInfo \<Rightarrow> RetentionPolicyInfo option) \<Rightarrow> Data \<Rightarrow> Data option" where
  "walkRps f data =
     (case walk (\<lambda>db. case walk f (db_RetentionPolicies db) of
                         None \<Rightarrow> None
                       | Some rps \<Rightarrow> Some (db\<lparr>db_RetentionPolicies := rps\<rparr>)) (Databases data) of
        None \<Rightarrow> None
      | Some dbs \<Rightarrow> Some (data\<lparr>Databases := dbs\<rparr>))"

definition pruneShardGroups :: "Data \<Rightarrow> u64 \<Rightarrow> Data result option" where
  "pruneShardGroups data id1 =
     (case walkRps (\<lambda>rp. case pruneShardGroupList id1 (rp_ShardGroups rp) of
                            None \<Rightarrow> None
                          | Some sgs \<Rightarrow> Some (rp\<lparr>rp_ShardGroups := sgs\<rparr>)) data of
        None \<Rightarrow> None
      | Some data' \<Rightarrow> Some (data', None))"

definition pruneIndexGroups :: "Data \<Rightarrow> u64 \<Rightarrow> Data result option" where
  "pruneIndexGroups data id1 =
     (case walkRps (\<lambda>rp. case pruneIndexGroupList id1 (rp_IndexGroups rp) of
                            None \<Rightarrow> None
                          | Some igs \<Rightarrow> Some (rp\<lparr>rp_IndexGroups := igs\<rparr>)) data of
        None \<Rightarrow> None
      | Some data' \<Rightarrow> Some (data', None))"

definition PruneGroups :: "Data \<Rightarrow> bool \<Rightarrow> u64 \<Rightarrow> Data result option" where
  "PruneGroups data shardGroup id1 =
     (if shardGroup then pruneShardGroups data id1 else pruneIndexGroups data id1)"

text \<open>The shard groups and index groups of a retention policy, read through the maps.\<close>

definition rpAt :: "Data \<Rightarrow> string \<Rightarrow> string \<Rightarrow> RetentionPolicyInfo option" where
  "rpAt data database rp =
     (case map_of (Databases data) database of
        None \<Rightarrow> None
      | Some dbi \<Rightarrow> map_of (db_RetentionPolicies dbi) rp)"

text \<open>A property of every retention policy of every database.\<close>

definition allRps :: "(RetentionPolicyInfo \<Rightarrow> bool) \<Rightarrow> Data \<Rightarrow> bool" where
  "allRps P data =
     list_all (\<lambda>(n, db). list_all (\<lambda>(rn, rp). P rp) (db_RetentionPolicies db)) (Databases data)"

text \<open>The group after the marking step, when that step does not panic.\<close>

definition markedShardGroup :: "u64 \<Rightarrow> ShardGroupInfo \<Rightarrow> ShardGroupInfo" where
  "markedShardGroup id1 sg =
     (case markShard id1 (sg_Shards sg) of None \<Rightarrow> sg | Some shards \<Rightarrow> sg\<lparr>sg_Shards := shards\<rparr>)"

definition markedIndexGroup :: "u64 \<Rightarrow> IndexGroupInfo \<Rightarrow> IndexGroupInfo" where
  "markedIndexGroup id1 ig =
     (case markIndex id1 (ig_Indexes ig) of None \<Rightarrow> ig | Some indexes \<Rightarrow> ig\<lparr>ig_Indexes := indexes\<rparr>)"

text \<open>
  What the marking step does to the list \<open>xs\<close>, giving \<open>ys\<close>: nothing when \<open>id1\<close> is
  not between the first and the last id; otherwise it marks one element, whose id is at
  least \<open>id1\<close>, and no element before it has an id of at least \<open>id1\<close> when the ids
  ascend.
\<close>

definition marksOne :: "('a \<Rightarrow> u64) \<Rightarrow> ('a \<Rightarrow> 'a) \<Rightarrow> u64 \<Rightarrow> 'a list \<Rightarrow> 'a list \<Rightarrow> bool" where
  "marksOne ident mark id1 xs ys \<longleftrightarrow>
     (if id1 \<ge> ident (xs ! 0) \<and> id1 \<le> ident (xs ! (length xs - 1))
      then \<exists>p<length xs. id1 \<le> ident (xs ! p) \<and> ys = xs[p := mark (xs ! p)] \<and>
             (sorted (map ident xs) \<longrightarrow> (\<forall>k<p. ident (xs ! k) < id1))
      else ys = xs)"

subsection \<open>The partition view of a database\<close>

definition DBPtView :: "Data \<Rightarrow> string \<Rightarrow> PtInfo list" where
  "DBPtView data name = (case map_of (PtView data) name of None \<Rightarrow> [] | Some v \<Rightarrow> v)"

definition DBRepGroups :: "Data \<Rightarrow> string \<Rightarrow> ReplicaGroup list" where
  "DBRepGroups data name = (case map_of (ReplicaGroups data) name of None \<Rightarrow> [] | Some v \<Rightarrow> v)"

text \<open>
  Modelled from the spec: \<open>IsNodeWriter\<close> is declared in a file that is not part of the
  sources; the roles are writer and reader, and a reader is excluded from placement.
\<close>

definition IsNodeWriter :: "string \<Rightarrow> bool" where
  "IsNodeWriter role = (role \<noteq> ''reader'')"

definition Normal :: u64 where "Normal = 0"

definition GetWriteNode :: "Data \<Rightarrow> DataNode list" where
  "GetWriteNode data = filter (\<lambda>n. IsNodeWriter (dn_Role n)) (DataNodes data)"

definition GetAliveWriteNode :: "Data \<Rightarrow> DataNode list" where
  "GetAliveWriteNode data =
     filter (\<lambda>n. IsNodeWriter (dn_Role n) \<and> dn_Status n = StatusAlive \<and>
                 dn_SegregateStatus n = Normal) (DataNodes data)"

text \<open>The zero value of \<open>PtInfo\<close>, with which \<open>make([]PtInfo, n)\<close> fills a slice.\<close>

definition zeroPt :: PtInfo where
  "zeroPt = \<lparr>pt_Owner = 0, pt_Status = Offline, pt_PtId = 0, pt_Ver = 0, pt_RGID = 0\<rparr>"

text \<open>
  \<open>updatePtStatus\<close>. \<open>copy(newPtView, dbPtView)\<close> copies as many elements as the shorter
  slice has; \<open>dbPtView[ptId]\<close> panics when \<open>ptId\<close> is not below the length. The caller
  has allocated \<open>data.PtView\<close>.
\<close>

definition updatePtStatus :: "Data \<Rightarrow> string \<Rightarrow> u32 \<Rightarrow> u64 \<Rightarrow> PtStatus \<Rightarrow> Data option" where
  "updatePtStatus data db ptId nodeId status =
     (let ptNum = unat (GetClusterPtNum data);
          dbPtView0 = (case map_of (PtView data) db of
                         None \<Rightarrow> replicate ptNum zeroPt
                       | Some v \<Rightarrow> v);
          dbPtView = (if unat ptId \<ge> length dbPtView0
                      then take ptNum dbPtView0 @ replicate (ptNum - length dbPtView0) zeroPt
                      else dbPtView0)
      in if unat ptId < length dbPtView then
           (let pi0 = dbPtView ! unat ptId;
                pi1 = pi0\<lparr>pt_Owner := nodeId, pt_Status := status, pt_PtId := ptId\<rparr>;
                pi2 = (if pt_Ver pi1 = 0 then pi1\<lparr>pt_Ver := 1\<rparr> else pi1)
            in Some (data\<lparr>PtView := map_set (PtView data) db (dbPtView[unat ptId := pi2])\<rparr>))
         else None)"

text \<open>
  The loop \<open>for ptId := 0; ptId < int(ptNum); ptId++\<close> of the two assigners, over the
  list of the values of \<open>ptId\<close>.
\<close>

fun assignLoop :: "DataNode list \<Rightarrow> string \<Rightarrow> nat list \<Rightarrow> Data \<Rightarrow> Data option" where
  "assignLoop nodes name [] data = Some data"
| "assignLoop nodes name (ptId # ptIds) data =
     (let pos = ptId mod length nodes in
      case updatePtStatus data name (of_nat ptId) (dn_ID (nodes ! pos)) Offline of
        None \<Rightarrow> None
      | Some data' \<Rightarrow> assignLoop nodes name ptIds data')"

definition assignPtForWAF :: "Data \<Rightarrow> string \<Rightarrow> Data result option" where
  "assignPtForWAF data name =
     (let writeNodes = GetWriteNode data in
      if length writeNodes = 0 then Some (data, Some ErrDataNoAlive)
      else case assignLoop writeNodes name [0..<unat (GetClusterPtNum data)] data of
             None \<Rightarrow> None
           | Some data' \<Rightarrow> Some (data', None))"

definition assignPtForSS :: "Data \<Rightarrow> string \<Rightarrow> Data result option" where
  "assignPtForSS data name =
     (let aliveDataNodes = GetAliveWriteNode data in
      if length aliveDataNodes = 0 then Some (data, Some ErrDataNoAlive)
      else case assignLoop aliveDataNodes name [0..<unat (GetClusterPtNum data)] data of
             None \<Rightarrow> None
           | Some data' \<Rightarrow> Some (data', None))"

definition dbPtAssigner :: "HaPolicy \<Rightarrow> Data \<Rightarrow> string \<Rightarrow> Data result option" where
  "dbPtAssigner haPolicy =
     (case haPolicy of
        WriteAvailableFirst \<Rightarrow> assignPtForWAF
      | SharedStorage \<Rightarrow> assignPtForSS
      | Replication \<Rightarrow> assignPtForWAF)"

text \<open>A nil slice is the empty list: \<open>data.PtView[name] != nil\<close> is a view with elements.\<close>

definition CreateDBPtView :: "HaPolicy \<Rightarrow> Data \<Rightarrow> string \<Rightarrow> Data result option" where
  "CreateDBPtView haPolicy data name =
     (if DBPtView data name \<noteq> [] then Some (data, None)
      else dbPtAssigner haPolicy data name)"

subsection \<open>Replica groups\<close>

definition zeroRepGroup :: ReplicaGroup where
  "zeroRepGroup = \<lparr>rg_ID = 0, rg_MasterPtID = 0, rg_Peers = [], rg_Status = Health, rg_Term = 0\<rparr>"

definition expandRepGroups :: "Data \<Rightarrow> string \<Rightarrow> u32 \<Rightarrow> Data" where
  "expandRepGroups data db repNum =
     data\<lparr>ReplicaGroups := map_set (ReplicaGroups data) db
       (DBRepGroups data db @ replicate (unat repNum) zeroRepGroup)\<rparr>"

text \<open>
  Modelled from the spec: \<open>ReplicaGroup.init\<close> is declared in a file that is not part of
  the sources; it sets the id, the master, the peers, the status and the term.
\<close>

definition rgInit :: "u32 \<Rightarrow> u32 \<Rightarrow> Peer list \<Rightarrow> RGStatus \<Rightarrow> u64 \<Rightarrow> ReplicaGroup" where
  "rgInit id1 masterPtId peers status term =
     \<lparr>rg_ID = id1, rg_MasterPtID = masterPtId, rg_Peers = peers, rg_Status = status,
      rg_Term = term\<rparr>"

text \<open>\<open>ptView[ptId].RGID = repGroupId\<close>, a panic when \<open>ptId\<close> is out of range.\<close>

definition setRGID :: "PtInfo list \<Rightarrow> u32 \<Rightarrow> u32 \<Rightarrow> PtInfo list option" where
  "setRGID ptView ptId repGroupId =
     (if unat ptId < length ptView
      then Some (ptView[unat ptId := (ptView ! unat ptId)\<lparr>pt_RGID := repGroupId\<rparr>])
      else None)"

text \<open>The loop over \<open>i\<close>, which fills \<open>peers\<close> in the order of \<open>i\<close>.\<close>

fun slaveLoop ::
  "u32 \<Rightarrow> u32 \<Rightarrow> u32 \<Rightarrow> nat list \<Rightarrow> Peer list \<Rightarrow> PtInfo list \<Rightarrow> (Peer list \<times> PtInfo list) option" where
  "slaveLoop ptIdx ptNumPerNode repGroupId [] peers ptView = Some (peers, ptView)"
| "slaveLoop ptIdx ptNumPerNode repGroupId (i # is) peers ptView =
     (let slavePtId = ptIdx + ptNumPerNode * (of_nat i + 1) in
      case setRGID ptView slavePtId repGroupId of
        None \<Rightarrow> None
      | Some ptView' \<Rightarrow>
          slaveLoop ptIdx ptNumPerNode repGroupId is
            (peers @ [\<lparr>peer_ID = slavePtId, peer_PtRole = Slave\<rparr>]) ptView')"

text \<open>
  The loop over \<open>k\<close>, by the number of rounds left; \<open>ptIdx\<close> is the same in every round,
  \<open>repGroupId\<close> grows by one.
\<close>

fun kLoop ::
  "u32 \<Rightarrow> u32 \<Rightarrow> u32 \<Rightarrow> nat \<Rightarrow> u32 \<Rightarrow> ReplicaGroup list \<Rightarrow> PtInfo list
     \<Rightarrow> (u32 \<times> ReplicaGroup list \<times> PtInfo list) option" where
  "kLoop replicaN ptNumPerNode ptIdx 0 repGroupId repGroups ptView =
     Some (repGroupId, repGroups, ptView)"
| "kLoop replicaN ptNumPerNode ptIdx (Suc n) repGroupId repGroups ptView =
     (case slaveLoop ptIdx ptNumPerNode repGroupId [0..<unat (replicaN - 1)] [] ptView of
        None \<Rightarrow> None
      | Some (peers, ptView1) \<Rightarrow>
          if unat repGroupId < length repGroups then
            (let masterPtId = ptIdx;
                 repGroups1 = repGroups[unat repGroupId :=
                                rgInit repGroupId masterPtId peers Health 0]
             in case setRGID ptView1 masterPtId repGroupId of
                  None \<Rightarrow> None
                | Some ptView2 \<Rightarrow>
                    kLoop replicaN ptNumPerNode ptIdx n (repGroupId + 1) repGroups1 ptView2)
          else None)"

text \<open>
  The outer loop \<open>for repGroupId, ptIdx := repStart, ptStart; repGroupId < repEnd; {...}\<close>.
  It does not end when \<open>ptNumPerNode\<close> is 0: not returning is \<open>None\<close>, as a panic is.
\<close>

partial_function (option) repLoop ::
  "u32 \<Rightarrow> u32 \<Rightarrow> u32 \<Rightarrow> u32 \<Rightarrow> u32 \<Rightarrow> ReplicaGroup list \<Rightarrow> PtInfo list
     \<Rightarrow> (ReplicaGroup list \<times> PtInfo list) option" where
  "repLoop replicaN ptNumPerNode repEnd repGroupId ptIdx repGroups ptView =
     (if repGroupId < repEnd then
        (case kLoop replicaN ptNumPerNode ptIdx (unat ptNumPerNode) repGroupId repGroups ptView of
           None \<Rightarrow> None
         | Some (repGroupId', repGroups', ptView') \<Rightarrow>
             repLoop replicaN ptNumPerNode repEnd repGroupId' (ptIdx + ptNumPerNode * replicaN)
               repGroups' ptView')
      else Some (repGroups, ptView))"

text \<open>
  \<open>createReplicationInner\<close>. The two slices alias the values of the maps, so the writes
  of the loops are writes into the catalog. The call of the logger slices
  \<open>repGroups[repStart:]\<close> and \<open>ptView[ptStart:]\<close>, a panic beyond the length.
\<close>

definition createReplicationInner :: "Data \<Rightarrow> string \<Rightarrow> u32 \<Rightarrow> u32 \<Rightarrow> u32 \<Rightarrow> u32 \<Rightarrow> Data option" where
  "createReplicationInner data db replicaN repStart repEnd ptStart =
     (let data1 = expandRepGroups data db (repEnd - repStart);
          ptNumPerNode = PtNumPerNode data1;
          repGroups = DBRepGroups data1 db;
          ptView = DBPtView data1 db
      in case repLoop replicaN ptNumPerNode repEnd repStart ptStart repGroups ptView of
           None \<Rightarrow> None
         | Some (repGroups', ptView') \<Rightarrow>
             if unat repStart \<le> length repGroups' \<and> unat ptStart \<le> length ptView' then
               Some (data1\<lparr>ReplicaGroups := map_set (ReplicaGroups data1) db repGroups',
                            PtView := map_modify (PtView data1) db (\<lambda>_. ptView')\<rparr>)
             else None)"

text \<open>The division and the remainder panic on a zero divisor.\<close>

definition createReplicationImp :: "Data \<Rightarrow> string \<Rightarrow> u32 \<Rightarrow> Data result option" where
  "createReplicationImp data db replicaN =
     (let ptView = DBPtView data db;
          ptNum = (of_nat (length ptView) :: u32)
      in if PtNumPerNode data = 0 then None
         else
           let nodeNum = ptNum div PtNumPerNode data in
           if replicaN = 0 then None
           else if nodeNum mod replicaN \<noteq> 0 then Some (data, Some ErrReplicaNodeNumIncorrect)
           else case createReplicationInner data db replicaN 0 (ptNum div replicaN) 0 of
                  None \<Rightarrow> None
                | Some data' \<Rightarrow> Some (data', None))"

definition CreateReplication :: "Data \<Rightarrow> string \<Rightarrow> u32 \<Rightarrow> Data result option" where
  "CreateReplication data db replicaN =
     (if replicaN \<le> 1 then Some (data, None) else createReplicationImp data db replicaN)"

subsection \<open>Time ranges of groups\<close>

text \<open>
  \<open>Time.Truncate\<close> of Go's library rounds down to a multiple of \<open>d\<close> since the zero
  time, and returns the time unchanged when \<open>d\<close> is not positive.
  \<open>models.MaxNanoTime\<close> of the influxdb library is \<open>math.MaxInt64 - 1\<close>.
\<close>

definition Truncate :: "Time \<Rightarrow> Duration \<Rightarrow> Time" where
  "Truncate t d = (if d \<le> 0 then t else t - ((t - zeroTime) mod d))"

definition MaxNanoTime :: int where
  "MaxNanoTime = 2 ^ 63 - 2"

text \<open>
  Modelled from the spec: \<open>Contains\<close>, \<open>Overlaps\<close>, \<open>Deleted\<close>, the order of
  \<open>sort.Sort(ShardGroupInfos(\<dots>))\<close> and of \<open>sort.Sort(IndexGroupInfos(\<dots>))\<close>, and
  \<open>RetentionPolicyInfo.ShardGroupByTimestampAndEngineType\<close> are declared in a file that is
  not part of the sources. A group covers the half-open range from its start time to
  its end time; it contains a time in that range and overlaps a range of times that
  meets it; the groups of a policy are stored sorted by start time; the lookup returns
  the first shard group of the engine type that contains the timestamp.
\<close>

definition sgContains :: "ShardGroupInfo \<Rightarrow> Time \<Rightarrow> bool" where
  "sgContains sg t \<longleftrightarrow> sg_StartTime sg \<le> t \<and> t < sg_EndTime sg"

definition igContains :: "IndexGroupInfo \<Rightarrow> Time \<Rightarrow> bool" where
  "igContains ig t \<longleftrightarrow> ig_StartTime ig \<le> t \<and> t < ig_EndTime ig"

definition igOverlaps :: "IndexGroupInfo \<Rightarrow> Time \<Rightarrow> Time \<Rightarrow> bool" where
  "igOverlaps ig tmin tmax \<longleftrightarrow> ig_StartTime ig \<le> tmax \<and> tmin < ig_EndTime ig"

definition sortShardGroups :: "ShardGroupInfo list \<Rightarrow> ShardGroupInfo list" where
  "sortShardGroups sgs = sort_key sg_StartTime sgs"

definition sortIndexGroups :: "IndexGroupInfo list \<Rightarrow> IndexGroupInfo list" where
  "sortIndexGroups igs = sort_key ig_StartTime igs"

definition ShardGroupByTimestampAndEngineType ::
  "RetentionPolicyInfo \<Rightarrow> Time \<Rightarrow> EngineType \<Rightarrow> ShardGroupInfo option" where
  "ShardGroupByTimestampAndEngineType rpi timestamp engineType =
     find (\<lambda>sg. sgContains sg timestamp \<and> sg_EngineType sg = engineType) (rp_ShardGroups rpi)"

subsection \<open>The effective number of partitions\<close>

text \<open>\<open>data.Databases[db].ReplicaN\<close> dereferences a nil pointer when there is no such database.\<close>

definition DBReplicaN :: "Data \<Rightarrow> string \<Rightarrow> int option" where
  "DBReplicaN data db =
     (case map_of (Databases data) db of
        None \<Rightarrow> None
      | Some dbi \<Rightarrow> Some (if db_ReplicaN dbi = 0 then 1 else db_ReplicaN dbi))"

definition GetEffectivePtNum :: "Data \<Rightarrow> string \<Rightarrow> u32 option" where
  "GetEffectivePtNum data db =
     (case DBReplicaN data db of
        None \<Rightarrow> None
      | Some replicaN \<Rightarrow>
          if replicaN = 1 then Some (ClusterPtNum data)
          else Some (of_int (replicaN * int (length (DBRepGroups data db)))))"

definition RetentionPolicy :: "Data \<Rightarrow> string \<Rightarrow> string \<Rightarrow> error + RetentionPolicyInfo" where
  "RetentionPolicy data database name =
     (case GetDatabase data database of
        Inl err \<Rightarrow> Inl err
      | Inr di \<Rightarrow> GetRetentionPolicy di name)"

subsection \<open>Index groups\<close>

text \<open>
  The loop that fills \<open>igi.Indexes\<close>: index \<open>i\<close> gets the next id and owns partition
  \<open>i\<close>; \<open>MaxIndexID\<close> has grown by the number of indexes afterwards.
\<close>

definition mkIndexes :: "u64 \<Rightarrow> nat \<Rightarrow> IndexInfo list" where
  "mkIndexes maxIndexID n =
     map (\<lambda>i. \<lparr>ix_ID = maxIndexID + of_nat i + 1, ix_Owners = [of_nat i], ix_MarkDelete = False\<rparr>)
       [0..<n]"

text \<open>
  \<open>createIndexGroup\<close>, the one of re-sharding. It works on the retention policy \<open>rp\<close>
  that the caller holds a pointer to, and on the counters of \<open>data\<close>: the model returns
  both. \<open>rp.ShardGroups[length-1]\<close> panics without shard groups. The new group gets no
  engine type: the field keeps its zero value.
\<close>

definition createIndexGroup ::
  "Data \<Rightarrow> string \<Rightarrow> RetentionPolicyInfo \<Rightarrow> Time \<Rightarrow> (Data \<times> RetentionPolicyInfo) option" where
  "createIndexGroup data db rp startTime =
     (if rp_ShardGroups rp = [] then None
      else
        let endTime0 = sg_EndTime (last (rp_ShardGroups rp));
            endTime = (case find (\<lambda>ig. igOverlaps ig startTime endTime0) (rev (rp_IndexGroups rp)) of
                         None \<Rightarrow> endTime0
                       | Some ig \<Rightarrow> ig_EndTime ig)
        in case GetEffectivePtNum data db of
             None \<Rightarrow> None
           | Some ptNum \<Rightarrow>
               (let igi = \<lparr>ig_ID = MaxIndexGroupID data + 1, ig_StartTime = startTime,
                           ig_EndTime = endTime,
                           ig_Indexes = mkIndexes (MaxIndexID data) (unat ptNum),
                           ig_DeletedAt = zeroTime, ig_EngineType = TSSTORE\<rparr>
                in Some (data\<lparr>MaxIndexGroupID := MaxIndexGroupID data + 1,
                               MaxIndexID := MaxIndexID data + of_nat (unat ptNum)\<rparr>,
                         rp\<lparr>rp_IndexGroups := sortIndexGroups (rp_IndexGroups rp @ [igi])\<rparr>)))"

text \<open>\<open>CreateIndexGroup\<close>, the one of \<open>CreateShardGroup\<close>; it returns the new group too.\<close>

definition CreateIndexGroup ::
  "Data \<Rightarrow> RetentionPolicyInfo \<Rightarrow> Time \<Rightarrow> EngineType \<Rightarrow> u32
     \<Rightarrow> Data \<times> RetentionPolicyInfo \<times> IndexGroupInfo" where
  "CreateIndexGroup data rpi timestamp engineType ptNum =
     (let startTime = Truncate timestamp (rp_IndexGroupDuration rpi);
          endTime0 = startTime + rp_IndexGroupDuration rpi;
          endTime = (if endTime0 > MaxNanoTime then MaxNanoTime + 1 else endTime0);
          igi = \<lparr>ig_ID = MaxIndexGroupID data + 1, ig_StartTime = startTime, ig_EndTime = endTime,
                  ig_Indexes = mkIndexes (MaxIndexID data) (unat ptNum),
                  ig_DeletedAt = zeroTime, ig_EngineType = engineType\<rparr>
      in (data\<lparr>MaxIndexGroupID := MaxIndexGroupID data + 1,
                MaxIndexID := MaxIndexID data + of_nat (unat ptNum)\<rparr>,
          rpi\<lparr>rp_IndexGroups := sortIndexGroups (rp_IndexGroups rpi @ [igi])\<rparr>,
          igi))"

definition createIndexGroupIfNeeded ::
  "Data \<Rightarrow> RetentionPolicyInfo \<Rightarrow> Time \<Rightarrow> EngineType \<Rightarrow> u32
     \<Rightarrow> Data \<times> RetentionPolicyInfo \<times> IndexGroupInfo" where
  "createIndexGroupIfNeeded data rpi timestamp engineType ptNum =
     (if length (rp_IndexGroups rpi) = 0 then CreateIndexGroup data rpi timestamp engineType ptNum
      else case find (\<lambda>ig. ig_EngineType ig = engineType \<and> igContains ig timestamp)
                  (rp_IndexGroups rpi) of
             Some ig \<Rightarrow>
               if length (ig_Indexes ig) \<ge> unat ptNum then (data, rpi, ig)
               else CreateIndexGroup data rpi timestamp engineType ptNum
           | None \<Rightarrow> CreateIndexGroup data rpi timestamp engineType ptNum)"

subsection \<open>Shard groups\<close>

definition RANGE :: string where "RANGE = ''range''"
definition HASH :: string where "HASH = ''hash''"

text \<open>A loop whose body can panic, over the list of the values of its counter.\<close>

fun forEach :: "(nat \<Rightarrow> 'a option) \<Rightarrow> nat list \<Rightarrow> 'a list option" where
  "forEach f [] = Some []"
| "forEach f (i # is) =
     (case f i of
        None \<Rightarrow> None
      | Some x \<Rightarrow> (case forEach f is of None \<Rightarrow> None | Some xs \<Rightarrow> Some (x # xs)))"

text \<open>
  The body of the loop of \<open>CreateShardGroupWithBounds\<close> for shard \<open>i\<close>: the first
  partition \<open>ptId\<close> below \<open>ptNum\<close> with \<open>ptId % shardN == i\<close>, if there is one, becomes
  the owner, and \<open>igi.Indexes[ptId]\<close> (a panic when out of range) gives the index id.
\<close>

definition boundShard ::
  "u64 \<Rightarrow> u64 \<Rightarrow> nat \<Rightarrow> IndexGroupInfo \<Rightarrow> string list \<Rightarrow> nat \<Rightarrow> ShardInfo option" where
  "boundShard maxShardID tier ptNum igi bounds i =
     (let shardN = length bounds + 1;
          sh0 = \<lparr>sh_ID = maxShardID + of_nat i + 1, sh_Owners = [], sh_Min = [], sh_Max = [],
                  sh_Tier = tier, sh_IndexID = 0, sh_MarkDelete = False\<rparr>;
          sh1 = (case find (\<lambda>ptId. ptId mod shardN = i) [0..<ptNum] of
                   None \<Rightarrow> Some sh0
                 | Some ptId \<Rightarrow>
                     if ptId < length (ig_Indexes igi)
                     then Some (sh0\<lparr>sh_Owners := [of_nat ptId],
                                    sh_IndexID := ix_ID (ig_Indexes igi ! ptId)\<rparr>)
                     else None)
      in case sh1 of
           None \<Rightarrow> None
         | Some sh \<Rightarrow>
             (let sh2 = (if i \<noteq> shardN - 1 then sh\<lparr>sh_Max := bounds ! i\<rparr> else sh)
              in Some (if i > 0 then sh2\<lparr>sh_Min := bounds ! (i - 1)\<rparr> else sh2)))"

definition CreateShardGroupWithBounds ::
  "Data \<Rightarrow> string \<Rightarrow> RetentionPolicyInfo \<Rightarrow> Time \<Rightarrow> string list \<Rightarrow> EngineType
     \<Rightarrow> ((Data \<times> RetentionPolicyInfo) \<times> error option) option" where
  "CreateShardGroupWithBounds data db rp startTime bounds engineType =
     (if rp_ShardGroups rp = [] \<or> rp_IndexGroups rp = [] then None
      else
        let lastSg = last (rp_ShardGroups rp);
            igi = last (rp_IndexGroups rp);
            shardN = length bounds + 1
        in if sg_Shards lastSg = [] then None
           else case GetEffectivePtNum data db of
             None \<Rightarrow> None
           | Some ptNum \<Rightarrow>
               (case forEach (boundShard (MaxShardID data) (sh_Tier (sg_Shards lastSg ! 0))
                                (unat ptNum) igi bounds) [0..<shardN] of
                  None \<Rightarrow> None
                | Some shards \<Rightarrow>
                    (let sgi = \<lparr>sg_ID = MaxShardGroupID data + 1, sg_StartTime = startTime,
                                sg_EndTime = sg_EndTime lastSg, sg_DeletedAt = zeroTime,
                                sg_Shards = shards, sg_EngineType = engineType, sg_Version = 0\<rparr>
                     in Some ((data\<lparr>MaxShardGroupID := MaxShardGroupID data + 1,
                                     MaxShardID := MaxShardID data + of_nat shardN\<rparr>,
                               rp\<lparr>rp_ShardGroups := sortShardGroups (rp_ShardGroups rp @ [sgi])\<rparr>),
                              None))))"

record ReShardingInfo =
  rs_Database :: string
  rs_Rp :: string
  rs_ShardGroupID :: u64
  rs_SplitTime :: "64 word"
  rs_Bounds :: "string list"

text \<open>
  \<open>ReSharding\<close>. \<open>info.SplitTime + 1\<close> is an \<open>int64\<close> addition; the retention policy that
  the two callees have changed is the one in the catalog.
\<close>

definition ReSharding :: "Data \<Rightarrow> ReShardingInfo \<Rightarrow> Data result option" where
  "ReSharding data info =
     (case RetentionPolicy data (rs_Database info) (rs_Rp info) of
        Inl err \<Rightarrow> Some (data, Some err)
      | Inr rp \<Rightarrow>
          if length (rp_ShardGroups rp) = 0 then Some (data, Some ErrShardGroupNotFound)
          else if sg_ID (last (rp_ShardGroups rp)) \<noteq> rs_ShardGroupID info
          then Some (data, Some (ErrShardGroupAlreadyReSharding (rs_ShardGroupID info)))
          else
            (let startTime = sint (rs_SplitTime info + 1) in
             (case createIndexGroup data (rs_Database info) rp startTime of
                None \<Rightarrow> None
              | Some (data1, rp1) \<Rightarrow>
                  (case CreateShardGroupWithBounds data1 (rs_Database info) rp1 startTime
                          (rs_Bounds info) (sg_EngineType (last (rp_ShardGroups rp1))) of
                     None \<Rightarrow> None
                   | Some ((data2, rp2), err) \<Rightarrow>
                       Some (modifyRp data2 (rs_Database info) (rs_Rp info) (\<lambda>_. rp2), err)))))"

definition newShardGroup ::
  "Data \<Rightarrow> RetentionPolicyInfo \<Rightarrow> Time \<Rightarrow> EngineType \<Rightarrow> u32 \<Rightarrow> Data \<times> ShardGroupInfo" where
  "newShardGroup data rpi timestamp engineType version =
     (let startTime = Truncate timestamp (rp_ShardGroupDuration rpi);
          endTime0 = startTime + rp_ShardGroupDuration rpi;
          endTime = (if endTime0 > MaxNanoTime then MaxNanoTime + 1 else endTime0)
      in (data\<lparr>MaxShardGroupID := MaxShardGroupID data + 1\<rparr>,
          \<lparr>sg_ID = MaxShardGroupID data + 1, sg_StartTime = startTime, sg_EndTime = endTime,
           sg_DeletedAt = zeroTime, sg_Shards = [], sg_EngineType = engineType,
           sg_Version = version\<rparr>))"

text \<open>
  The body of the loop of \<open>createShards\<close> for shard \<open>i\<close>: every \<open>ptId\<close> below \<open>shardN\<close>
  with \<open>ptId % shardN == i\<close> is appended to the owners and sets the index id, in order;
  then the bounds of the shard at the same place in the last group are copied.
\<close>

fun addOwners :: "IndexGroupInfo \<Rightarrow> nat list \<Rightarrow> ShardInfo \<Rightarrow> ShardInfo option" where
  "addOwners igi [] sh = Some sh"
| "addOwners igi (ptId # ptIds) sh =
     (if ptId < length (ig_Indexes igi)
      then addOwners igi ptIds
             (sh\<lparr>sh_Owners := sh_Owners sh @ [of_nat ptId],
                 sh_IndexID := ix_ID (ig_Indexes igi ! ptId)\<rparr>)
      else None)"

definition hashShard ::
  "u64 \<Rightarrow> u64 \<Rightarrow> nat \<Rightarrow> IndexGroupInfo \<Rightarrow> ShardGroupInfo option \<Rightarrow> nat \<Rightarrow> ShardInfo option" where
  "hashShard maxShardID tier shardN igi lastSgi i =
     (let sh0 = \<lparr>sh_ID = maxShardID + of_nat i + 1, sh_Owners = [], sh_Min = [], sh_Max = [],
                  sh_Tier = tier, sh_IndexID = 0, sh_MarkDelete = False\<rparr>
      in case addOwners igi (filter (\<lambda>ptId. ptId mod shardN = i) [0..<shardN]) sh0 of
           None \<Rightarrow> None
         | Some sh \<Rightarrow>
             (case lastSgi of
                None \<Rightarrow> Some sh
              | Some l \<Rightarrow>
                  if i < length (sg_Shards l)
                  then Some (sh\<lparr>sh_Min := sh_Min (sg_Shards l ! i), sh_Max := sh_Max (sg_Shards l ! i)\<rparr>)
                  else None))"

definition createShards ::
  "Data \<Rightarrow> string \<Rightarrow> ShardGroupInfo \<Rightarrow> IndexGroupInfo \<Rightarrow> RetentionPolicyInfo \<Rightarrow> MeasurementInfo
     \<Rightarrow> u64 \<Rightarrow> (Data \<times> ShardGroupInfo) option" where
  "createShards data database sgi igi rpi msti tier =
     (case GetEffectivePtNum data database of
        None \<Rightarrow> None
      | Some ptNum \<Rightarrow>
          (let shardN = unat ptNum;
               isRange = (length (m_ShardKeys msti) > 0 \<and> sk_Type (m_ShardKeys msti ! 0) = RANGE);
               lastSgi = (if isRange \<and> rp_ShardGroups rpi \<noteq> []
                          then Some (last (rp_ShardGroups rpi)) else None);
               count = (if isRange
                        then (case lastSgi of None \<Rightarrow> 1 | Some l \<Rightarrow> length (sg_Shards l))
                        else shardN)
           in case forEach (hashShard (MaxShardID data) tier shardN igi lastSgi) [0..<count] of
                None \<Rightarrow> None
              | Some shards \<Rightarrow>
                  Some (data\<lparr>MaxShardID := MaxShardID data + of_nat count\<rparr>,
                        sgi\<lparr>sg_Shards := shards\<rparr>)))"

text \<open>
  \<open>CreateShardGroup\<close>. The measurement is the first that the iteration over the map of
  measurements yields: the order of the association list stands for that of the run.
\<close>

definition CreateShardGroup ::
  "Data \<Rightarrow> string \<Rightarrow> string \<Rightarrow> Time \<Rightarrow> u64 \<Rightarrow> EngineType \<Rightarrow> u32 \<Rightarrow> Data result option" where
  "CreateShardGroup data database policy timestamp tier engineType version =
     (case checkStoreReady data of
        Some err \<Rightarrow> Some (data, Some err)
      | None \<Rightarrow>
     (case RetentionPolicy data database policy of
        Inl err \<Rightarrow> Some (data, Some err)
      | Inr rpi \<Rightarrow>
          if ShardGroupByTimestampAndEngineType rpi timestamp engineType \<noteq> None
          then Some (data, None)
          else
            (case rp_Measurements rpi of
               [] \<Rightarrow> Some (data, Some ErrNoMeasurement)
             | (mstName, msti) # _ \<Rightarrow>
                 (case GetEffectivePtNum data database of
                    None \<Rightarrow> None
                  | Some ptNum \<Rightarrow>
                      (case createIndexGroupIfNeeded data rpi timestamp engineType ptNum of
                         (data1, rpi1, igi) \<Rightarrow>
                           (case newShardGroup data1 rpi1 timestamp engineType version of
                              (data2, sgi) \<Rightarrow>
                                (case createShards data2 database sgi igi rpi1 msti tier of
                                   None \<Rightarrow> None
                                 | Some (data3, sgi') \<Rightarrow>
                                     Some (modifyRp data3 database policy
                                             (\<lambda>_. rpi1\<lparr>rp_ShardGroups :=
                                                     sortShardGroups (rp_ShardGroups rpi1 @ [sgi'])\<rparr>),
                                           None))))))))"

subsection \<open>The link from a shard to its index\<close>

text \<open>
  A shard \<open>s\<close> of the shard group \<open>g\<close> is linked when some index group among \<open>igs\<close>
  overlaps the time range of \<open>g\<close>, has the engine type of \<open>g\<close>, and has at the position
  of the first owner of \<open>s\<close> an index with the id \<open>s.IndexID\<close> and the owners of \<open>s\<close>.
\<close>

definition linkedIn :: "IndexGroupInfo \<Rightarrow> ShardInfo \<Rightarrow> bool" where
  "linkedIn ig s =
     (case sh_Owners s of
        [] \<Rightarrow> False
      | owner # _ \<Rightarrow>
          unat owner < length (ig_Indexes ig) \<and>
          sh_IndexID s = ix_ID (ig_Indexes ig ! unat owner) \<and>
          ix_Owners (ig_Indexes ig ! unat owner) = sh_Owners s)"

definition shardLinked :: "IndexGroupInfo list \<Rightarrow> ShardGroupInfo \<Rightarrow> ShardInfo \<Rightarrow> bool" where
  "shardLinked igs g s =
     list_ex (\<lambda>ig. ig_StartTime ig < sg_EndTime g \<and> sg_StartTime g < ig_EndTime ig \<and>
                   ig_EngineType ig = sg_EngineType g \<and> linkedIn ig s) igs"

definition shardIndexInv :: "Data \<Rightarrow> bool" where
  "shardIndexInv data =
     allRps (\<lambda>rp. list_all (\<lambda>g. list_all (shardLinked (rp_IndexGroups rp) g) (sg_Shards g))
                     (rp_ShardGroups rp)) data"

subsection \<open>The commands that write the user list or the admin flag\<close>

text \<open>
  \<open>data.Users\<close> is assigned or updated in \<open>CreateUser\<close>, \<open>DropUser\<close>, \<open>UpdateUser\<close>,
  \<open>SetPrivilege\<close> and \<open>DropDatabase\<close>, and \<open>data.AdminUserExists\<close> in \<open>CreateUser\<close>;
  \<open>SetAdminPrivilege\<close> is the command that would grant or revoke the admin flag.
  (\<open>Unmarshal\<close>, which restores a snapshot, is not a command.)
  A command leaves its state behind whether or not it returns an error.
\<close>

datatype user_command =
    CmdCreateUser string string bool bool
  | CmdDropUser string
  | CmdUpdateUser string string
  | CmdSetPrivilege string string Privilege
  | CmdSetAdminPrivilege string bool
  | CmdDropDatabase string

fun applyUserCmd :: "Data \<Rightarrow> user_command \<Rightarrow> Data" where
  "applyUserCmd data (CmdCreateUser name hash admin rwuser) = fst (CreateUser data name hash admin rwuser)"
| "applyUserCmd data (CmdDropUser name) = fst (DropUser data name)"
| "applyUserCmd data (CmdUpdateUser name hash) = fst (UpdateUser data name hash)"
| "applyUserCmd data (CmdSetPrivilege name database p) = fst (SetPrivilege data name database p)"
| "applyUserCmd data (CmdSetAdminPrivilege name admin) = fst (SetAdminPrivilege data name admin)"
| "applyUserCmd data (CmdDropDatabase name) = DropDatabase data name"

definition adminCount :: "Data \<Rightarrow> nat" where
  "adminCount data = length (filter u_Admin (Users data))"

definition user_inv :: "Data \<Rightarrow> bool" where
  "user_inv data \<longleftrightarrow> adminCount data \<le> 1 \<and> (HasAdminUser data \<longleftrightarrow> AdminUserExists data)"

fun applyUserCmds :: "Data \<Rightarrow> user_command list \<Rightarrow> Data" where
  "applyUserCmds data [] = data"
| "applyUserCmds data (c # cs) = applyUserCmds (applyUserCmd data c) cs"

definition adminNames :: "Data \<Rightarrow> string list" where
  "adminNames data = map u_Name (filter u_Admin (Users data))"

text \<open>The zero value of \<open>Data\<close>.\<close>

definition emptyData :: Data where
  "emptyData = \<lparr>ClusterPtNum = 0, PtNumPerNode = 0, DataNodes = [], PtView = [],
     ReplicaGroups = [], Databases = [], Users = [], AdminUserExists = False,
     TakeOverEnabled = False, MaxShardGroupID = 0, MaxShardID = 0, MaxIndexGroupID = 0,
     MaxIndexID = 0\<rparr>"

subsection \<open>An example catalog\<close>

text \<open>
  One writer node with two partitions, the database \<open>db0\<close> with the retention policy
  \<open>autogen\<close>, the measurement \<open>cpu\<close> with the string field \<open>host\<close>, and the shard
  group and index group of 2024-01-01T00:30:00Z.
\<close>

definition hour :: Duration where
  "hour = 3600 * 1000000000"

definition t2024 :: Time where
  "t2024 = 1704067200 * 1000000000"

definition cpuMst :: MeasurementInfo where
  "cpuMst = \<lparr>m_Name = ''cpu_0000'',
     m_ShardKeys = [\<lparr>sk_ShardKey = [''host''], sk_Type = ''hash'', sk_ShardGroup = 0\<rparr>],
     m_Schema = [(''host'', 4)], m_MarkDeleted = False, m_EngineType = TSSTORE,
     m_ObsOptions = None\<rparr>"

definition sg1 :: ShardGroupInfo where
  "sg1 = \<lparr>sg_ID = 1, sg_StartTime = t2024, sg_EndTime = t2024 + hour, sg_DeletedAt = zeroTime,
     sg_Shards =
       [\<lparr>sh_ID = 1, sh_Owners = [0], sh_Min = [], sh_Max = [], sh_Tier = 1, sh_IndexID = 1,
         sh_MarkDelete = False\<rparr>,
        \<lparr>sh_ID = 2, sh_Owners = [1], sh_Min = [], sh_Max = [], sh_Tier = 1, sh_IndexID = 2,
         sh_MarkDelete = False\<rparr>],
     sg_EngineType = TSSTORE, sg_Version = 0\<rparr>"

definition ig1 :: IndexGroupInfo where
  "ig1 = \<lparr>ig_ID = 1, ig_StartTime = t2024, ig_EndTime = t2024 + 24 * hour,
     ig_Indexes =
       [\<lparr>ix_ID = 1, ix_Owners = [0], ix_MarkDelete = False\<rparr>,
        \<lparr>ix_ID = 2, ix_Owners = [1], ix_MarkDelete = False\<rparr>],
     ig_DeletedAt = zeroTime, ig_EngineType = TSSTORE\<rparr>"

definition autogen :: RetentionPolicyInfo where
  "autogen = \<lparr>rp_Name = ''autogen'', rp_ReplicaN = 1, rp_Duration = 0,
     rp_ShardGroupDuration = hour, rp_IndexGroupDuration = 24 * hour, rp_HotDuration = 0,
     rp_WarmDuration = 0, rp_Measurements = [(''cpu_0000'', cpuMst)],
     rp_MstVersions = [(''cpu'', ''cpu_0000'')], rp_ShardGroups = [sg1], rp_IndexGroups = [ig1],
     rp_MarkDeleted = False\<rparr>"

definition db0 :: DatabaseInfo where
  "db0 = \<lparr>db_Name = ''db0'', db_DefaultRetentionPolicy = ''autogen'',
     db_RetentionPolicies = [(''autogen'', autogen)], db_MarkDeleted = False,
     db_ShardKey = \<lparr>sk_ShardKey = [], sk_Type = [], sk_ShardGroup = 0\<rparr>,
     db_EnableTagArray = False, db_ReplicaN = 1, db_Options = None\<rparr>"

definition node1 :: DataNode where
  "node1 = \<lparr>dn_ID = 1, dn_Host = ''h1:8086'', dn_TCPHost = ''h1:8400'', dn_Role = ''writer'',
     dn_Status = StatusAlive, dn_LTime = 0, dn_ConnID = 1, dn_AliveConnID = 0,
     dn_GossipAddr = [], dn_SegregateStatus = 0\<rparr>"

definition s1Data :: Data where
  "s1Data = \<lparr>ClusterPtNum = 2, PtNumPerNode = 2, DataNodes = [node1],
     PtView = [(''db0'',
       [\<lparr>pt_Owner = 1, pt_Status = Online, pt_PtId = 0, pt_Ver = 1, pt_RGID = 0\<rparr>,
        \<lparr>pt_Owner = 1, pt_Status = Online, pt_PtId = 1, pt_Ver = 1, pt_RGID = 0\<rparr>])],
     ReplicaGroups = [], Databases = [(''db0'', db0)], Users = [], AdminUserExists = False,
     TakeOverEnabled = True, MaxShardGroupID = 1, MaxShardID = 2, MaxIndexGroupID = 1,
     MaxIndexID = 2\<rparr>"

definition conflictingFields :: "FieldSchema list" where
  "conflictingFields =
     [\<lparr>fs_FieldName = ''usage'', fs_FieldType = 3\<rparr>,
      \<lparr>fs_FieldName = ''host'', fs_FieldType = 1\<rparr>]"

text \<open>Fields that the schema of \<open>cpu\<close> accepts: a new one, and one it has.\<close>

definition freshFields :: "FieldSchema list" where
  "freshFields = [\<lparr>fs_FieldName = ''usage'', fs_FieldType = 3\<rparr>,
                  \<lparr>fs_FieldName = ''host'', fs_FieldType = 4\<rparr>]"

text \<open>A \<open>CheckSpecValid\<close> that accepts every policy, for the examples.\<close>

definition anySpec :: "RetentionPolicyInfo \<Rightarrow> error option" where
  "anySpec rpi = None"

text \<open>The host part of \<open>host:port\<close>, for the examples.\<close>

definition hostPart :: "string \<Rightarrow> string" where
  "hostPart h = takeWhile (\<lambda>c. c \<noteq> CHR '':'') h"

text \<open>The ids and the delete marks of the shards, group by group, after an operation.\<close>

definition shardMarksOf ::
  "Data result option \<Rightarrow> string \<Rightarrow> string \<Rightarrow> (u64 \<times> bool) list list option" where
  "shardMarksOf r database rp =
     (case r of
        None \<Rightarrow> None
      | Some (data, e) \<Rightarrow>
          map_option (\<lambda>rpi. map (\<lambda>g. map (\<lambda>sh. (sh_ID sh, sh_MarkDelete sh)) (sg_Shards g))
                              (rp_ShardGroups rpi))
            (rpAt data database rp))"

text \<open>The example catalog with other shard groups or index groups in \<open>autogen\<close>.\<close>

definition withGroups :: "ShardGroupInfo list \<Rightarrow> IndexGroupInfo list \<Rightarrow> Data" where
  "withGroups sgs igs =
     s1Data\<lparr>Databases :=
       [(''db0'', db0\<lparr>db_RetentionPolicies :=
          [(''autogen'', autogen\<lparr>rp_ShardGroups := sgs, rp_IndexGroups := igs\<rparr>)]\<rparr>)]\<rparr>"

definition sg1Marked2 :: ShardGroupInfo where
  "sg1Marked2 = sg1\<lparr>sg_Shards :=
     [\<lparr>sh_ID = 1, sh_Owners = [0], sh_Min = [], sh_Max = [], sh_Tier = 1, sh_IndexID = 1,
       sh_MarkDelete = False\<rparr>,
      \<lparr>sh_ID = 2, sh_Owners = [1], sh_Min = [], sh_Max = [], sh_Tier = 1, sh_IndexID = 2,
       sh_MarkDelete = True\<rparr>]\<rparr>"

definition ig1Marked2 :: IndexGroupInfo where
  "ig1Marked2 = ig1\<lparr>ig_Indexes :=
     [\<lparr>ix_ID = 1, ix_Owners = [0], ix_MarkDelete = False\<rparr>,
      \<lparr>ix_ID = 2, ix_Owners = [1], ix_MarkDelete = True\<rparr>]\<rparr>"

text \<open>The example catalog with its shard group and index group of the column-oriented engine.\<close>

definition csData :: Data where
  "csData = withGroups [sg1\<lparr>sg_EngineType := COLUMNSTORE\<rparr>] [ig1\<lparr>ig_EngineType := COLUMNSTORE\<rparr>]"

text \<open>
  Running one operation after another: the next one runs when the one before has
  returned without an error.
\<close>

definition andThen :: "Data result option \<Rightarrow> (Data \<Rightarrow> Data result option) \<Rightarrow> Data result option" where
  "andThen r f =
     (case r of
        None \<Rightarrow> None
      | Some (data, Some err) \<Rightarrow> Some (data, Some err)
      | Some (data, None) \<Rightarrow> f data)"

text \<open>
  Creating the partition view and then the replica groups of a database, as the command
  that creates a database with replicas does after \<open>CreateDatabase\<close>.
\<close>

definition createViewAndReplication :: "HaPolicy \<Rightarrow> Data \<Rightarrow> string \<Rightarrow> u32 \<Rightarrow> Data result option" where
  "createViewAndReplication haPolicy data db replicaN =
     andThen (CreateDBPtView haPolicy data db) (\<lambda>data1. CreateReplication data1 db replicaN)"

text \<open>Scenario S6: four writer nodes, one partition per node.\<close>

definition writerNode :: "u64 \<Rightarrow> string \<Rightarrow> DataNode" where
  "writerNode nid host = \<lparr>dn_ID = nid, dn_Host = host @ '':8086'', dn_TCPHost = host @ '':8400'',
     dn_Role = ''writer'', dn_Status = StatusAlive, dn_LTime = 0, dn_ConnID = nid,
     dn_AliveConnID = 0, dn_GossipAddr = [], dn_SegregateStatus = 0\<rparr>"

definition s6Data :: Data where
  "s6Data = emptyData\<lparr>ClusterPtNum := 4, PtNumPerNode := 1,
     DataNodes := [writerNode 1 ''h1'', writerNode 2 ''h2'', writerNode 3 ''h3'',
                   writerNode 4 ''h4'']\<rparr>"

text \<open>The partition that the assigner creates for \<open>ptId\<close> on a node.\<close>

definition newPt :: "DataNode \<Rightarrow> u32 \<Rightarrow> u32 \<Rightarrow> PtInfo" where
  "newPt node ptId rgId =
     \<lparr>pt_Owner = dn_ID node, pt_Status = Offline, pt_PtId = ptId, pt_Ver = 1, pt_RGID = rgId\<rparr>"

definition slavePeer :: "u32 \<Rightarrow> Peer" where
  "slavePeer ptId = \<lparr>peer_ID = ptId, peer_PtRole = Slave\<rparr>"

text \<open>The replica groups and the partition view of a database after an operation.\<close>

definition repGroupsOf :: "Data result option \<Rightarrow> string \<Rightarrow> ReplicaGroup list option" where
  "repGroupsOf r db =
     (case r of None \<Rightarrow> None | Some (data, e) \<Rightarrow> map_of (ReplicaGroups data) db)"

definition ptViewOf :: "Data result option \<Rightarrow> string \<Rightarrow> PtInfo list option" where
  "ptViewOf r db =
     (case r of None \<Rightarrow> None | Some (data, e) \<Rightarrow> map_of (PtView data) db)"

text \<open>Scenario S2 with two bounds, and with the one bound of the spec.\<close>

definition reshard2 :: ReShardingInfo where
  "reshard2 = \<lparr>rs_Database = ''db0'', rs_Rp = ''autogen'', rs_ShardGroupID = 1,
     rs_SplitTime = 1704069900000000000, rs_Bounds = [''g'', ''m'']\<rparr>"

definition reshard1 :: ReShardingInfo where
  "reshard1 = \<lparr>rs_Database = ''db0'', rs_Rp = ''autogen'', rs_ShardGroupID = 1,
     rs_SplitTime = 1704069900000000000, rs_Bounds = [''m'']\<rparr>"

definition shardGroupsOf :: "Data result option \<Rightarrow> string \<Rightarrow> string \<Rightarrow> ShardGroupInfo list option" where
  "shardGroupsOf r database rp =
     (case r of None \<Rightarrow> None | Some (data, e) \<Rightarrow> map_option rp_ShardGroups (rpAt data database rp))"

definition indexGroupsOf :: "Data result option \<Rightarrow> string \<Rightarrow> string \<Rightarrow> IndexGroupInfo list option" where
  "indexGroupsOf r database rp =
     (case r of None \<Rightarrow> None | Some (data, e) \<Rightarrow> map_option rp_IndexGroups (rpAt data database rp))"

text \<open>
  Shard \<open>i\<close> of the group that re-sharding creates, in closed form: it owns partition
  \<open>i\<close> and points to index \<open>i\<close> of the new index group when there is such a partition.
\<close>

definition reshardShard :: "u64 \<Rightarrow> u64 \<Rightarrow> u64 \<Rightarrow> nat \<Rightarrow> string list \<Rightarrow> nat \<Rightarrow> ShardInfo" where
  "reshardShard maxShardID maxIndexID tier ptNum bounds i =
     \<lparr>sh_ID = maxShardID + of_nat i + 1,
      sh_Owners = (if i < ptNum then [of_nat i] else []),
      sh_Min = (if i > 0 then bounds ! (i - 1) else []),
      sh_Max = (if i < length bounds then bounds ! i else []),
      sh_Tier = tier,
      sh_IndexID = (if i < ptNum then maxIndexID + of_nat i + 1 else 0),
      sh_MarkDelete = False\<rparr>"

definition reshardIndexGroup :: "Data \<Rightarrow> RetentionPolicyInfo \<Rightarrow> Time \<Rightarrow> u32 \<Rightarrow> IndexGroupInfo" where
  "reshardIndexGroup data rpi startTime ptNum =
     \<lparr>ig_ID = MaxIndexGroupID data + 1, ig_StartTime = startTime,
      ig_EndTime = (case find (\<lambda>ig. igOverlaps ig startTime (sg_EndTime (last (rp_ShardGroups rpi))))
                           (rev (rp_IndexGroups rpi)) of
                      None \<Rightarrow> sg_EndTime (last (rp_ShardGroups rpi))
                    | Some ig \<Rightarrow> ig_EndTime ig),
      ig_Indexes = mkIndexes (MaxIndexID data) (unat ptNum),
      ig_DeletedAt = zeroTime, ig_EngineType = TSSTORE\<rparr>"

definition reshardShardGroup ::
  "Data \<Rightarrow> RetentionPolicyInfo \<Rightarrow> Time \<Rightarrow> u32 \<Rightarrow> string list \<Rightarrow> ShardGroupInfo" where
  "reshardShardGroup data rpi startTime ptNum bounds =
     \<lparr>sg_ID = MaxShardGroupID data + 1, sg_StartTime = startTime,
      sg_EndTime = sg_EndTime (last (rp_ShardGroups rpi)), sg_DeletedAt = zeroTime,
      sg_Shards = map (reshardShard (MaxShardID data) (MaxIndexID data)
                         (sh_Tier (sg_Shards (last (rp_ShardGroups rpi)) ! 0)) (unat ptNum) bounds)
                    [0..<length bounds + 1],
      sg_EngineType = sg_EngineType (last (rp_ShardGroups rpi)), sg_Version = 0\<rparr>"

text \<open>The owners of the shards, group by group, after an operation.\<close>

definition shardOwnersOf :: "Data result option \<Rightarrow> string \<Rightarrow> string \<Rightarrow> u32 list list list option" where
  "shardOwnersOf r database rp =
     map_option (map (\<lambda>g. map sh_Owners (sg_Shards g))) (shardGroupsOf r database rp)"

text \<open>Whether every shard is linked to its index after an operation, with the error returned.\<close>

definition invAfter :: "Data result option \<Rightarrow> (error option \<times> bool) option" where
  "invAfter r = (case r of None \<Rightarrow> None | Some (data, e) \<Rightarrow> Some (e, shardIndexInv data))"

text \<open>
  Shard \<open>i\<close> of the group that \<open>createShards\<close> fills for a measurement that is not
  sharded by range, in closed form.
\<close>

definition hashedShard :: "u64 \<Rightarrow> u64 \<Rightarrow> IndexGroupInfo \<Rightarrow> nat \<Rightarrow> ShardInfo" where
  "hashedShard maxShardID tier igi i =
     \<lparr>sh_ID = maxShardID + of_nat i + 1, sh_Owners = [of_nat i], sh_Min = [], sh_Max = [],
      sh_Tier = tier, sh_IndexID = ix_ID (ig_Indexes igi ! i), sh_MarkDelete = False\<rparr>"

text \<open>Index \<open>i\<close> of an index group owns partition \<open>i\<close>, as \<open>CreateIndexGroup\<close> makes it.\<close>

definition ownsByPosition :: "IndexGroupInfo \<Rightarrow> bool" where
  "ownsByPosition ig = (\<forall>i<length (ig_Indexes ig). ix_Owners (ig_Indexes ig ! i) = [of_nat i])"

text \<open>The condition of \<open>createShards\<close> for sharding by range.\<close>

definition rangeSharded :: "MeasurementInfo \<Rightarrow> bool" where
  "rangeSharded msti \<longleftrightarrow> length (m_ShardKeys msti) > 0 \<and> sk_Type (m_ShardKeys msti ! 0) = RANGE"

subsection \<open>Clone, and the map objects that two catalogs can share\<close>

text \<open>
  A Go map is a reference to a map object, and the copy \<open>other := *data\<close> of \<open>Clone\<close>
  copies the references. \<open>Clone\<close> then replaces \<open>DataNodes\<close>, \<open>MetaNodes\<close>, \<open>Databases\<close>,
  \<open>Streams\<close>, \<open>Users\<close>, \<open>PtView\<close>, \<open>MigrateEvents\<close> and \<open>QueryIDInit\<close> by copies;
  it does not replace \<open>ReplicaGroups\<close>. To follow which catalog sees which write, the
  map objects of \<open>PtView\<close> and of \<open>ReplicaGroups\<close> live in a store, at an address, and
  a catalog holds the address (or nil) of each. The other fields stay values, which is
  what the copies of \<open>Clone\<close> make them; so do the slices inside the two maps.
\<close>

type_synonym addr = nat

record Store =
  st_ptViews :: "(string \<times> PtInfo list) list list"
  st_repGroups :: "(string \<times> ReplicaGroup list) list list"

record DataRef =
  ref_PtView :: "addr option"
  ref_ReplicaGroups :: "addr option"
  ref_values :: Data

text \<open>What a reader of the catalog sees: a nil map reads as the empty map.\<close>

definition view :: "Store \<Rightarrow> DataRef \<Rightarrow> Data" where
  "view st data =
     (ref_values data)
       \<lparr>PtView := (case ref_PtView data of None \<Rightarrow> [] | Some a \<Rightarrow> st_ptViews st ! a),
        ReplicaGroups := (case ref_ReplicaGroups data of None \<Rightarrow> [] | Some a \<Rightarrow> st_repGroups st ! a)\<rparr>"

text \<open>\<open>CloneDBPtView\<close>: nil for nil, else a new map object with the entries copied.\<close>

definition CloneDBPtView :: "Store \<Rightarrow> DataRef \<Rightarrow> Store \<times> addr option" where
  "CloneDBPtView st data =
     (case ref_PtView data of
        None \<Rightarrow> (st, None)
      | Some a \<Rightarrow> (st\<lparr>st_ptViews := st_ptViews st @ [st_ptViews st ! a]\<rparr>, Some (length (st_ptViews st))))"

text \<open>\<open>Clone\<close>: the copy of the struct, then the fields that are replaced by clones.\<close>

definition Clone :: "Store \<Rightarrow> DataRef \<Rightarrow> Store \<times> DataRef" where
  "Clone st data =
     (let other = data;
          (st1, ptView) = CloneDBPtView st data
      in (st1, other\<lparr>ref_PtView := ptView\<rparr>))"

text \<open>
  \<open>expandRepGroups\<close> and \<open>DropDatabase\<close> as they write to the map objects: \<open>m[k] = v\<close> and
  \<open>delete(m, k)\<close> change the object at the address; \<open>delete\<close> on a nil map does nothing;
  \<open>expandRepGroups\<close> makes a new map object when the map is nil.
\<close>

definition expandRepGroups_st :: "Store \<Rightarrow> DataRef \<Rightarrow> string \<Rightarrow> u32 \<Rightarrow> Store \<times> DataRef" where
  "expandRepGroups_st st data db repNum =
     (let (st1, a) = (case ref_ReplicaGroups data of
                        None \<Rightarrow> (st\<lparr>st_repGroups := st_repGroups st @ [[]]\<rparr>, length (st_repGroups st))
                      | Some a \<Rightarrow> (st, a));
          m = st_repGroups st1 ! a;
          old = (case map_of m db of None \<Rightarrow> [] | Some rgs \<Rightarrow> rgs)
      in (st1\<lparr>st_repGroups := (st_repGroups st1)[a := map_set m db
                                (old @ replicate (unat repNum) zeroRepGroup)]\<rparr>,
          data\<lparr>ref_ReplicaGroups := Some a\<rparr>))"

definition DropDatabase_st :: "Store \<Rightarrow> DataRef \<Rightarrow> string \<Rightarrow> Store \<times> DataRef" where
  "DropDatabase_st st data name =
     (let st1 = (case ref_ReplicaGroups data of
                   None \<Rightarrow> st
                 | Some a \<Rightarrow> st\<lparr>st_repGroups := (st_repGroups st)[a := map_delete (st_repGroups st ! a) name]\<rparr>);
          st2 = (case ref_PtView data of
                   None \<Rightarrow> st1
                 | Some a \<Rightarrow> st1\<lparr>st_ptViews := (st_ptViews st1)[a := map_delete (st_ptViews st1 ! a) name]\<rparr>)
      in (st2,
          data\<lparr>ref_values := (ref_values data)
            \<lparr>Databases := map_delete (Databases (ref_values data)) name,
             Users := map (\<lambda>u. u\<lparr>u_Privileges := map_delete (u_Privileges u) name\<rparr>)
                        (Users (ref_values data))\<rparr>\<rparr>))"

text \<open>
  The catalog of scenario S1 with one replica group for \<open>db0\<close>, its two maps at the
  address 0.
\<close>

definition cloneStore :: Store where
  "cloneStore = \<lparr>st_ptViews = [PtView s1Data], st_repGroups = [[(''db0'', [zeroRepGroup])]]\<rparr>"

definition cloneData :: DataRef where
  "cloneData = \<lparr>ref_PtView = Some 0, ref_ReplicaGroups = Some 0, ref_values = s1Data\<rparr>"


subsection \<open>Pruning one id\<close>

text \<open>
  The marking step in the words of the specification, for the one id: the shard (index)
  of the group that has the id is marked for delete.
\<close>

definition markShardId :: "u64 \<Rightarrow> ShardGroupInfo \<Rightarrow> ShardGroupInfo" where
  "markShardId id1 g =
     g\<lparr>sg_Shards := map (\<lambda>sh. if sh_ID sh = id1 then sh\<lparr>sh_MarkDelete := True\<rparr> else sh)
                        (sg_Shards g)\<rparr>"

definition markIndexId :: "u64 \<Rightarrow> IndexGroupInfo \<Rightarrow> IndexGroupInfo" where
  "markIndexId id1 g =
     g\<lparr>ig_Indexes := map (\<lambda>ix. if ix_ID ix = id1 then ix\<lparr>ix_MarkDelete := True\<rparr> else ix)
                         (ig_Indexes g)\<rparr>"

text \<open>
  The ids of a group for which the marking step is the one of the specification: there
  are some, they ascend, and the id to prune is one of them or lies outside of them.
\<close>

definition prunable :: "u64 \<Rightarrow> u64 list \<Rightarrow> bool" where
  "prunable id1 ids \<longleftrightarrow>
     ids \<noteq> [] \<and> sorted_wrt (<) ids \<and> (id1 \<in> set ids \<or> id1 < hd ids \<or> last ids < id1)"

text \<open>
  Examples: a shard group with the shard ids 1, 2 and 5; the shard group of the example
  with no shard left; the groups of the example with shard 2 and index 2 marked and the
  deletion time set.
\<close>

definition sg125 :: ShardGroupInfo where
  "sg125 = sg1\<lparr>sg_Shards :=
     [\<lparr>sh_ID = 1, sh_Owners = [0], sh_Min = [], sh_Max = [], sh_Tier = 1, sh_IndexID = 1,
       sh_MarkDelete = False\<rparr>,
      \<lparr>sh_ID = 2, sh_Owners = [1], sh_Min = [], sh_Max = [], sh_Tier = 1, sh_IndexID = 2,
       sh_MarkDelete = False\<rparr>,
      \<lparr>sh_ID = 5, sh_Owners = [2], sh_Min = [], sh_Max = [], sh_Tier = 1, sh_IndexID = 2,
       sh_MarkDelete = False\<rparr>]\<rparr>"

definition sg1Emptied :: ShardGroupInfo where
  "sg1Emptied = sg1\<lparr>sg_Shards := [], sg_DeletedAt := t2024 + hour\<rparr>"

definition deletedGroups :: Data where
  "deletedGroups = withGroups [sg1Marked2\<lparr>sg_DeletedAt := t2024 + hour\<rparr>]
                              [ig1Marked2\<lparr>ig_DeletedAt := t2024 + hour\<rparr>]"

section \<open>Properties\<close>

subsection \<open>Users\<close>

lemma anyAdmin_iff: "anyAdmin us \<longleftrightarrow> filter u_Admin us \<noteq> []"
  by (induction us) auto

lemma removeUser_admins:
  "removeUser us name = Some us' \<Longrightarrow> findUser us name = Some u \<Longrightarrow> \<not> u_Admin u \<Longrightarrow>
   filter u_Admin us' = filter u_Admin us"
  by (induction us arbitrary: us') (auto split: if_splits option.splits)

lemma removeUser_Some: "removeUser us name = Some us' \<Longrightarrow> \<exists>u. findUser us name = Some u"
  by (induction us arbitrary: us') (auto split: if_splits option.splits)

lemma updateHash_admins:
  "map u_Name (filter u_Admin (fst (updateHash us name hash))) = map u_Name (filter u_Admin us)"
  by (induction us) (auto split: prod.splits)

lemma setPriv_admins:
  "map u_Name (filter u_Admin (setPriv us name database p)) = map u_Name (filter u_Admin us)"
  by (induction us) auto

lemma dropPriv_admins:
  "map u_Name (filter u_Admin (map (\<lambda>u. u\<lparr>u_Privileges := f u\<rparr>) us)) = map u_Name (filter u_Admin us)"
  by (induction us) auto

lemma user_inv_alt:
  "user_inv data \<longleftrightarrow> length (adminNames data) \<le> 1 \<and> (adminNames data \<noteq> [] \<longleftrightarrow> AdminUserExists data)"
  by (simp add: user_inv_def adminCount_def adminNames_def HasAdminUser_def anyAdmin_iff)

lemma CreateUser_ok:
  "snd (CreateUser data name hash admin rwuser) = None \<Longrightarrow>
   adminNames (fst (CreateUser data name hash admin rwuser)) = adminNames data @ (if admin then [name] else []) \<and>
   AdminUserExists (fst (CreateUser data name hash admin rwuser)) = (admin \<or> AdminUserExists data) \<and>
   (admin \<longrightarrow> adminNames data = [])"
  by (auto simp add: CreateUser_def adminNames_def HasAdminUser_def anyAdmin_iff Let_def split: if_splits)

lemma CreateUser_err:
  "snd (CreateUser data name hash admin rwuser) \<noteq> None \<Longrightarrow> fst (CreateUser data name hash admin rwuser) = data"
  by (simp add: CreateUser_def Let_def split: if_splits)

lemma CreateUser_inv:
  assumes "user_inv data"
  shows "user_inv (fst (CreateUser data name hash admin rwuser))"
proof (cases "snd (CreateUser data name hash admin rwuser)")
  case None
  from CreateUser_ok[OF None] assms show ?thesis
    by (cases admin) (simp_all add: user_inv_alt)
next
  case (Some e)
  then show ?thesis using assms CreateUser_err[of data name hash admin rwuser] by simp
qed

lemma DropUser_admins: "filter u_Admin (Users (fst (DropUser data name))) = filter u_Admin (Users data)"
proof (cases "removeUser (Users data) name")
  case None
  then show ?thesis by (simp add: DropUser_def)
next
  case (Some us')
  then obtain u where u: "findUser (Users data) name = Some u"
    using removeUser_Some by blast
  show ?thesis
  proof (cases "u_Admin u")
    case True
    then show ?thesis using u by (simp add: DropUser_def GetUser_def)
  next
    case False
    then show ?thesis using u Some removeUser_admins[OF Some u False]
      by (simp add: DropUser_def GetUser_def)
  qed
qed

lemma DropUser_flag: "AdminUserExists (fst (DropUser data name)) = AdminUserExists data"
  by (simp add: DropUser_def split: option.splits)

lemma DropUser_inv: "user_inv (fst (DropUser data name)) = user_inv data"
  by (simp add: user_inv_alt adminNames_def DropUser_admins DropUser_flag)

lemma UpdateUser_inv: "user_inv (fst (UpdateUser data name hash)) = user_inv data"
proof -
  have "adminNames (fst (UpdateUser data name hash)) = adminNames data"
    using updateHash_admins[of "Users data" name hash]
    by (cases "updateHash (Users data) name hash") (simp add: UpdateUser_def adminNames_def)
  moreover have "AdminUserExists (fst (UpdateUser data name hash)) = AdminUserExists data"
    by (cases "updateHash (Users data) name hash") (simp add: UpdateUser_def)
  ultimately show ?thesis by (simp add: user_inv_alt)
qed

lemma SetPrivilege_inv: "user_inv (fst (SetPrivilege data name database p)) = user_inv data"
proof -
  have "adminNames (fst (SetPrivilege data name database p)) = adminNames data"
    by (simp add: SetPrivilege_def adminNames_def setPriv_admins split: option.splits sum.splits)
  moreover have "AdminUserExists (fst (SetPrivilege data name database p)) = AdminUserExists data"
    by (simp add: SetPrivilege_def split: option.splits sum.splits)
  ultimately show ?thesis by (simp add: user_inv_alt)
qed

lemma SetAdminPrivilege_same: "fst (SetAdminPrivilege data name admin) = data"
  by (simp add: SetAdminPrivilege_def split: option.splits)

lemma DropDatabase_inv: "user_inv (DropDatabase data name) = user_inv data"
  by (simp add: user_inv_alt adminNames_def DropDatabase_def dropPriv_admins)

lemma user_inv_step: "user_inv data \<Longrightarrow> user_inv (applyUserCmd data c)"
  by (cases c)
     (simp_all add: CreateUser_inv DropUser_inv UpdateUser_inv SetPrivilege_inv
        SetAdminPrivilege_same DropDatabase_inv)

lemma user_inv_steps: "user_inv data \<Longrightarrow> user_inv (applyUserCmds data cs)"
  by (induction cs arbitrary: data) (simp_all add: user_inv_step)

lemma adminNames_step: "set (adminNames data) \<subseteq> set (adminNames (applyUserCmd data c))"
proof (cases c)
  case (CmdCreateUser name hash admin rwuser)
  show ?thesis
  proof (cases "snd (CreateUser data name hash admin rwuser)")
    case None
    from CreateUser_ok[OF None] show ?thesis using CmdCreateUser by auto
  next
    case (Some e)
    then show ?thesis using CmdCreateUser CreateUser_err[of data name hash admin rwuser] by simp
  qed
next
  case (CmdDropUser name)
  then show ?thesis by (simp add: adminNames_def DropUser_admins)
next
  case (CmdUpdateUser name hash)
  have "adminNames (fst (UpdateUser data name hash)) = adminNames data"
    using updateHash_admins[of "Users data" name hash]
    by (cases "updateHash (Users data) name hash") (simp add: UpdateUser_def adminNames_def)
  then show ?thesis using CmdUpdateUser by simp
next
  case (CmdSetPrivilege name database p)
  have "adminNames (fst (SetPrivilege data name database p)) = adminNames data"
    by (simp add: SetPrivilege_def adminNames_def setPriv_admins split: option.splits sum.splits)
  then show ?thesis using CmdSetPrivilege by simp
next
  case (CmdSetAdminPrivilege name admin)
  then show ?thesis by (simp add: SetAdminPrivilege_same)
next
  case (CmdDropDatabase name)
  then show ?thesis by (simp add: adminNames_def DropDatabase_def dropPriv_admins)
qed

lemma adminNames_steps: "set (adminNames data) \<subseteq> set (adminNames (applyUserCmds data cs))"
proof (induction cs arbitrary: data)
  case Nil
  show ?case by simp
next
  case (Cons c cs)
  have "set (adminNames data) \<subseteq> set (adminNames (applyUserCmd data c))"
    by (rule adminNames_step)
  also have "\<dots> \<subseteq> set (adminNames (applyUserCmds (applyUserCmd data c) cs))"
    by (rule Cons.IH)
  finally show ?case by simp
qed

text \<open>
  C8. Starting from a catalog without users and with the flag unset, after every sequence
  of commands at most one user has the admin flag, and the exhaustive scan
  \<open>HasAdminUser\<close> answers as the cached flag \<open>AdminUserExists\<close> does.
\<close>

theorem admin_flag_mirrors_users:
  assumes "Users data0 = []" and "\<not> AdminUserExists data0"
  shows "adminCount (applyUserCmds data0 cs) \<le> 1 \<and>
         (HasAdminUser (applyUserCmds data0 cs) \<longleftrightarrow> AdminUserExists (applyUserCmds data0 cs))"
proof -
  have "user_inv data0"
    using assms by (simp add: user_inv_def adminCount_def HasAdminUser_def)
  then have "user_inv (applyUserCmds data0 cs)"
    by (rule user_inv_steps)
  then show ?thesis by (simp add: user_inv_def)
qed

definition exampleUserCmds :: "user_command list" where
  "exampleUserCmds =
     [CmdCreateUser ''root'' ''h1'' True False, CmdCreateUser ''eve'' ''h2'' True False,
      CmdCreateUser ''bob'' ''h3'' False True, CmdDropUser ''root'', CmdDropUser ''bob'']"

theorem admin_flag_mirrors_users_witness:
  "Users emptyData = [] \<and> \<not> AdminUserExists emptyData \<and>
   adminCount (applyUserCmds emptyData exampleUserCmds) \<le> 1 \<and>
   (HasAdminUser (applyUserCmds emptyData exampleUserCmds)
    \<longleftrightarrow> AdminUserExists (applyUserCmds emptyData exampleUserCmds))"
proof -
  have h1: "Users emptyData = []" and h2: "\<not> AdminUserExists emptyData"
    by (simp_all add: emptyData_def)
  show ?thesis
    using h1 h2 admin_flag_mirrors_users [OF h1 h2, of exampleUserCmds] by simp
qed

text \<open>
  C10. When the name resolves (through \<open>GetUser\<close>) to a user with the admin flag,
  \<open>DropUser\<close> returns an error and leaves the catalog as it was; \<open>SetAdminPrivilege\<close> on
  an existing user returns \<open>ErrGrantOrRevokeAdmin\<close> and changes nothing; and whatever
  commands follow, a user of that name with the admin flag is still in the user list.
  No operation takes the identity of a caller.
\<close>

theorem admin_never_dropped_or_demoted:
  "(\<forall>u. GetUser data name = Some u \<and> u_Admin u \<longrightarrow>
        DropUser data name = (data, Some ErrUserDropSelf)) \<and>
   (\<forall>u admin. GetUser data name = Some u \<longrightarrow>
        SetAdminPrivilege data name admin = (data, Some ErrGrantOrRevokeAdmin)) \<and>
   (\<forall>u cs. u \<in> set (Users data) \<and> u_Admin u \<longrightarrow>
        (\<exists>u' \<in> set (Users (applyUserCmds data cs)). u_Name u' = u_Name u \<and> u_Admin u'))"
proof (intro conjI allI impI)
  fix u assume "GetUser data name = Some u \<and> u_Admin u"
  then show "DropUser data name = (data, Some ErrUserDropSelf)"
    by (simp add: DropUser_def)
next
  fix u admin assume "GetUser data name = Some u"
  then show "SetAdminPrivilege data name admin = (data, Some ErrGrantOrRevokeAdmin)"
    by (simp add: SetAdminPrivilege_def)
next
  fix u cs assume u: "u \<in> set (Users data) \<and> u_Admin u"
  then have "u_Name u \<in> set (adminNames data)"
    by (auto simp: adminNames_def)
  then have "u_Name u \<in> set (adminNames (applyUserCmds data cs))"
    using adminNames_steps by blast
  then show "\<exists>u' \<in> set (Users (applyUserCmds data cs)). u_Name u' = u_Name u \<and> u_Admin u'"
    by (auto simp: adminNames_def)
qed

definition rootUser :: UserInfo where
  "rootUser = \<lparr>u_Name = ''root'', u_Hash = ''h1'', u_Admin = True, u_Rwuser = False,
     u_Privileges = []\<rparr>"

definition rootData :: Data where
  "rootData = emptyData\<lparr>Users := [rootUser], AdminUserExists := True\<rparr>"

theorem admin_never_dropped_or_demoted_witness:
  "GetUser rootData ''root'' = Some rootUser \<and> u_Admin rootUser \<and> rootUser \<in> set (Users rootData) \<and>
   DropUser rootData ''root'' = (rootData, Some ErrUserDropSelf) \<and>
   SetAdminPrivilege rootData ''root'' False = (rootData, Some ErrGrantOrRevokeAdmin) \<and>
   (\<exists>u' \<in> set (Users (applyUserCmds rootData
        [CmdDropUser ''root'', CmdSetAdminPrivilege ''root'' False, CmdUpdateUser ''root'' ''h2''])).
      u_Name u' = u_Name rootUser \<and> u_Admin u')"
proof -
  have h: "GetUser rootData ''root'' = Some rootUser" "u_Admin rootUser"
    "rootUser \<in> set (Users rootData)"
    by (simp_all add: rootData_def rootUser_def GetUser_def emptyData_def)
  show ?thesis
    using h admin_never_dropped_or_demoted [of rootData "''root''"] by blast
qed

subsection \<open>The schema of a measurement\<close>

lemma map_of_map_modify:
  "map_of (map_modify m k f) k' = (if k' = k then map_option f (map_of m k) else map_of m k')"
  by (induction m) auto

lemma map_of_map_set:
  "map_of (map_set m k v) k' = (if k' = k then Some v else map_of m k')"
  by (induction m) auto

lemma schemaAt_setMeasurement:
  "schemaAt (setMeasurement data database rp key msti) database' rp' key' =
     (if database' = database \<and> rp' = rp \<and> key' = key \<and> schemaAt data database rp key \<noteq> None
      then Some (m_Schema msti) else schemaAt data database' rp' key')"
  by (auto simp: schemaAt_def setMeasurement_def modifyRp_def map_of_map_modify
      split: option.splits)

lemma Measurement_state:
  "fst (Measurement data database rp mst) = data \<or>
   (\<exists>key m0 opt. schemaAt data database rp key = Some (m_Schema m0) \<and>
      fst (Measurement data database rp mst) =
        setMeasurement data database rp key (m0\<lparr>m_ObsOptions := opt\<rparr>))"
proof (cases "GetDatabase data database")
  case (Inl e)
  then show ?thesis by (simp add: Measurement_def)
next
  case (Inr db)
  then have db: "map_of (Databases data) database = Some db"
    by (auto simp: GetDatabase_def Database_def split: option.splits if_splits)
  show ?thesis
  proof (cases "GetRetentionPolicy db rp")
    case (Inl e)
    then show ?thesis using Inr by (simp add: Measurement_def)
  next
    case rpi: (Inr rpi)
    then have rp: "map_of (db_RetentionPolicies db) rp = Some rpi"
      by (auto simp: GetRetentionPolicy_def split: option.splits if_splits)
    show ?thesis
    proof (cases "rpMeasurement rpi mst")
      case None
      then show ?thesis using Inr rpi by (simp add: Measurement_def)
    next
      case (Some km)
      obtain key m0 where km: "km = (key, m0)" by (cases km)
      from Some km have "map_of (rp_Measurements rpi) key = Some m0"
        by (auto simp: rpMeasurement_def split: option.splits)
      then have sch: "schemaAt data database rp key = Some (m_Schema m0)"
        using db rp by (simp add: schemaAt_def)
      show ?thesis
        using Inr rpi Some km sch by (auto simp: Measurement_def Let_def)
    qed
  qed
qed

lemma Measurement_schemaAt:
  "schemaAt (fst (Measurement data database rp mst)) database' rp' key' = schemaAt data database' rp' key'"
  using Measurement_state[of data database rp mst]
  by (auto simp: schemaAt_setMeasurement)

lemma Measurement_found:
  "Measurement data database rp mst = (data1, Inr (key, msti)) \<Longrightarrow>
   schemaAt data database rp key = Some (m_Schema msti)"
  by (auto simp: Measurement_def Let_def GetDatabase_def Database_def
      GetRetentionPolicy_def rpMeasurement_def schemaAt_def
      split: sum.splits option.splits if_splits prod.splits)

lemma addFields_Some:
  "addFields S fs = Some S' \<Longrightarrow>
     (\<forall>f\<in>set fs. map_of S' (fs_FieldName f) = Some (fs_FieldType f)) \<and>
     (\<forall>n t. map_of S n = Some t \<longrightarrow> map_of S' n = Some t) \<and>
     (\<forall>n. n \<notin> fs_FieldName ` set fs \<longrightarrow> map_of S' n = map_of S n)"
proof (induction fs arbitrary: S)
  case Nil
  then show ?case by simp
next
  case (Cons f fs)
  show ?case
  proof (cases "map_of S (fs_FieldName f)")
    case None
    let ?S1 = "map_set S (fs_FieldName f) (fs_FieldType f)"
    from Cons.prems None have "addFields ?S1 fs = Some S'" by simp
    from Cons.IH[OF this] have
      a: "\<forall>g\<in>set fs. map_of S' (fs_FieldName g) = Some (fs_FieldType g)" and
      b: "\<forall>n t. map_of ?S1 n = Some t \<longrightarrow> map_of S' n = Some t" and
      c: "\<forall>n. n \<notin> fs_FieldName ` set fs \<longrightarrow> map_of S' n = map_of ?S1 n"
      by blast+
    have f: "map_of S' (fs_FieldName f) = Some (fs_FieldType f)"
      using b by (simp add: map_of_map_set)
    have old: "map_of S' n = Some t" if "map_of S n = Some t" for n t
    proof -
      from that None have "n \<noteq> fs_FieldName f" by auto
      then have "map_of ?S1 n = Some t" using that by (simp add: map_of_map_set)
      then show ?thesis using b by blast
    qed
    have new: "map_of S' n = map_of S n" if "n \<notin> fs_FieldName ` set (f # fs)" for n
      using that c by (simp add: map_of_map_set)
    show ?thesis using a f old new by auto
  next
    case (Some t)
    with Cons.prems have t: "t = fs_FieldType f" and "addFields S fs = Some S'"
      by (auto split: if_splits)
    from Cons.IH[OF this(2)] show ?thesis using Some t by auto
  qed
qed

lemma addFields_conflict:
  "\<exists>f\<in>set fs. \<exists>t. map_of S (fs_FieldName f) = Some t \<and> t \<noteq> fs_FieldType f \<Longrightarrow>
   addFields S fs = None"
proof (induction fs arbitrary: S)
  case Nil
  then show ?case by simp
next
  case (Cons f fs)
  show ?case
  proof (cases "addFields S (f # fs)")
    case None
    then show ?thesis .
  next
    case (Some S')
    from addFields_Some[OF Some] Cons.prems show ?thesis by fastforce
  qed
qed

lemma addFields_ok:
  assumes A: "\<forall>f\<in>set fs. \<forall>t. map_of S (fs_FieldName f) = Some t \<longrightarrow> t = fs_FieldType f"
    and B: "\<forall>f\<in>set fs. \<forall>g\<in>set fs. fs_FieldName f = fs_FieldName g \<longrightarrow> fs_FieldType f = fs_FieldType g"
  shows "addFields S fs \<noteq> None"
  using A B
proof (induction fs arbitrary: S)
  case Nil
  show ?case by simp
next
  case (Cons f fs)
  note A = Cons.prems(1)[rule_format] and B = Cons.prems(2)[rule_format]
  have B': "\<forall>g\<in>set fs. \<forall>h\<in>set fs. fs_FieldName g = fs_FieldName h \<longrightarrow> fs_FieldType g = fs_FieldType h"
  proof (intro ballI impI)
    fix g h assume g: "g \<in> set fs" and h: "h \<in> set fs" and n: "fs_FieldName g = fs_FieldName h"
    have "g \<in> set (f # fs)" "h \<in> set (f # fs)" using g h by simp_all
    from B[OF this n] show "fs_FieldType g = fs_FieldType h" .
  qed
  have f: "f \<in> set (f # fs)" by simp
  show ?case
  proof (cases "map_of S (fs_FieldName f)")
    case None
    let ?S1 = "map_set S (fs_FieldName f) (fs_FieldType f)"
    have A': "\<forall>g\<in>set fs. \<forall>t. map_of ?S1 (fs_FieldName g) = Some t \<longrightarrow> t = fs_FieldType g"
    proof (intro ballI allI impI)
      fix g t assume g: "g \<in> set fs" and t: "map_of ?S1 (fs_FieldName g) = Some t"
      have g': "g \<in> set (f # fs)" using g by simp
      show "t = fs_FieldType g"
      proof (cases "fs_FieldName g = fs_FieldName f")
        case True
        then have "t = fs_FieldType f" using t by (simp add: map_of_map_set)
        also have "fs_FieldType f = fs_FieldType g" using B[OF f g' True[symmetric]] .
        finally show ?thesis .
      next
        case False
        then have "map_of S (fs_FieldName g) = Some t" using t by (simp add: map_of_map_set)
        from A[OF g' this] show ?thesis .
      qed
    qed
    from Cons.IH[OF A' B'] have "addFields ?S1 fs \<noteq> None" .
    then show ?thesis by (simp add: None)
  next
    case (Some t)
    from A[OF f Some] have t: "t = fs_FieldType f" .
    have A': "\<forall>g\<in>set fs. \<forall>t. map_of S (fs_FieldName g) = Some t \<longrightarrow> t = fs_FieldType g"
    proof (intro ballI allI impI)
      fix g t assume g: "g \<in> set fs" and t: "map_of S (fs_FieldName g) = Some t"
      have "g \<in> set (f # fs)" using g by simp
      from A[OF this t] show "t = fs_FieldType g" .
    qed
    from Cons.IH[OF A' B'] have "addFields S fs \<noteq> None" .
    then show ?thesis by (simp add: Some t)
  qed
qed

lemma addFields_Some_iff:
  "addFields S fs \<noteq> None \<longleftrightarrow>
     (\<forall>f\<in>set fs. \<forall>t. map_of S (fs_FieldName f) = Some t \<longrightarrow> t = fs_FieldType f) \<and>
     (\<forall>f\<in>set fs. \<forall>g\<in>set fs. fs_FieldName f = fs_FieldName g \<longrightarrow> fs_FieldType f = fs_FieldType g)"
proof
  assume "addFields S fs \<noteq> None"
  then obtain S' where s: "addFields S fs = Some S'" by auto
  from addFields_Some[OF s] have
    a: "\<forall>f\<in>set fs. map_of S' (fs_FieldName f) = Some (fs_FieldType f)" and
    b: "\<forall>n t. map_of S n = Some t \<longrightarrow> map_of S' n = Some t"
    by blast+
  have "\<forall>f\<in>set fs. \<forall>t. map_of S (fs_FieldName f) = Some t \<longrightarrow> t = fs_FieldType f"
  proof (intro ballI allI impI)
    fix f t assume f: "f \<in> set fs" and t: "map_of S (fs_FieldName f) = Some t"
    from b t have "map_of S' (fs_FieldName f) = Some t" by blast
    moreover from a f have "map_of S' (fs_FieldName f) = Some (fs_FieldType f)" by blast
    ultimately show "t = fs_FieldType f" by simp
  qed
  moreover have "\<forall>f\<in>set fs. \<forall>g\<in>set fs. fs_FieldName f = fs_FieldName g \<longrightarrow> fs_FieldType f = fs_FieldType g"
  proof (intro ballI impI)
    fix f g assume f: "f \<in> set fs" and g: "g \<in> set fs" and n: "fs_FieldName f = fs_FieldName g"
    from a f have "map_of S' (fs_FieldName f) = Some (fs_FieldType f)" by blast
    moreover from a g have "map_of S' (fs_FieldName g) = Some (fs_FieldType g)" by blast
    ultimately show "fs_FieldType f = fs_FieldType g" using n by simp
  qed
  ultimately show "(\<forall>f\<in>set fs. \<forall>t. map_of S (fs_FieldName f) = Some t \<longrightarrow> t = fs_FieldType f) \<and>
     (\<forall>f\<in>set fs. \<forall>g\<in>set fs. fs_FieldName f = fs_FieldName g \<longrightarrow> fs_FieldType f = fs_FieldType g)"
    by blast
next
  assume "(\<forall>f\<in>set fs. \<forall>t. map_of S (fs_FieldName f) = Some t \<longrightarrow> t = fs_FieldType f) \<and>
     (\<forall>f\<in>set fs. \<forall>g\<in>set fs. fs_FieldName f = fs_FieldName g \<longrightarrow> fs_FieldType f = fs_FieldType g)"
  then show "addFields S fs \<noteq> None" using addFields_ok by blast
qed

text \<open>
  C7. For a measurement that \<open>Measurement\<close> finds: \<open>UpdateSchema\<close> fails with
  \<open>ErrFieldTypeConflict\<close> when a supplied field is in the measurement's schema with another
  type; it succeeds exactly when no supplied field is in the schema with another type
  and no name is supplied with two types; when it fails, the schema stored for every
  measurement is what it was; when it succeeds, every supplied field is in the new
  schema with its type, the fields that were there keep their types, no other name is
  added, and the schema of every other measurement is what it was.
\<close>

theorem UpdateSchema_atomic:
  assumes "Measurement data database rp mst = (data1, Inr (key, msti))"
  shows "((\<exists>f\<in>set fieldToCreate. \<exists>t. map_of (m_Schema msti) (fs_FieldName f) = Some t \<and> t \<noteq> fs_FieldType f)
           \<longrightarrow> snd (UpdateSchema data database rp mst fieldToCreate) = Some ErrFieldTypeConflict) \<and>
         (snd (UpdateSchema data database rp mst fieldToCreate) = None \<longleftrightarrow>
            (\<forall>f\<in>set fieldToCreate. \<forall>t. map_of (m_Schema msti) (fs_FieldName f) = Some t
                 \<longrightarrow> t = fs_FieldType f) \<and>
            (\<forall>f\<in>set fieldToCreate. \<forall>g\<in>set fieldToCreate.
                 fs_FieldName f = fs_FieldName g \<longrightarrow> fs_FieldType f = fs_FieldType g)) \<and>
         (snd (UpdateSchema data database rp mst fieldToCreate) \<noteq> None \<longrightarrow>
            snd (UpdateSchema data database rp mst fieldToCreate) = Some ErrFieldTypeConflict \<and>
            (\<forall>database' rp' key'.
               schemaAt (fst (UpdateSchema data database rp mst fieldToCreate)) database' rp' key'
               = schemaAt data database' rp' key')) \<and>
         (snd (UpdateSchema data database rp mst fieldToCreate) = None \<longrightarrow>
            (\<exists>S'. schemaAt (fst (UpdateSchema data database rp mst fieldToCreate)) database rp key = Some S' \<and>
               (\<forall>f\<in>set fieldToCreate. map_of S' (fs_FieldName f) = Some (fs_FieldType f)) \<and>
               (\<forall>n t. map_of (m_Schema msti) n = Some t \<longrightarrow> map_of S' n = Some t) \<and>
               (\<forall>n. n \<notin> fs_FieldName ` set fieldToCreate \<longrightarrow> map_of S' n = map_of (m_Schema msti) n)) \<and>
            (\<forall>database' rp' key'. (database', rp', key') \<noteq> (database, rp, key) \<longrightarrow>
               schemaAt (fst (UpdateSchema data database rp mst fieldToCreate)) database' rp' key'
               = schemaAt data database' rp' key'))"
proof -
  let ?U = "UpdateSchema data database rp mst fieldToCreate"
  let ?ok = "(\<forall>f\<in>set fieldToCreate. \<forall>t. map_of (m_Schema msti) (fs_FieldName f) = Some t
                 \<longrightarrow> t = fs_FieldType f) \<and>
            (\<forall>f\<in>set fieldToCreate. \<forall>g\<in>set fieldToCreate.
                 fs_FieldName f = fs_FieldName g \<longrightarrow> fs_FieldType f = fs_FieldType g)"
  have d1: "schemaAt data1 database' rp' key' = schemaAt data database' rp' key'" for database' rp' key'
    using Measurement_schemaAt[of data database rp mst database' rp' key'] assms by simp
  have found: "schemaAt data database rp key = Some (m_Schema msti)"
    by (rule Measurement_found[OF assms])
  note iff = addFields_Some_iff[of "m_Schema msti" fieldToCreate]
  show ?thesis
  proof (cases "addFields (m_Schema msti) fieldToCreate")
    case None
    then have u: "?U = (data1, Some ErrFieldTypeConflict)"
      using assms by (simp add: UpdateSchema_def)
    have nok: "\<not> ?ok" using iff None by blast
    have s: "snd ?U = Some ErrFieldTypeConflict" "snd ?U \<noteq> None" by (simp_all add: u)
    have k: "\<forall>database' rp' key'. schemaAt (fst ?U) database' rp' key' = schemaAt data database' rp' key'"
      by (simp add: u d1)
    have c2: "snd ?U = None \<longleftrightarrow> ?ok" using s(2) nok by blast
    show ?thesis
    proof (intro conjI)
      show "(\<exists>f\<in>set fieldToCreate. \<exists>t. map_of (m_Schema msti) (fs_FieldName f) = Some t \<and> t \<noteq> fs_FieldType f)
           \<longrightarrow> snd ?U = Some ErrFieldTypeConflict" using s(1) by (rule impI)
      show "snd ?U = None \<longleftrightarrow> ?ok" by (rule c2)
      show "snd ?U \<noteq> None \<longrightarrow> snd ?U = Some ErrFieldTypeConflict \<and>
            (\<forall>database' rp' key'. schemaAt (fst ?U) database' rp' key' = schemaAt data database' rp' key')"
        using s(1) k by (intro impI conjI)
      show "snd ?U = None \<longrightarrow>
            (\<exists>S'. schemaAt (fst ?U) database rp key = Some S' \<and>
               (\<forall>f\<in>set fieldToCreate. map_of S' (fs_FieldName f) = Some (fs_FieldType f)) \<and>
               (\<forall>n t. map_of (m_Schema msti) n = Some t \<longrightarrow> map_of S' n = Some t) \<and>
               (\<forall>n. n \<notin> fs_FieldName ` set fieldToCreate \<longrightarrow> map_of S' n = map_of (m_Schema msti) n)) \<and>
            (\<forall>database' rp' key'. (database', rp', key') \<noteq> (database, rp, key) \<longrightarrow>
               schemaAt (fst ?U) database' rp' key' = schemaAt data database' rp' key')"
        using s(2) by (intro impI) (erule notE)
    qed
  next
    case (Some S')
    then have u: "?U = (setMeasurement data1 database rp key (msti\<lparr>m_Schema := S'\<rparr>), None)"
      using assms by (simp add: UpdateSchema_def)
    have ok: "?ok" using iff Some by blast
    have s: "snd ?U = None" by (simp add: u)
    have at: "schemaAt (fst ?U) database rp key = Some S'"
      using found d1 by (simp add: u schemaAt_setMeasurement)
    have fr: "\<forall>database' rp' key'. (database', rp', key') \<noteq> (database, rp, key) \<longrightarrow>
               schemaAt (fst ?U) database' rp' key' = schemaAt data database' rp' key'"
      using d1 by (auto simp: u schemaAt_setMeasurement)
    note p = addFields_Some[OF Some]
    have ex: "\<exists>S''. schemaAt (fst ?U) database rp key = Some S'' \<and>
               (\<forall>f\<in>set fieldToCreate. map_of S'' (fs_FieldName f) = Some (fs_FieldType f)) \<and>
               (\<forall>n t. map_of (m_Schema msti) n = Some t \<longrightarrow> map_of S'' n = Some t) \<and>
               (\<forall>n. n \<notin> fs_FieldName ` set fieldToCreate \<longrightarrow> map_of S'' n = map_of (m_Schema msti) n)"
      by (rule exI[of _ S']) (use at p in blast)
    show ?thesis
    proof (intro conjI)
      show "(\<exists>f\<in>set fieldToCreate. \<exists>t. map_of (m_Schema msti) (fs_FieldName f) = Some t \<and> t \<noteq> fs_FieldType f)
           \<longrightarrow> snd ?U = Some ErrFieldTypeConflict" using conjunct1[OF ok] by blast
      show "snd ?U = None \<longleftrightarrow> ?ok" using s ok by blast
      show "snd ?U \<noteq> None \<longrightarrow> snd ?U = Some ErrFieldTypeConflict \<and>
            (\<forall>database' rp' key'. schemaAt (fst ?U) database' rp' key' = schemaAt data database' rp' key')"
        using s by (intro impI) (erule notE)
      show "snd ?U = None \<longrightarrow>
            (\<exists>S'. schemaAt (fst ?U) database rp key = Some S' \<and>
               (\<forall>f\<in>set fieldToCreate. map_of S' (fs_FieldName f) = Some (fs_FieldType f)) \<and>
               (\<forall>n t. map_of (m_Schema msti) n = Some t \<longrightarrow> map_of S' n = Some t) \<and>
               (\<forall>n. n \<notin> fs_FieldName ` set fieldToCreate \<longrightarrow> map_of S' n = map_of (m_Schema msti) n)) \<and>
            (\<forall>database' rp' key'. (database', rp', key') \<noteq> (database, rp, key) \<longrightarrow>
               schemaAt (fst ?U) database' rp' key' = schemaAt data database' rp' key')"
        using ex fr by (intro impI conjI)
    qed
  qed
qed

lemma s1_cpu: "Measurement s1Data ''db0'' ''autogen'' ''cpu'' = (s1Data, Inr (''cpu_0000'', cpuMst))"
  by (simp add: Measurement_def GetDatabase_def Database_def s1Data_def db0_def
      GetRetentionPolicy_def autogen_def rpMeasurement_def cpuMst_def)

theorem UpdateSchema_atomic_witness:
  "Measurement s1Data ''db0'' ''autogen'' ''cpu'' = (s1Data, Inr (''cpu_0000'', cpuMst)) \<and>
   (\<exists>f\<in>set conflictingFields. \<exists>t. map_of (m_Schema cpuMst) (fs_FieldName f) = Some t \<and> t \<noteq> fs_FieldType f) \<and>
   snd (UpdateSchema s1Data ''db0'' ''autogen'' ''cpu'' conflictingFields) = Some ErrFieldTypeConflict \<and>
   schemaAt (fst (UpdateSchema s1Data ''db0'' ''autogen'' ''cpu'' conflictingFields))
     ''db0'' ''autogen'' ''cpu_0000'' = Some [(''host'', 4)] \<and>
   snd (UpdateSchema s1Data ''db0'' ''autogen'' ''cpu'' freshFields) = None \<and>
   schemaAt (fst (UpdateSchema s1Data ''db0'' ''autogen'' ''cpu'' freshFields))
     ''db0'' ''autogen'' ''cpu_0000'' = Some [(''host'', 4), (''usage'', 3)]"
proof -
  have h: "Measurement s1Data ''db0'' ''autogen'' ''cpu'' = (s1Data, Inr (''cpu_0000'', cpuMst))"
    by (rule s1_cpu)
  have c: "\<exists>f\<in>set conflictingFields. \<exists>t. map_of (m_Schema cpuMst) (fs_FieldName f) = Some t \<and> t \<noteq> fs_FieldType f"
    by (simp add: cpuMst_def conflictingFields_def)
  have s: "schemaAt s1Data ''db0'' ''autogen'' ''cpu_0000'' = Some [(''host'', 4)]"
    by (simp add: schemaAt_def s1Data_def db0_def autogen_def cpuMst_def)
  note T = UpdateSchema_atomic [OF h, of conflictingFields]
  from T[THEN conjunct1] c
  have e: "snd (UpdateSchema s1Data ''db0'' ''autogen'' ''cpu'' conflictingFields) = Some ErrFieldTypeConflict"
    by (rule mp)
  then have "snd (UpdateSchema s1Data ''db0'' ''autogen'' ''cpu'' conflictingFields) \<noteq> None"
    by simp
  with T[THEN conjunct2, THEN conjunct2, THEN conjunct1]
  have k: "schemaAt (fst (UpdateSchema s1Data ''db0'' ''autogen'' ''cpu'' conflictingFields))
     ''db0'' ''autogen'' ''cpu_0000'' = schemaAt s1Data ''db0'' ''autogen'' ''cpu_0000''"
    by blast
  have ok: "(\<forall>f\<in>set freshFields. \<forall>t. map_of (m_Schema cpuMst) (fs_FieldName f) = Some t
                 \<longrightarrow> t = fs_FieldType f) \<and>
            (\<forall>f\<in>set freshFields. \<forall>g\<in>set freshFields.
                 fs_FieldName f = fs_FieldName g \<longrightarrow> fs_FieldType f = fs_FieldType g)"
    by (simp add: cpuMst_def freshFields_def)
  note T2 = UpdateSchema_atomic [OF h, of freshFields]
  from T2[THEN conjunct2, THEN conjunct1] ok
  have n: "snd (UpdateSchema s1Data ''db0'' ''autogen'' ''cpu'' freshFields) = None"
    by (rule iffD2)
  have v: "schemaAt (fst (UpdateSchema s1Data ''db0'' ''autogen'' ''cpu'' freshFields))
     ''db0'' ''autogen'' ''cpu_0000'' = Some [(''host'', 4), (''usage'', 3)]"
    by (simp add: UpdateSchema_def s1_cpu cpuMst_def freshFields_def schemaAt_setMeasurement s)
  from k s have k': "schemaAt (fst (UpdateSchema s1Data ''db0'' ''autogen'' ''cpu'' conflictingFields))
     ''db0'' ''autogen'' ''cpu_0000'' = Some [(''host'', 4)]"
    by (rule trans)
  from h c e k' n v show ?thesis by (intro conjI)
qed

subsection \<open>Creating a database\<close>

text \<open>
  C2, as stated, fails: \<open>CreateDatabase\<close> turns \<open>ErrDatabaseExists\<close> into success without
  looking at the arguments. The catalog \<open>s1Data\<close> holds \<open>db0\<close> with one replica and the
  policy \<open>autogen\<close>; creating \<open>db0\<close> again with two replicas and no policy does not return
  \<open>ErrDatabaseExists\<close>.
\<close>

theorem CreateDatabase_differing_counterexample:
  "Database s1Data ''db0'' = Some db0 \<and> \<not> db_MarkDeleted db0 \<and>
   db_ReplicaN db0 \<noteq> int (unat (2 :: u32)) \<and>
   snd (CreateDatabase anySpec s1Data ''db0'' None None False 2 None) \<noteq> Some ErrDatabaseExists"
  by (simp add: CreateDatabase_def CheckCanCreateDatabase_def checkStoreReady_def
      GetClusterPtNum_def Database_def s1Data_def db0_def)

text \<open>
  C2, amended. \<open>CreateDatabase\<close> fails with \<open>ErrDatabaseNameRequired\<close> on an empty name;
  with a name, it fails with \<open>ErrStorageNodeNotReady\<close> when \<open>ClusterPtNum\<close> is 0; with a
  name and partitions, it fails when the database of that name is marked deleted, and
  returns success when that database is not marked deleted, whatever the arguments are.
  In all four cases the catalog is left as it was.
\<close>

theorem CreateDatabase_existing:
  "(dbName = [] \<longrightarrow>
      CreateDatabase sv data dbName rpi shardKey tagArray replicaN options
        = (data, Some ErrDatabaseNameRequired)) \<and>
   (dbName \<noteq> [] \<and> ClusterPtNum data = 0 \<longrightarrow>
      CreateDatabase sv data dbName rpi shardKey tagArray replicaN options
        = (data, Some ErrStorageNodeNotReady)) \<and>
   (\<forall>dbi. dbName \<noteq> [] \<and> ClusterPtNum data \<noteq> 0 \<and> Database data dbName = Some dbi \<and>
      db_MarkDeleted dbi \<longrightarrow>
      CreateDatabase sv data dbName rpi shardKey tagArray replicaN options
        = (data, Some ErrCreateOverDeleting)) \<and>
   (\<forall>dbi. dbName \<noteq> [] \<and> ClusterPtNum data \<noteq> 0 \<and> Database data dbName = Some dbi \<and>
      \<not> db_MarkDeleted dbi \<longrightarrow>
      CreateDatabase sv data dbName rpi shardKey tagArray replicaN options = (data, None))"
  by (simp add: CreateDatabase_def CheckCanCreateDatabase_def checkStoreReady_def
      GetClusterPtNum_def)

theorem CreateDatabase_existing_witness:
  "ClusterPtNum s1Data \<noteq> 0 \<and> Database s1Data ''db0'' = Some db0 \<and> \<not> db_MarkDeleted db0 \<and>
   CreateDatabase anySpec s1Data ''db0'' None None False 2 None = (s1Data, None) \<and>
   CreateDatabase anySpec s1Data [] None None False 1 None = (s1Data, Some ErrDatabaseNameRequired) \<and>
   ClusterPtNum emptyData = 0 \<and>
   CreateDatabase anySpec emptyData ''db0'' None None False 1 None
     = (emptyData, Some ErrStorageNodeNotReady) \<and>
   Database (s1Data\<lparr>Databases := [(''db0'', db0\<lparr>db_MarkDeleted := True\<rparr>)]\<rparr>) ''db0''
     = Some (db0\<lparr>db_MarkDeleted := True\<rparr>) \<and>
   CreateDatabase anySpec (s1Data\<lparr>Databases := [(''db0'', db0\<lparr>db_MarkDeleted := True\<rparr>)]\<rparr>)
     ''db0'' None None False 1 None
     = (s1Data\<lparr>Databases := [(''db0'', db0\<lparr>db_MarkDeleted := True\<rparr>)]\<rparr>, Some ErrCreateOverDeleting)"
proof -
  have a: "ClusterPtNum s1Data \<noteq> 0" "Database s1Data ''db0'' = Some db0" "\<not> db_MarkDeleted db0"
    by (simp_all add: s1Data_def Database_def db0_def)
  have b: "ClusterPtNum emptyData = 0"
    by (simp add: emptyData_def)
  let ?d = "s1Data\<lparr>Databases := [(''db0'', db0\<lparr>db_MarkDeleted := True\<rparr>)]\<rparr>"
  have c: "ClusterPtNum ?d \<noteq> 0" "Database ?d ''db0'' = Some (db0\<lparr>db_MarkDeleted := True\<rparr>)"
    "db_MarkDeleted (db0\<lparr>db_MarkDeleted := True\<rparr>)"
    by (simp_all add: s1Data_def Database_def)
  have n: "''db0'' \<noteq> []" by simp
  from a n CreateDatabase_existing [of "''db0''" anySpec s1Data None None False 2 None]
  have 1: "CreateDatabase anySpec s1Data ''db0'' None None False 2 None = (s1Data, None)"
    by blast
  from CreateDatabase_existing [of "[]" anySpec s1Data None None False 1 None]
  have 2: "CreateDatabase anySpec s1Data [] None None False 1 None = (s1Data, Some ErrDatabaseNameRequired)"
    by blast
  from b n CreateDatabase_existing [of "''db0''" anySpec emptyData None None False 1 None]
  have 3: "CreateDatabase anySpec emptyData ''db0'' None None False 1 None
     = (emptyData, Some ErrStorageNodeNotReady)"
    by blast
  from c n CreateDatabase_existing [of "''db0''" anySpec ?d None None False 1 None]
  have 4: "CreateDatabase anySpec ?d ''db0'' None None False 1 None = (?d, Some ErrCreateOverDeleting)"
    by blast
  from a b c 1 2 3 4 show ?thesis by simp
qed

subsection \<open>Node status\<close>

lemma findNode_id: "findNode ns nid = Some n \<Longrightarrow> dn_ID n = nid"
  by (induction ns) (auto split: if_splits)

lemma findNode_modifyNode_keep:
  "findNode ns nid = Some n \<Longrightarrow> dn_ID (f n) = nid \<Longrightarrow> findNode (modifyNode ns nid f) nid = Some (f n)"
  by (induction ns) auto

lemma map_of_ptview:
  "map_of (map (\<lambda>(db, pts). (db, g pts)) m) db = map_option g (map_of m db)"
  by (induction m) auto

text \<open>
  C4. \<open>UpdateNodeStatus\<close> changes nothing and returns success when \<open>TakeOverEnabled\<close> is
  unset. For a node it finds, the checks apply in this order: an older logical time gives
  \<open>ErrOlderEvent\<close>; under the shared-storage policy an alive status with
  \<open>ConnID = AliveConnID\<close> gives \<open>ErrDataNodeSplitBrain\<close>; otherwise the node gets the
  status and the logical time, \<open>AliveConnID\<close> becomes \<open>ConnID\<close> on alive, and in the
  partition view of every database each partition owned by the node is offline with its
  version one higher, the others as they were.
\<close>

theorem UpdateNodeStatus_spec:
  "(\<not> TakeOverEnabled data \<longrightarrow>
      UpdateNodeStatus pol hostOf data nid status lTime port = (data, None)) \<and>
   (\<forall>dn. TakeOverEnabled data \<and> DataNode data nid = Some dn \<and> lTime < dn_LTime dn \<longrightarrow>
      UpdateNodeStatus pol hostOf data nid status lTime port = (data, Some ErrOlderEvent)) \<and>
   (\<forall>dn. TakeOverEnabled data \<and> DataNode data nid = Some dn \<and> \<not> lTime < dn_LTime dn \<and>
      pol = SharedStorage \<and> sint status = StatusAlive \<and> dn_ConnID dn = dn_AliveConnID dn \<longrightarrow>
      UpdateNodeStatus pol hostOf data nid status lTime port = (data, Some ErrDataNodeSplitBrain)) \<and>
   (\<forall>dn. TakeOverEnabled data \<and> DataNode data nid = Some dn \<and> \<not> lTime < dn_LTime dn \<and>
      \<not> (pol = SharedStorage \<and> sint status = StatusAlive \<and> dn_ConnID dn = dn_AliveConnID dn) \<longrightarrow>
      snd (UpdateNodeStatus pol hostOf data nid status lTime port) = None \<and>
      (\<exists>dn'. DataNode (fst (UpdateNodeStatus pol hostOf data nid status lTime port)) nid = Some dn' \<and>
         dn_Status dn' = sint status \<and> dn_LTime dn' = lTime \<and> dn_ConnID dn' = dn_ConnID dn \<and>
         dn_AliveConnID dn' =
           (if sint status = StatusAlive then dn_ConnID dn else dn_AliveConnID dn)) \<and>
      (\<forall>db. map_of (PtView (fst (UpdateNodeStatus pol hostOf data nid status lTime port))) db =
         map_option (map (\<lambda>pt. if pt_Owner pt = nid
                                then pt\<lparr>pt_Status := Offline, pt_Ver := pt_Ver pt + 1\<rparr> else pt))
           (map_of (PtView data) db)))"
proof (intro conjI allI impI)
  show "UpdateNodeStatus pol hostOf data nid status lTime port = (data, None)"
    if "\<not> TakeOverEnabled data"
    using that by (simp add: UpdateNodeStatus_def)
next
  fix dn assume "TakeOverEnabled data \<and> DataNode data nid = Some dn \<and> lTime < dn_LTime dn"
  then show "UpdateNodeStatus pol hostOf data nid status lTime port = (data, Some ErrOlderEvent)"
    by (simp add: UpdateNodeStatus_def)
next
  fix dn assume "TakeOverEnabled data \<and> DataNode data nid = Some dn \<and> \<not> lTime < dn_LTime dn \<and>
      pol = SharedStorage \<and> sint status = StatusAlive \<and> dn_ConnID dn = dn_AliveConnID dn"
  then show "UpdateNodeStatus pol hostOf data nid status lTime port = (data, Some ErrDataNodeSplitBrain)"
    by (simp add: UpdateNodeStatus_def)
next
  fix dn assume a: "TakeOverEnabled data \<and> DataNode data nid = Some dn \<and> \<not> lTime < dn_LTime dn \<and>
      \<not> (pol = SharedStorage \<and> sint status = StatusAlive \<and> dn_ConnID dn = dn_AliveConnID dn)"
  then show "snd (UpdateNodeStatus pol hostOf data nid status lTime port) = None"
    by (auto simp: UpdateNodeStatus_def Let_def)
next
  fix dn assume a: "TakeOverEnabled data \<and> DataNode data nid = Some dn \<and> \<not> lTime < dn_LTime dn \<and>
      \<not> (pol = SharedStorage \<and> sint status = StatusAlive \<and> dn_ConnID dn = dn_AliveConnID dn)"
  then have f: "findNode (DataNodes data) nid = Some dn" by (simp add: DataNode_def)
  then have i: "dn_ID dn = nid" by (rule findNode_id)
  show "\<exists>dn'. DataNode (fst (UpdateNodeStatus pol hostOf data nid status lTime port)) nid = Some dn' \<and>
         dn_Status dn' = sint status \<and> dn_LTime dn' = lTime \<and> dn_ConnID dn' = dn_ConnID dn \<and>
         dn_AliveConnID dn' =
           (if sint status = StatusAlive then dn_ConnID dn else dn_AliveConnID dn)"
    using a f i
    by (auto simp: UpdateNodeStatus_def Let_def DataNode_def updatePtViewStatus_def
        findNode_modifyNode_keep)
next
  fix dn db assume a: "TakeOverEnabled data \<and> DataNode data nid = Some dn \<and> \<not> lTime < dn_LTime dn \<and>
      \<not> (pol = SharedStorage \<and> sint status = StatusAlive \<and> dn_ConnID dn = dn_AliveConnID dn)"
  have "updatePt nid Offline = (\<lambda>pt. if pt_Owner pt = nid
                                then pt\<lparr>pt_Status := Offline, pt_Ver := pt_Ver pt + 1\<rparr> else pt)"
    by (auto simp: updatePt_def)
  then show "map_of (PtView (fst (UpdateNodeStatus pol hostOf data nid status lTime port))) db =
         map_option (map (\<lambda>pt. if pt_Owner pt = nid
                                then pt\<lparr>pt_Status := Offline, pt_Ver := pt_Ver pt + 1\<rparr> else pt))
           (map_of (PtView data) db)"
    using a
    by (auto simp: UpdateNodeStatus_def Let_def updatePtViewStatus_def map_of_ptview)
qed

theorem UpdateNodeStatus_spec_witness:
  "\<not> TakeOverEnabled (s1Data\<lparr>TakeOverEnabled := False\<rparr>) \<and>
   UpdateNodeStatus WriteAvailableFirst hostPart (s1Data\<lparr>TakeOverEnabled := False\<rparr>) 1 4 10 ''8401''
     = (s1Data\<lparr>TakeOverEnabled := False\<rparr>, None) \<and>
   DataNode (s1Data\<lparr>DataNodes := [node1\<lparr>dn_LTime := 5\<rparr>]\<rparr>) 1 = Some (node1\<lparr>dn_LTime := 5\<rparr>) \<and>
   UpdateNodeStatus WriteAvailableFirst hostPart (s1Data\<lparr>DataNodes := [node1\<lparr>dn_LTime := 5\<rparr>]\<rparr>) 1 4 3 ''8401''
     = (s1Data\<lparr>DataNodes := [node1\<lparr>dn_LTime := 5\<rparr>]\<rparr>, Some ErrOlderEvent) \<and>
   DataNode (s1Data\<lparr>DataNodes := [node1\<lparr>dn_AliveConnID := 1\<rparr>]\<rparr>) 1
     = Some (node1\<lparr>dn_AliveConnID := 1\<rparr>) \<and>
   UpdateNodeStatus SharedStorage hostPart (s1Data\<lparr>DataNodes := [node1\<lparr>dn_AliveConnID := 1\<rparr>]\<rparr>) 1 1 10 ''8401''
     = (s1Data\<lparr>DataNodes := [node1\<lparr>dn_AliveConnID := 1\<rparr>]\<rparr>, Some ErrDataNodeSplitBrain) \<and>
   TakeOverEnabled s1Data \<and> DataNode s1Data 1 = Some node1 \<and>
   snd (UpdateNodeStatus WriteAvailableFirst hostPart s1Data 1 4 10 ''8401'') = None \<and>
   map_of (PtView (fst (UpdateNodeStatus WriteAvailableFirst hostPart s1Data 1 4 10 ''8401''))) ''db0''
     = Some [\<lparr>pt_Owner = 1, pt_Status = Offline, pt_PtId = 0, pt_Ver = 2, pt_RGID = 0\<rparr>,
             \<lparr>pt_Owner = 1, pt_Status = Offline, pt_PtId = 1, pt_Ver = 2, pt_RGID = 0\<rparr>]"
proof -
  let ?d0 = "s1Data\<lparr>TakeOverEnabled := False\<rparr>"
  let ?d1 = "s1Data\<lparr>DataNodes := [node1\<lparr>dn_LTime := 5\<rparr>]\<rparr>"
  let ?d2 = "s1Data\<lparr>DataNodes := [node1\<lparr>dn_AliveConnID := 1\<rparr>]\<rparr>"
  have h0: "\<not> TakeOverEnabled ?d0" by simp
  have h1: "TakeOverEnabled ?d1" "DataNode ?d1 1 = Some (node1\<lparr>dn_LTime := 5\<rparr>)"
    "(3 :: u64) < dn_LTime (node1\<lparr>dn_LTime := 5\<rparr>)"
    by (simp_all add: s1Data_def DataNode_def node1_def)
  have h2: "TakeOverEnabled ?d2" "DataNode ?d2 1 = Some (node1\<lparr>dn_AliveConnID := 1\<rparr>)"
    "\<not> (10 :: u64) < dn_LTime (node1\<lparr>dn_AliveConnID := 1\<rparr>)"
    "sint (1 :: i32) = StatusAlive"
    "dn_ConnID (node1\<lparr>dn_AliveConnID := 1\<rparr>) = dn_AliveConnID (node1\<lparr>dn_AliveConnID := 1\<rparr>)"
    by (simp_all add: s1Data_def DataNode_def node1_def StatusAlive_def)
  have h3: "TakeOverEnabled s1Data" "DataNode s1Data 1 = Some node1"
    "\<not> (10 :: u64) < dn_LTime node1"
    "\<not> (WriteAvailableFirst = SharedStorage \<and> sint (4 :: i32) = StatusAlive \<and>
        dn_ConnID node1 = dn_AliveConnID node1)"
    by (simp_all add: s1Data_def DataNode_def node1_def)
  from h0 UpdateNodeStatus_spec [of ?d0 WriteAvailableFirst hostPart 1 4 10 "''8401''"]
  have r0: "UpdateNodeStatus WriteAvailableFirst hostPart ?d0 1 4 10 ''8401'' = (?d0, None)"
    by blast
  from h1 UpdateNodeStatus_spec [of ?d1 WriteAvailableFirst hostPart 1 4 3 "''8401''"]
  have r1: "UpdateNodeStatus WriteAvailableFirst hostPart ?d1 1 4 3 ''8401'' = (?d1, Some ErrOlderEvent)"
    by blast
  from h2 UpdateNodeStatus_spec [of ?d2 SharedStorage hostPart 1 1 10 "''8401''"]
  have r2: "UpdateNodeStatus SharedStorage hostPart ?d2 1 1 10 ''8401'' = (?d2, Some ErrDataNodeSplitBrain)"
    by blast
  from h3 UpdateNodeStatus_spec [of s1Data WriteAvailableFirst hostPart 1 4 10 "''8401''"]
  have r3: "snd (UpdateNodeStatus WriteAvailableFirst hostPart s1Data 1 4 10 ''8401'') = None"
    and r4: "map_of (PtView (fst (UpdateNodeStatus WriteAvailableFirst hostPart s1Data 1 4 10 ''8401''))) ''db0'' =
         map_option (map (\<lambda>pt. if pt_Owner pt = 1
                                then pt\<lparr>pt_Status := Offline, pt_Ver := pt_Ver pt + 1\<rparr> else pt))
           (map_of (PtView s1Data) ''db0'')"
    by blast+
  have r5: "map_option (map (\<lambda>pt. if pt_Owner pt = 1
                                then pt\<lparr>pt_Status := Offline, pt_Ver := pt_Ver pt + 1\<rparr> else pt))
           (map_of (PtView s1Data) ''db0'')
     = Some [\<lparr>pt_Owner = 1, pt_Status = Offline, pt_PtId = 0, pt_Ver = 2, pt_RGID = 0\<rparr>,
             \<lparr>pt_Owner = 1, pt_Status = Offline, pt_PtId = 1, pt_Ver = 2, pt_RGID = 0\<rparr>]"
    by (simp add: s1Data_def)
  from h0 h1 h2 h3 r0 r1 r2 r3 r4 r5 show ?thesis by simp
qed

subsection \<open>Pruning\<close>

lemma allRps_rpAt: "allRps P data \<Longrightarrow> rpAt data db rp = Some rpi \<Longrightarrow> P rpi"
proof -
  assume a: "allRps P data" and r: "rpAt data db rp = Some rpi"
  from r obtain dbi where d: "map_of (Databases data) db = Some dbi"
    and p: "map_of (db_RetentionPolicies dbi) rp = Some rpi"
    by (auto simp: rpAt_def split: option.splits)
  from d have "(db, dbi) \<in> set (Databases data)" by (rule map_of_SomeD)
  moreover from p have "(rp, rpi) \<in> set (db_RetentionPolicies dbi)" by (rule map_of_SomeD)
  ultimately show "P rpi" using a unfolding allRps_def list_all_iff by fast
qed

lemma searchFrom_bounds: "i \<le> j \<Longrightarrow> i \<le> searchFrom f i j \<and> searchFrom f i j \<le> j"
proof (induction f i j rule: searchFrom.induct)
  case (1 f i j)
  show ?case
  proof (cases "i < j")
    case True
    let ?h = "(i + j) div 2"
    have h: "i \<le> ?h" "?h < j" using True by auto
    show ?thesis
    proof (cases "f ?h")
      case True
      with "1.IH"(2)[of ?h] h \<open>i < j\<close> have "i \<le> searchFrom f i ?h \<and> searchFrom f i ?h \<le> ?h" by simp
      moreover have "searchFrom f i j = searchFrom f i ?h"
        using True \<open>i < j\<close> by (subst searchFrom.simps) (simp add: Let_def)
      ultimately show ?thesis using h by auto
    next
      case False
      with "1.IH"(1)[of ?h] h \<open>i < j\<close> have "?h + 1 \<le> searchFrom f (?h + 1) j \<and> searchFrom f (?h + 1) j \<le> j" by simp
      moreover have "searchFrom f i j = searchFrom f (?h + 1) j"
        using False \<open>i < j\<close> by (subst searchFrom.simps) (simp add: Let_def)
      ultimately show ?thesis using h by auto
    qed
  next
    case False
    then have "searchFrom f i j = i" by (subst searchFrom.simps) simp
    then show ?thesis using "1.prems" by simp
  qed
qed

lemma searchFrom_holds: "i \<le> j \<Longrightarrow> searchFrom f i j < j \<Longrightarrow> f (searchFrom f i j)"
proof (induction f i j rule: searchFrom.induct)
  case (1 f i j)
  show ?case
  proof (cases "i < j")
    case True
    let ?h = "(i + j) div 2"
    have h: "i \<le> ?h" "?h < j" using True by auto
    show ?thesis
    proof (cases "f ?h")
      case True
      have eq: "searchFrom f i j = searchFrom f i ?h"
        using True \<open>i < j\<close> by (subst searchFrom.simps) (simp add: Let_def)
      have le: "searchFrom f i ?h \<le> ?h" using searchFrom_bounds[OF h(1)] by simp
      show ?thesis
      proof (cases "searchFrom f i ?h < ?h")
        case True
        with "1.IH"(2)[of ?h] h \<open>i < j\<close> \<open>f ?h\<close> show ?thesis using eq by simp
      next
        case False
        with le have "searchFrom f i ?h = ?h" by simp
        then show ?thesis using eq True by simp
      qed
    next
      case False
      have eq: "searchFrom f i j = searchFrom f (?h + 1) j"
        using False \<open>i < j\<close> by (subst searchFrom.simps) (simp add: Let_def)
      with "1.IH"(1)[of ?h] h \<open>i < j\<close> False "1.prems" show ?thesis by simp
    qed
  next
    case False
    then have "searchFrom f i j = i" by (subst searchFrom.simps) simp
    with "1.prems" False show ?thesis by simp
  qed
qed

lemma searchFrom_found: "i < j \<Longrightarrow> f (j - 1) \<Longrightarrow> searchFrom f i j < j"
proof (induction f i j rule: searchFrom.induct)
  case (1 f i j)
  let ?h = "(i + j) div 2"
  have h: "i \<le> ?h" "?h < j" using "1.prems" by auto
  show ?case
  proof (cases "f ?h")
    case True
    have eq: "searchFrom f i j = searchFrom f i ?h"
      using True "1.prems" by (subst searchFrom.simps) (simp add: Let_def)
    have "searchFrom f i ?h \<le> ?h" using searchFrom_bounds[OF h(1)] by simp
    then show ?thesis using eq h by simp
  next
    case False
    have eq: "searchFrom f i j = searchFrom f (?h + 1) j"
      using False "1.prems" by (subst searchFrom.simps) (simp add: Let_def)
    have "?h \<noteq> j - 1" using False "1.prems" by auto
    then have "?h + 1 < j" using h by arith
    with "1.IH"(1)[of ?h] "1.prems" False show ?thesis using eq by simp
  qed
qed

lemma searchFrom_least:
  "\<forall>a b. a \<le> b \<and> b < n \<and> f a \<longrightarrow> f b \<Longrightarrow> j \<le> n \<Longrightarrow> \<forall>k<i. \<not> f k \<Longrightarrow>
   k < searchFrom f i j \<Longrightarrow> \<not> f k"
proof (induction f i j rule: searchFrom.induct)
  case (1 f i j)
  show ?case
  proof (cases "i < j")
    case True
    let ?h = "(i + j) div 2"
    have h: "i \<le> ?h" "?h < j" using True by auto
    show ?thesis
    proof (cases "f ?h")
      case True
      have eq: "searchFrom f i j = searchFrom f i ?h"
        using True \<open>i < j\<close> by (subst searchFrom.simps) (simp add: Let_def)
      show ?thesis
        using "1.IH"(2)[of ?h] \<open>i < j\<close> True "1.prems" eq h by simp
    next
      case False
      have eq: "searchFrom f i j = searchFrom f (?h + 1) j"
        using False \<open>i < j\<close> by (subst searchFrom.simps) (simp add: Let_def)
      have "\<forall>k<?h + 1. \<not> f k"
      proof (intro allI impI)
        fix k assume "k < ?h + 1"
        then have "k \<le> ?h" by simp
        with "1.prems"(1) h "1.prems"(2) False show "\<not> f k" by (meson less_le_trans)
      qed
      then show ?thesis
        using "1.IH"(1)[of ?h] \<open>i < j\<close> False "1.prems" eq by simp
    qed
  next
    case False
    then have "searchFrom f i j = i" by (subst searchFrom.simps) simp
    with "1.prems" show ?thesis by simp
  qed
qed

lemma markFound_Nil: "markFound ident mark id1 [] = None"
  by (simp add: markFound_def)

lemma markFound_total:
  assumes "xs \<noteq> []"
  shows "\<exists>ys. markFound ident mark id1 xs = Some ys"
proof (cases "id1 \<ge> ident (xs ! 0) \<and> id1 \<le> ident (xs ! (length xs - 1))")
  case True
  have "0 < length xs" using assms by simp
  then have "searchFrom (\<lambda>i. ident (xs ! i) \<ge> id1) 0 (length xs) < length xs"
    using True by (intro searchFrom_found) simp_all
  then show ?thesis using assms True by (simp add: markFound_def Search_def Let_def)
next
  case False
  then show ?thesis using assms by (auto simp: markFound_def)
qed

lemma markFound_marksOne:
  assumes "markFound ident mark id1 xs = Some ys"
  shows "marksOne ident mark id1 xs ys"
proof (cases "id1 \<ge> ident (xs ! 0) \<and> id1 \<le> ident (xs ! (length xs - 1))")
  case False
  then show ?thesis using assms by (auto simp: markFound_def marksOne_def split: if_splits)
next
  case True
  let ?f = "\<lambda>i. ident (xs ! i) \<ge> id1"
  let ?p = "searchFrom ?f 0 (length xs)"
  from assms True have ne: "xs \<noteq> []" and p: "?p < length xs"
    and ys: "ys = xs[?p := mark (xs ! ?p)]"
    by (auto simp: markFound_def Search_def Let_def split: if_splits)
  have fp: "?f ?p" using searchFrom_holds[of 0 "length xs" ?f] p by simp
  have least: "\<forall>k<?p. ident (xs ! k) < id1" if srt: "sorted (map ident xs)"
  proof (intro allI impI)
    fix k assume k: "k < ?p"
    have mono: "\<forall>a b. a \<le> b \<and> b < length xs \<and> ?f a \<longrightarrow> ?f b"
    proof (intro allI impI)
      fix a b assume ab: "a \<le> b \<and> b < length xs \<and> id1 \<le> ident (xs ! a)"
      then have "map ident xs ! a \<le> map ident xs ! b"
        using srt by (intro sorted_nth_mono) simp_all
      then have "ident (xs ! a) \<le> ident (xs ! b)" using ab by simp
      with ab show "id1 \<le> ident (xs ! b)" by (meson order_trans)
    qed
    have "\<not> ?f k"
      using searchFrom_least[OF mono, of "length xs" 0 k] k by simp
    then show "ident (xs ! k) < id1" by simp
  qed
  show ?thesis
    unfolding marksOne_def using True p fp ys least by auto
qed

lemma pruneShardGroupList_eq:
  "list_all (\<lambda>g. sg_Shards g \<noteq> []) sgs \<Longrightarrow>
   pruneShardGroupList id1 sgs =
     Some (filter (\<lambda>g. \<not> (\<not> IsZero (sg_DeletedAt g) \<and> sgCanDelete g)) (map (markedShardGroup id1) sgs))"
proof (induction sgs)
  case Nil
  then show ?case by simp
next
  case (Cons g sgs)
  then have "sg_Shards g \<noteq> []" by simp
  from markFound_total[OF this] obtain ys where ys: "markShard id1 (sg_Shards g) = Some ys"
    unfolding markShard_def by blast
  then have m: "markedShardGroup id1 g = g\<lparr>sg_Shards := ys\<rparr>"
    by (simp add: markedShardGroup_def)
  show ?case using Cons ys m by (simp add: Let_def)
qed

lemma pruneShardGroupList_Some:
  "pruneShardGroupList id1 sgs = Some out \<Longrightarrow> list_all (\<lambda>g. sg_Shards g \<noteq> []) sgs"
proof (induction sgs arbitrary: out)
  case Nil
  then show ?case by simp
next
  case (Cons g sgs)
  from Cons.prems have "markShard id1 (sg_Shards g) \<noteq> None"
    by (auto split: option.splits)
  then have "sg_Shards g \<noteq> []" by (auto simp: markShard_def markFound_Nil)
  moreover from Cons.prems obtain r where "pruneShardGroupList id1 sgs = Some r"
    by (auto simp: Let_def split: option.splits)
  ultimately show ?case using Cons.IH by simp
qed

lemma pruneIndexGroupList_eq:
  "list_all (\<lambda>g. ig_Indexes g \<noteq> []) igs \<Longrightarrow>
   pruneIndexGroupList id1 igs =
     Some (filter (\<lambda>g. \<not> igCanDelete g) (map (markedIndexGroup id1) igs))"
proof (induction igs)
  case Nil
  then show ?case by simp
next
  case (Cons g igs)
  then have "ig_Indexes g \<noteq> []" by simp
  from markFound_total[OF this] obtain ys where ys: "markIndex id1 (ig_Indexes g) = Some ys"
    unfolding markIndex_def by blast
  then have m: "markedIndexGroup id1 g = g\<lparr>ig_Indexes := ys\<rparr>"
    by (simp add: markedIndexGroup_def)
  show ?case using Cons ys m by (simp add: Let_def)
qed

lemma pruneIndexGroupList_Some:
  "pruneIndexGroupList id1 igs = Some out \<Longrightarrow> list_all (\<lambda>g. ig_Indexes g \<noteq> []) igs"
proof (induction igs arbitrary: out)
  case Nil
  then show ?case by simp
next
  case (Cons g igs)
  from Cons.prems have "markIndex id1 (ig_Indexes g) \<noteq> None"
    by (auto split: option.splits)
  then have "ig_Indexes g \<noteq> []" by (auto simp: markIndex_def markFound_Nil)
  moreover from Cons.prems obtain r where "pruneIndexGroupList id1 igs = Some r"
    by (auto simp: Let_def split: option.splits)
  ultimately show ?case using Cons.IH by simp
qed

lemma walk_Some:
  "walk f m = Some m' \<Longrightarrow> map_of m' k = (case map_of m k of None \<Rightarrow> None | Some v \<Rightarrow> f v)"
proof (induction m arbitrary: m')
  case Nil
  then show ?case by simp
next
  case (Cons kv m)
  obtain k0 v0 where kv: "kv = (k0, v0)" by (cases kv)
  from Cons.prems kv obtain v' r where v': "f v0 = Some v'" and r: "walk f m = Some r"
    and m': "m' = (k0, v') # r"
    by (auto split: option.splits)
  show ?case using Cons.IH[OF r] kv v' m' by simp
qed

lemma walk_defined: "walk f m = Some m' \<Longrightarrow> (k, v) \<in> set m \<Longrightarrow> f v \<noteq> None"
  by (induction m arbitrary: m') (auto split: option.splits)

lemma walk_lookup:
  assumes "walk f m = Some m'" and "map_of m k = Some v"
  shows "\<exists>v'. f v = Some v' \<and> map_of m' k = Some v'"
proof -
  have "(k, v) \<in> set m" using assms(2) by (rule map_of_SomeD)
  then have "f v \<noteq> None" using walk_defined[OF assms(1)] by blast
  then show ?thesis using walk_Some[OF assms(1), of k] assms(2) by auto
qed

lemma walk_total: "list_all (\<lambda>(k, v). f v \<noteq> None) m \<Longrightarrow> \<exists>m'. walk f m = Some m'"
  by (induction m) (auto split: option.splits)

lemma walkRps_rpAt:
  assumes "walkRps f data = Some data'" and "rpAt data db rp = Some rpi"
  shows "\<exists>rpi'. f rpi = Some rpi' \<and> rpAt data' db rp = Some rpi'"
proof -
  let ?g = "\<lambda>db. case walk f (db_RetentionPolicies db) of
                         None \<Rightarrow> None
                       | Some rps \<Rightarrow> Some (db\<lparr>db_RetentionPolicies := rps\<rparr>)"
  from assms(1) obtain dbs where dbs: "walk ?g (Databases data) = Some dbs"
    and d': "data' = data\<lparr>Databases := dbs\<rparr>"
    by (auto simp: walkRps_def split: option.splits)
  from assms(2) obtain dbi where dbi: "map_of (Databases data) db = Some dbi"
    and rp: "map_of (db_RetentionPolicies dbi) rp = Some rpi"
    by (auto simp: rpAt_def split: option.splits)
  from walk_lookup[OF dbs dbi] obtain dbi' where g: "?g dbi = Some dbi'"
    and l: "map_of dbs db = Some dbi'" by blast
  from g obtain rps where rps: "walk f (db_RetentionPolicies dbi) = Some rps"
    and dbi': "dbi' = dbi\<lparr>db_RetentionPolicies := rps\<rparr>"
    by (auto split: option.splits)
  from walk_lookup[OF rps rp] obtain rpi' where "f rpi = Some rpi'" "map_of rps rp = Some rpi'"
    by blast
  then show ?thesis using d' l dbi' by (auto simp: rpAt_def)
qed

lemma walkRps_total:
  assumes "allRps (\<lambda>rp. f rp \<noteq> None) data"
  shows "\<exists>data'. walkRps f data = Some data'"
proof -
  let ?g = "\<lambda>db. case walk f (db_RetentionPolicies db) of
                         None \<Rightarrow> None
                       | Some rps \<Rightarrow> Some (db\<lparr>db_RetentionPolicies := rps\<rparr>)"
  have "list_all (\<lambda>(k, v). ?g v \<noteq> None) (Databases data)"
    unfolding list_all_iff
  proof (intro ballI)
    fix x assume x: "x \<in> set (Databases data)"
    obtain n db where nd: "x = (n, db)" by (cases x)
    from assms x nd have "list_all (\<lambda>(rn, rp). f rp \<noteq> None) (db_RetentionPolicies db)"
      by (auto simp: allRps_def list_all_iff)
    from walk_total[OF this] show "case x of (k, v) \<Rightarrow> ?g v \<noteq> None"
      using nd by auto
  qed
  from walk_total[OF this] show ?thesis by (auto simp: walkRps_def)
qed

lemma pruneShardGroups_rp:
  assumes "pruneShardGroups data id1 = Some (data', e)" and "rpAt data db rp = Some rpi"
  shows "e = None \<and> list_all (\<lambda>g. sg_Shards g \<noteq> []) (rp_ShardGroups rpi) \<and>
         rpAt data' db rp = Some (rpi\<lparr>rp_ShardGroups :=
           filter (\<lambda>g. \<not> (\<not> IsZero (sg_DeletedAt g) \<and> sgCanDelete g))
             (map (markedShardGroup id1) (rp_ShardGroups rpi))\<rparr>)"
proof -
  let ?f = "\<lambda>rp. case pruneShardGroupList id1 (rp_ShardGroups rp) of
                            None \<Rightarrow> None
                          | Some sgs \<Rightarrow> Some (rp\<lparr>rp_ShardGroups := sgs\<rparr>)"
  from assms(1) have w: "walkRps ?f data = Some data'" and e: "e = None"
    by (auto simp: pruneShardGroups_def split: option.splits)
  from walkRps_rpAt[OF w assms(2)] obtain rpi' where f: "?f rpi = Some rpi'"
    and r: "rpAt data' db rp = Some rpi'" by blast
  from f obtain sgs where sgs: "pruneShardGroupList id1 (rp_ShardGroups rpi) = Some sgs"
    and rpi': "rpi' = rpi\<lparr>rp_ShardGroups := sgs\<rparr>"
    by (auto split: option.splits)
  have ne: "list_all (\<lambda>g. sg_Shards g \<noteq> []) (rp_ShardGroups rpi)"
    using sgs by (rule pruneShardGroupList_Some)
  from pruneShardGroupList_eq[OF ne, of id1] sgs
  have "sgs = filter (\<lambda>g. \<not> (\<not> IsZero (sg_DeletedAt g) \<and> sgCanDelete g))
             (map (markedShardGroup id1) (rp_ShardGroups rpi))" by simp
  then show ?thesis using e ne r rpi' by simp
qed

lemma pruneIndexGroups_rp:
  assumes "pruneIndexGroups data id1 = Some (data', e)" and "rpAt data db rp = Some rpi"
  shows "e = None \<and> list_all (\<lambda>g. ig_Indexes g \<noteq> []) (rp_IndexGroups rpi) \<and>
         rpAt data' db rp = Some (rpi\<lparr>rp_IndexGroups :=
           filter (\<lambda>g. \<not> igCanDelete g) (map (markedIndexGroup id1) (rp_IndexGroups rpi))\<rparr>)"
proof -
  let ?f = "\<lambda>rp. case pruneIndexGroupList id1 (rp_IndexGroups rp) of
                            None \<Rightarrow> None
                          | Some igs \<Rightarrow> Some (rp\<lparr>rp_IndexGroups := igs\<rparr>)"
  from assms(1) have w: "walkRps ?f data = Some data'" and e: "e = None"
    by (auto simp: pruneIndexGroups_def split: option.splits)
  from walkRps_rpAt[OF w assms(2)] obtain rpi' where f: "?f rpi = Some rpi'"
    and r: "rpAt data' db rp = Some rpi'" by blast
  from f obtain igs where igs: "pruneIndexGroupList id1 (rp_IndexGroups rpi) = Some igs"
    and rpi': "rpi' = rpi\<lparr>rp_IndexGroups := igs\<rparr>"
    by (auto split: option.splits)
  have ne: "list_all (\<lambda>g. ig_Indexes g \<noteq> []) (rp_IndexGroups rpi)"
    using igs by (rule pruneIndexGroupList_Some)
  from pruneIndexGroupList_eq[OF ne, of id1] igs
  have "igs = filter (\<lambda>g. \<not> igCanDelete g) (map (markedIndexGroup id1) (rp_IndexGroups rpi))"
    by simp
  then show ?thesis using e ne r rpi' by simp
qed

lemma pruneShardGroups_total:
  assumes "allRps (\<lambda>rp. list_all (\<lambda>g. sg_Shards g \<noteq> []) (rp_ShardGroups rp)) data"
  shows "pruneShardGroups data id1 \<noteq> None"
proof -
  let ?f = "\<lambda>rp. case pruneShardGroupList id1 (rp_ShardGroups rp) of
                            None \<Rightarrow> None
                          | Some sgs \<Rightarrow> Some (rp\<lparr>rp_ShardGroups := sgs\<rparr>)"
  have "?f rp \<noteq> None" if "list_all (\<lambda>g. sg_Shards g \<noteq> []) (rp_ShardGroups rp)" for rp :: RetentionPolicyInfo
    using pruneShardGroupList_eq[OF that, of id1] by simp
  then have "allRps (\<lambda>rp. ?f rp \<noteq> None) data"
    using assms unfolding allRps_def list_all_iff by fast
  from walkRps_total[OF this] show ?thesis by (auto simp: pruneShardGroups_def)
qed

lemma pruneIndexGroups_total:
  assumes "allRps (\<lambda>rp. list_all (\<lambda>g. ig_Indexes g \<noteq> []) (rp_IndexGroups rp)) data"
  shows "pruneIndexGroups data id1 \<noteq> None"
proof -
  let ?f = "\<lambda>rp. case pruneIndexGroupList id1 (rp_IndexGroups rp) of
                            None \<Rightarrow> None
                          | Some igs \<Rightarrow> Some (rp\<lparr>rp_IndexGroups := igs\<rparr>)"
  have "?f rp \<noteq> None" if "list_all (\<lambda>g. ig_Indexes g \<noteq> []) (rp_IndexGroups rp)" for rp :: RetentionPolicyInfo
    using pruneIndexGroupList_eq[OF that, of id1] by simp
  then have "allRps (\<lambda>rp. ?f rp \<noteq> None) data"
    using assms unfolding allRps_def list_all_iff by fast
  from walkRps_total[OF this] show ?thesis by (auto simp: pruneIndexGroups_def)
qed

lemma markFound_exact:
  assumes "prunable id1 (map ident xs)"
  shows "markFound ident mark id1 xs = Some (map (\<lambda>x. if ident x = id1 then mark x else x) xs)"
proof -
  from assms have ne: "xs \<noteq> []" and ss: "sorted_wrt (<) (map ident xs)"
    and dj: "id1 \<in> set (map ident xs) \<or> id1 < hd (map ident xs) \<or> last (map ident xs) < id1"
    by (simp_all add: prunable_def)
  have srt: "sorted (map ident xs)" and dst: "distinct (map ident xs)"
    using ss by (simp_all add: strict_sorted_iff)
  have h: "hd (map ident xs) = ident (xs ! 0)" using ne by (simp add: hd_conv_nth)
  have l: "last (map ident xs) = ident (xs ! (length xs - 1))"
    using ne by (simp add: last_conv_nth)
  have mono: "ident (xs ! i) \<le> ident (xs ! j)" if "i \<le> j" "j < length xs" for i j
    using srt that sorted_nth_mono[of "map ident xs" i j] by simp
  have inj: "i = j" if "ident (xs ! i) = ident (xs ! j)" "i < length xs" "j < length xs" for i j
    using dst that nth_eq_iff_index_eq[of "map ident xs" i j] by simp
  from markFound_total[OF ne] obtain ys where ys: "markFound ident mark id1 xs = Some ys"
    by blast
  note m = markFound_marksOne[OF ys]
  show ?thesis
  proof (cases "id1 \<ge> ident (xs ! 0) \<and> id1 \<le> ident (xs ! (length xs - 1))")
    case True
    with dj h l have "id1 \<in> set (map ident xs)" by auto
    then obtain q where q: "q < length xs" "ident (xs ! q) = id1"
      by (auto simp: in_set_conv_nth)
    from m True srt obtain p where p: "p < length xs" "id1 \<le> ident (xs ! p)"
      "ys = xs[p := mark (xs ! p)]" "\<forall>k<p. ident (xs ! k) < id1"
      by (auto simp: marksOne_def)
    have "\<not> q < p" using p(4) q(2) by auto
    moreover have "\<not> p < q"
    proof
      assume pq: "p < q"
      then have "ident (xs ! p) \<le> ident (xs ! q)" using mono q(1) by simp
      moreover have "ident (xs ! p) \<noteq> ident (xs ! q)" using inj[of p q] pq p(1) q(1) by auto
      ultimately show False using p(2) q(2) by simp
    qed
    ultimately have pq: "p = q" by simp
    have "xs[q := mark (xs ! q)] = map (\<lambda>x. if ident x = id1 then mark x else x) xs"
    proof (rule nth_equalityI)
      show "length (xs[q := mark (xs ! q)]) = length (map (\<lambda>x. if ident x = id1 then mark x else x) xs)"
        by simp
      fix i assume "i < length (xs[q := mark (xs ! q)])"
      then have i: "i < length xs" by simp
      show "xs[q := mark (xs ! q)] ! i = map (\<lambda>x. if ident x = id1 then mark x else x) xs ! i"
      proof (cases "i = q")
        case True
        then show ?thesis using q by simp
      next
        case False
        then have "ident (xs ! i) \<noteq> id1" using inj[of i q] i q by auto
        then show ?thesis using False i by simp
      qed
    qed
    then show ?thesis using ys p(3) pq by simp
  next
    case False
    then have y: "ys = xs" using m by (simp add: marksOne_def)
    have "ident x \<noteq> id1" if "x \<in> set xs" for x
    proof
      assume e: "ident x = id1"
      from that obtain q where q: "q < length xs" "xs ! q = x" by (auto simp: in_set_conv_nth)
      have "ident (xs ! 0) \<le> ident (xs ! q)" using mono[of 0 q] q(1) by simp
      moreover have "ident (xs ! q) \<le> ident (xs ! (length xs - 1))"
        using mono[of q "length xs - 1"] q(1) by simp
      ultimately show False using False e q(2) by simp
    qed
    then have "map (\<lambda>x. if ident x = id1 then mark x else x) xs = xs"
      by (simp add: map_idI)
    then show ?thesis using ys y by simp
  qed
qed

lemma markedShardGroup_exact:
  "prunable id1 (map sh_ID (sg_Shards g)) \<Longrightarrow> markedShardGroup id1 g = markShardId id1 g"
  by (simp add: markedShardGroup_def markShard_def markFound_exact markShardId_def)

lemma markedIndexGroup_exact:
  "prunable id1 (map ix_ID (ig_Indexes g)) \<Longrightarrow> markedIndexGroup id1 g = markIndexId id1 g"
  by (simp add: markedIndexGroup_def markIndex_def markFound_exact markIndexId_def)

lemma pruneShardGroups_frame:
  "pruneShardGroups data id1 \<noteq> None \<Longrightarrow>
   \<exists>data'. pruneShardGroups data id1 = Some (data', None) \<and> data'\<lparr>Databases := Databases data\<rparr> = data"
  by (auto simp: pruneShardGroups_def walkRps_def split: option.splits)

lemma pruneIndexGroups_frame:
  "pruneIndexGroups data id1 \<noteq> None \<Longrightarrow>
   \<exists>data'. pruneIndexGroups data id1 = Some (data', None) \<and> data'\<lparr>Databases := Databases data\<rparr> = data"
  by (auto simp: pruneIndexGroups_def walkRps_def split: option.splits)

lemma pruneShardGroups_exact:
  assumes "allRps (\<lambda>rp. list_all (\<lambda>g. prunable id1 (map sh_ID (sg_Shards g)))
                          (rp_ShardGroups rp)) data"
  shows "\<exists>data'. pruneShardGroups data id1 = Some (data', None) \<and>
           data'\<lparr>Databases := Databases data\<rparr> = data \<and>
           (\<forall>db rp rpi. rpAt data db rp = Some rpi \<longrightarrow>
              rpAt data' db rp = Some (rpi\<lparr>rp_ShardGroups :=
                filter (\<lambda>g. \<not> (\<not> IsZero (sg_DeletedAt g) \<and> list_all sh_MarkDelete (sg_Shards g)))
                  (map (markShardId id1) (rp_ShardGroups rpi))\<rparr>))"
proof -
  have "allRps (\<lambda>rp. list_all (\<lambda>g. sg_Shards g \<noteq> []) (rp_ShardGroups rp)) data"
    using assms unfolding allRps_def list_all_iff prunable_def by fastforce
  then have "pruneShardGroups data id1 \<noteq> None" by (rule pruneShardGroups_total)
  from pruneShardGroups_frame[OF this] obtain data'
    where r: "pruneShardGroups data id1 = Some (data', None)"
      and f: "data'\<lparr>Databases := Databases data\<rparr> = data"
    by blast
  have "rpAt data' db rp = Some (rpi\<lparr>rp_ShardGroups :=
                filter (\<lambda>g. \<not> (\<not> IsZero (sg_DeletedAt g) \<and> list_all sh_MarkDelete (sg_Shards g)))
                  (map (markShardId id1) (rp_ShardGroups rpi))\<rparr>)"
    if at: "rpAt data db rp = Some rpi" for db rp rpi
  proof -
    from allRps_rpAt[OF assms at]
    have p: "list_all (\<lambda>g. prunable id1 (map sh_ID (sg_Shards g))) (rp_ShardGroups rpi)" .
    have e: "map (markedShardGroup id1) (rp_ShardGroups rpi) = map (markShardId id1) (rp_ShardGroups rpi)"
      by (rule map_cong[OF refl]) (use p markedShardGroup_exact in \<open>auto simp: list_all_iff\<close>)
    from pruneShardGroups_rp[OF r at]
    have "rpAt data' db rp = Some (rpi\<lparr>rp_ShardGroups :=
           filter (\<lambda>g. \<not> (\<not> IsZero (sg_DeletedAt g) \<and> sgCanDelete g))
             (map (markedShardGroup id1) (rp_ShardGroups rpi))\<rparr>)"
      by blast
    then show ?thesis unfolding e sgCanDelete_def .
  qed
  then show ?thesis using r f by blast
qed

lemma pruneIndexGroups_exact:
  assumes "allRps (\<lambda>rp. list_all (\<lambda>g. prunable id1 (map ix_ID (ig_Indexes g)) \<and>
                              \<not> (IsZero (ig_DeletedAt g) \<and>
                                 list_all ix_MarkDelete (ig_Indexes (markIndexId id1 g))))
                          (rp_IndexGroups rp)) data"
  shows "\<exists>data'. pruneIndexGroups data id1 = Some (data', None) \<and>
           data'\<lparr>Databases := Databases data\<rparr> = data \<and>
           (\<forall>db rp rpi. rpAt data db rp = Some rpi \<longrightarrow>
              rpAt data' db rp = Some (rpi\<lparr>rp_IndexGroups :=
                filter (\<lambda>g. \<not> (\<not> IsZero (ig_DeletedAt g) \<and> list_all ix_MarkDelete (ig_Indexes g)))
                  (map (markIndexId id1) (rp_IndexGroups rpi))\<rparr>))"
proof -
  have "allRps (\<lambda>rp. list_all (\<lambda>g. ig_Indexes g \<noteq> []) (rp_IndexGroups rp)) data"
    using assms unfolding allRps_def list_all_iff prunable_def by fastforce
  then have "pruneIndexGroups data id1 \<noteq> None" by (rule pruneIndexGroups_total)
  from pruneIndexGroups_frame[OF this] obtain data'
    where r: "pruneIndexGroups data id1 = Some (data', None)"
      and f: "data'\<lparr>Databases := Databases data\<rparr> = data"
    by blast
  have "rpAt data' db rp = Some (rpi\<lparr>rp_IndexGroups :=
                filter (\<lambda>g. \<not> (\<not> IsZero (ig_DeletedAt g) \<and> list_all ix_MarkDelete (ig_Indexes g)))
                  (map (markIndexId id1) (rp_IndexGroups rpi))\<rparr>)"
    if at: "rpAt data db rp = Some rpi" for db rp rpi
  proof -
    from allRps_rpAt[OF assms at]
    have p: "list_all (\<lambda>g. prunable id1 (map ix_ID (ig_Indexes g)) \<and>
                              \<not> (IsZero (ig_DeletedAt g) \<and>
                                 list_all ix_MarkDelete (ig_Indexes (markIndexId id1 g))))
               (rp_IndexGroups rpi)" .
    have e: "map (markedIndexGroup id1) (rp_IndexGroups rpi) = map (markIndexId id1) (rp_IndexGroups rpi)"
      by (rule map_cong[OF refl]) (use p markedIndexGroup_exact in \<open>auto simp: list_all_iff\<close>)
    have d: "ig_DeletedAt (markIndexId id1 g) = ig_DeletedAt g" for g
      by (simp add: markIndexId_def)
    have "filter (\<lambda>g. \<not> igCanDelete g) (map (markIndexId id1) (rp_IndexGroups rpi)) =
          filter (\<lambda>g. \<not> (\<not> IsZero (ig_DeletedAt g) \<and> list_all ix_MarkDelete (ig_Indexes g)))
            (map (markIndexId id1) (rp_IndexGroups rpi))"
    proof (rule filter_cong[OF refl])
      fix x assume "x \<in> set (map (markIndexId id1) (rp_IndexGroups rpi))"
      then obtain g where g: "g \<in> set (rp_IndexGroups rpi)" and x: "x = markIndexId id1 g" by auto
      from p g have "\<not> (IsZero (ig_DeletedAt g) \<and>
                         list_all ix_MarkDelete (ig_Indexes (markIndexId id1 g)))"
        by (auto simp: list_all_iff)
      then show "(\<not> igCanDelete x) =
                 (\<not> (\<not> IsZero (ig_DeletedAt x) \<and> list_all ix_MarkDelete (ig_Indexes x)))"
        unfolding x d igCanDelete_def by blast
    qed
    then have fe: "filter (\<lambda>g. \<not> igCanDelete g) (map (markedIndexGroup id1) (rp_IndexGroups rpi)) =
          filter (\<lambda>g. \<not> (\<not> IsZero (ig_DeletedAt g) \<and> list_all ix_MarkDelete (ig_Indexes g)))
            (map (markIndexId id1) (rp_IndexGroups rpi))"
      unfolding e .
    from pruneIndexGroups_rp[OF r at]
    have "rpAt data' db rp = Some (rpi\<lparr>rp_IndexGroups :=
           filter (\<lambda>g. \<not> igCanDelete g) (map (markedIndexGroup id1) (rp_IndexGroups rpi))\<rparr>)"
      by blast
    then show ?thesis unfolding fe .
  qed
  then show ?thesis using r f by blast
qed

text \<open>
  C6, as stated, fails. \<open>pruneShardGroups\<close> marks one shard of a group, not every shard
  with an id up to the given one: the shard group of \<open>s1Data\<close> has the shards 1 and 2,
  and after \<open>pruneShardGroups 2\<close> shard 2 is marked and shard 1 is not. \<open>pruneIndexGroups\<close>
  does not look at \<open>DeletedAt\<close>: the index group of the example, index 2 marked and
  \<open>DeletedAt\<close> zero, is removed by \<open>pruneIndexGroups 1\<close>. Two more departures: a shard
  group without shards, which \<open>DropShard\<close> can leave behind, makes \<open>pruneShardGroups\<close>
  panic; and in a group with the shard ids 1, 2 and 5, \<open>pruneShardGroups 3\<close> marks
  shard 5.
\<close>

theorem pruneShardGroups_marks_one_counterexample:
  "shardMarksOf (pruneShardGroups s1Data 2) ''db0'' ''autogen'' = Some [[(1, False), (2, True)]] \<and>
   IsZero (ig_DeletedAt ig1Marked2) \<and>
   indexGroupsOf (pruneIndexGroups (withGroups [sg1] [ig1Marked2]) 1) ''db0'' ''autogen'' = Some [] \<and>
   pruneShardGroups (withGroups [sg1Emptied] [ig1]) 2 = None \<and>
   shardMarksOf (pruneShardGroups (withGroups [sg125] [ig1]) 3) ''db0'' ''autogen''
     = Some [[(1, False), (2, False), (5, True)]]"
proof (intro conjI)
  show "shardMarksOf (pruneShardGroups s1Data 2) ''db0'' ''autogen'' = Some [[(1, False), (2, True)]]"
    by (simp add: shardMarksOf_def pruneShardGroups_def walkRps_def s1Data_def db0_def
      autogen_def sg1_def markShard_def markFound_def Search_def searchFrom.simps Let_def
      sgCanDelete_def IsZero_def rpAt_def word_le_nat_alt)
  show "IsZero (ig_DeletedAt ig1Marked2)" by (simp add: ig1Marked2_def ig1_def IsZero_def)
  show "indexGroupsOf (pruneIndexGroups (withGroups [sg1] [ig1Marked2]) 1) ''db0'' ''autogen'' = Some []"
    by (simp add: indexGroupsOf_def pruneIndexGroups_def walkRps_def s1Data_def db0_def
      withGroups_def autogen_def ig1_def ig1Marked2_def markIndex_def markFound_def Search_def
      searchFrom.simps Let_def igCanDelete_def word_le_nat_alt rpAt_def)
  show "pruneShardGroups (withGroups [sg1Emptied] [ig1]) 2 = None"
    by (simp add: pruneShardGroups_def walkRps_def s1Data_def db0_def withGroups_def
      autogen_def sg1Emptied_def markShard_def markFound_def)
  show "shardMarksOf (pruneShardGroups (withGroups [sg125] [ig1]) 3) ''db0'' ''autogen''
     = Some [[(1, False), (2, False), (5, True)]]"
    by (simp add: shardMarksOf_def pruneShardGroups_def walkRps_def s1Data_def db0_def
      withGroups_def autogen_def sg1_def sg125_def markShard_def markFound_def Search_def
      searchFrom.simps Let_def sgCanDelete_def IsZero_def rpAt_def word_le_nat_alt)
qed

text \<open>
  C6, amended. Let every shard group have shards with ascending ids, and let the given
  id be the id of one of them or lie outside of them. Then \<open>pruneShardGroups\<close> returns
  without an error; in every shard group it marks the shard with the given id for
  delete, and no other; it then removes exactly the shard groups whose shards are all
  marked and whose \<open>DeletedAt\<close> is not the zero time; nothing else of the catalog
  changes. \<open>pruneIndexGroups\<close> does the same with the indexes of the index groups, when
  moreover no index group with a zero \<open>DeletedAt\<close> has all its indexes marked after the
  marking.
\<close>

theorem prune_groups_amended:
  "(allRps (\<lambda>rp. list_all (\<lambda>g. prunable id1 (map sh_ID (sg_Shards g)))
                     (rp_ShardGroups rp)) data \<longrightarrow>
      (\<exists>data'. pruneShardGroups data id1 = Some (data', None) \<and>
           data'\<lparr>Databases := Databases data\<rparr> = data \<and>
           (\<forall>db rp rpi. rpAt data db rp = Some rpi \<longrightarrow>
              rpAt data' db rp = Some (rpi\<lparr>rp_ShardGroups :=
                filter (\<lambda>g. \<not> (\<not> IsZero (sg_DeletedAt g) \<and> list_all sh_MarkDelete (sg_Shards g)))
                  (map (markShardId id1) (rp_ShardGroups rpi))\<rparr>)))) \<and>
   (allRps (\<lambda>rp. list_all (\<lambda>g. prunable id1 (map ix_ID (ig_Indexes g)) \<and>
                              \<not> (IsZero (ig_DeletedAt g) \<and>
                                 list_all ix_MarkDelete (ig_Indexes (markIndexId id1 g))))
                     (rp_IndexGroups rp)) data \<longrightarrow>
      (\<exists>data'. pruneIndexGroups data id1 = Some (data', None) \<and>
           data'\<lparr>Databases := Databases data\<rparr> = data \<and>
           (\<forall>db rp rpi. rpAt data db rp = Some rpi \<longrightarrow>
              rpAt data' db rp = Some (rpi\<lparr>rp_IndexGroups :=
                filter (\<lambda>g. \<not> (\<not> IsZero (ig_DeletedAt g) \<and> list_all ix_MarkDelete (ig_Indexes g)))
                  (map (markIndexId id1) (rp_IndexGroups rpi))\<rparr>))))"
  using pruneShardGroups_exact[of id1 data] pruneIndexGroups_exact[of id1 data]
  by (intro conjI impI)

lemma s1_autogen: "rpAt s1Data ''db0'' ''autogen'' = Some autogen"
  by (simp add: rpAt_def s1Data_def db0_def)

lemma s1_prune_shard: "pruneShardGroups s1Data 2 = Some (withGroups [sg1Marked2] [ig1], None)"
  by (simp add: pruneShardGroups_def walkRps_def s1Data_def db0_def withGroups_def
      autogen_def sg1_def sg1Marked2_def markShard_def markFound_def Search_def
      searchFrom.simps Let_def sgCanDelete_def IsZero_def word_le_nat_alt)

lemma s1_prune_index: "pruneIndexGroups s1Data 2 = Some (withGroups [sg1] [ig1Marked2], None)"
  by (simp add: pruneIndexGroups_def walkRps_def s1Data_def db0_def withGroups_def
      autogen_def ig1_def ig1Marked2_def markIndex_def markFound_def Search_def
      searchFrom.simps Let_def igCanDelete_def word_le_nat_alt)

text \<open>
  \<open>pruneIndexGroups\<close> does not look at \<open>DeletedAt\<close>, as \<open>pruneShardGroups\<close> does: once
  both indexes of the example's index group are marked the group is removed, although
  its \<open>DeletedAt\<close> is the zero time.
\<close>

lemma pruneIndexGroups_ignores_DeletedAt:
  "IsZero (ig_DeletedAt ig1Marked2) \<and>
   pruneIndexGroups (withGroups [sg1] [ig1Marked2]) 1 = Some (withGroups [sg1] [], None)"
  by (simp add: pruneIndexGroups_def walkRps_def s1Data_def db0_def withGroups_def
      autogen_def ig1_def ig1Marked2_def markIndex_def markFound_def Search_def
      searchFrom.simps Let_def igCanDelete_def word_le_nat_alt IsZero_def)

lemma pruneShardGroups_keeps_undeleted:
  "IsZero (sg_DeletedAt sg1Marked2) \<and>
   shardMarksOf (pruneShardGroups (withGroups [sg1Marked2] [ig1]) 1) ''db0'' ''autogen''
     = Some [[(1, True), (2, True)]]"
  by (simp add: pruneShardGroups_def walkRps_def s1Data_def db0_def withGroups_def
      autogen_def sg1_def sg1Marked2_def markShard_def markFound_def Search_def
      searchFrom.simps Let_def sgCanDelete_def word_le_nat_alt IsZero_def shardMarksOf_def
      rpAt_def)

theorem prune_groups_amended_witness:
  "allRps (\<lambda>rp. list_all (\<lambda>g. prunable 2 (map sh_ID (sg_Shards g))) (rp_ShardGroups rp)) s1Data \<and>
   shardGroupsOf (pruneShardGroups s1Data 2) ''db0'' ''autogen'' = Some [sg1Marked2] \<and>
   allRps (\<lambda>rp. list_all (\<lambda>g. prunable 1 (map sh_ID (sg_Shards g))) (rp_ShardGroups rp))
     deletedGroups \<and>
   shardGroupsOf (pruneShardGroups deletedGroups 1) ''db0'' ''autogen'' = Some [] \<and>
   allRps (\<lambda>rp. list_all (\<lambda>g. prunable 2 (map ix_ID (ig_Indexes g)) \<and>
                              \<not> (IsZero (ig_DeletedAt g) \<and>
                                 list_all ix_MarkDelete (ig_Indexes (markIndexId 2 g))))
                     (rp_IndexGroups rp)) s1Data \<and>
   indexGroupsOf (pruneIndexGroups s1Data 2) ''db0'' ''autogen'' = Some [ig1Marked2] \<and>
   allRps (\<lambda>rp. list_all (\<lambda>g. prunable 1 (map ix_ID (ig_Indexes g)) \<and>
                              \<not> (IsZero (ig_DeletedAt g) \<and>
                                 list_all ix_MarkDelete (ig_Indexes (markIndexId 1 g))))
                     (rp_IndexGroups rp)) deletedGroups \<and>
   indexGroupsOf (pruneIndexGroups deletedGroups 1) ''db0'' ''autogen'' = Some []"
proof -
  let ?rpd = "autogen\<lparr>rp_ShardGroups := [sg1Marked2\<lparr>sg_DeletedAt := t2024 + hour\<rparr>],
                       rp_IndexGroups := [ig1Marked2\<lparr>ig_DeletedAt := t2024 + hour\<rparr>]\<rparr>"
  have atd: "rpAt deletedGroups ''db0'' ''autogen'' = Some ?rpd"
    by (simp add: rpAt_def deletedGroups_def withGroups_def s1Data_def db0_def)
  have nz: "\<not> IsZero (t2024 + hour)" by (simp add: IsZero_def zeroTime_def t2024_def hour_def)
  have p1: "allRps (\<lambda>rp. list_all (\<lambda>g. prunable 2 (map sh_ID (sg_Shards g))) (rp_ShardGroups rp)) s1Data"
    by (simp add: allRps_def s1Data_def db0_def autogen_def sg1_def prunable_def
        word_less_nat_alt)
  have p2: "allRps (\<lambda>rp. list_all (\<lambda>g. prunable 1 (map sh_ID (sg_Shards g))) (rp_ShardGroups rp))
              deletedGroups"
    by (simp add: allRps_def deletedGroups_def withGroups_def s1Data_def db0_def autogen_def
        sg1_def sg1Marked2_def prunable_def word_less_nat_alt)
  have p3: "allRps (\<lambda>rp. list_all (\<lambda>g. prunable 2 (map ix_ID (ig_Indexes g)) \<and>
                              \<not> (IsZero (ig_DeletedAt g) \<and>
                                 list_all ix_MarkDelete (ig_Indexes (markIndexId 2 g))))
                     (rp_IndexGroups rp)) s1Data"
    by (simp add: allRps_def s1Data_def db0_def autogen_def ig1_def prunable_def
        markIndexId_def word_less_nat_alt)
  have p4: "allRps (\<lambda>rp. list_all (\<lambda>g. prunable 1 (map ix_ID (ig_Indexes g)) \<and>
                              \<not> (IsZero (ig_DeletedAt g) \<and>
                                 list_all ix_MarkDelete (ig_Indexes (markIndexId 1 g))))
                     (rp_IndexGroups rp)) deletedGroups"
    using nz
    by (simp add: allRps_def deletedGroups_def withGroups_def s1Data_def db0_def autogen_def
        ig1_def ig1Marked2_def prunable_def word_less_nat_alt)
  from prune_groups_amended [of 2 s1Data, THEN conjunct1, THEN mp, OF p1]
  obtain d1 where r1: "pruneShardGroups s1Data 2 = Some (d1, None)"
    and a1: "\<forall>db rp rpi. rpAt s1Data db rp = Some rpi \<longrightarrow>
              rpAt d1 db rp = Some (rpi\<lparr>rp_ShardGroups :=
                filter (\<lambda>g. \<not> (\<not> IsZero (sg_DeletedAt g) \<and> list_all sh_MarkDelete (sg_Shards g)))
                  (map (markShardId 2) (rp_ShardGroups rpi))\<rparr>)"
    by blast
  from a1 s1_autogen have "rpAt d1 ''db0'' ''autogen'' = Some (autogen\<lparr>rp_ShardGroups :=
                filter (\<lambda>g. \<not> (\<not> IsZero (sg_DeletedAt g) \<and> list_all sh_MarkDelete (sg_Shards g)))
                  (map (markShardId 2) (rp_ShardGroups autogen))\<rparr>)"
    by blast
  then have w1: "shardGroupsOf (pruneShardGroups s1Data 2) ''db0'' ''autogen'' = Some [sg1Marked2]"
    by (simp add: shardGroupsOf_def r1 autogen_def sg1_def sg1Marked2_def markShardId_def
        IsZero_def)
  from prune_groups_amended [of 1 deletedGroups, THEN conjunct1, THEN mp, OF p2]
  obtain d2 where r2: "pruneShardGroups deletedGroups 1 = Some (d2, None)"
    and a2: "\<forall>db rp rpi. rpAt deletedGroups db rp = Some rpi \<longrightarrow>
              rpAt d2 db rp = Some (rpi\<lparr>rp_ShardGroups :=
                filter (\<lambda>g. \<not> (\<not> IsZero (sg_DeletedAt g) \<and> list_all sh_MarkDelete (sg_Shards g)))
                  (map (markShardId 1) (rp_ShardGroups rpi))\<rparr>)"
    by blast
  from a2 atd have "rpAt d2 ''db0'' ''autogen'' = Some (?rpd\<lparr>rp_ShardGroups :=
                filter (\<lambda>g. \<not> (\<not> IsZero (sg_DeletedAt g) \<and> list_all sh_MarkDelete (sg_Shards g)))
                  (map (markShardId 1) (rp_ShardGroups ?rpd))\<rparr>)"
    by blast
  then have w2: "shardGroupsOf (pruneShardGroups deletedGroups 1) ''db0'' ''autogen'' = Some []"
    using nz by (simp add: shardGroupsOf_def r2 sg1_def sg1Marked2_def markShardId_def)
  from prune_groups_amended [of 2 s1Data, THEN conjunct2, THEN mp, OF p3]
  obtain d3 where r3: "pruneIndexGroups s1Data 2 = Some (d3, None)"
    and a3: "\<forall>db rp rpi. rpAt s1Data db rp = Some rpi \<longrightarrow>
              rpAt d3 db rp = Some (rpi\<lparr>rp_IndexGroups :=
                filter (\<lambda>g. \<not> (\<not> IsZero (ig_DeletedAt g) \<and> list_all ix_MarkDelete (ig_Indexes g)))
                  (map (markIndexId 2) (rp_IndexGroups rpi))\<rparr>)"
    by blast
  from a3 s1_autogen have "rpAt d3 ''db0'' ''autogen'' = Some (autogen\<lparr>rp_IndexGroups :=
                filter (\<lambda>g. \<not> (\<not> IsZero (ig_DeletedAt g) \<and> list_all ix_MarkDelete (ig_Indexes g)))
                  (map (markIndexId 2) (rp_IndexGroups autogen))\<rparr>)"
    by blast
  then have w3: "indexGroupsOf (pruneIndexGroups s1Data 2) ''db0'' ''autogen'' = Some [ig1Marked2]"
    by (simp add: indexGroupsOf_def r3 autogen_def ig1_def ig1Marked2_def markIndexId_def
        IsZero_def)
  from prune_groups_amended [of 1 deletedGroups, THEN conjunct2, THEN mp, OF p4]
  obtain d4 where r4: "pruneIndexGroups deletedGroups 1 = Some (d4, None)"
    and a4: "\<forall>db rp rpi. rpAt deletedGroups db rp = Some rpi \<longrightarrow>
              rpAt d4 db rp = Some (rpi\<lparr>rp_IndexGroups :=
                filter (\<lambda>g. \<not> (\<not> IsZero (ig_DeletedAt g) \<and> list_all ix_MarkDelete (ig_Indexes g)))
                  (map (markIndexId 1) (rp_IndexGroups rpi))\<rparr>)"
    by blast
  from a4 atd have "rpAt d4 ''db0'' ''autogen'' = Some (?rpd\<lparr>rp_IndexGroups :=
                filter (\<lambda>g. \<not> (\<not> IsZero (ig_DeletedAt g) \<and> list_all ix_MarkDelete (ig_Indexes g)))
                  (map (markIndexId 1) (rp_IndexGroups ?rpd))\<rparr>)"
    by blast
  then have w4: "indexGroupsOf (pruneIndexGroups deletedGroups 1) ''db0'' ''autogen'' = Some []"
    using nz by (simp add: indexGroupsOf_def r4 ig1_def ig1Marked2_def markIndexId_def)
  from p1 w1 p2 w2 p3 w3 p4 w4 show ?thesis by (intro conjI)
qed

subsection \<open>Replica groups\<close>

lemma map_set_twice: "map_set (map_set m k v) k v' = map_set m k v'"
  by (induction m) auto

lemma repLoop_done:
  "\<not> repGroupId < repEnd \<Longrightarrow>
   repLoop replicaN ptNumPerNode repEnd repGroupId ptIdx repGroups ptView = Some (repGroups, ptView)"
  by (subst repLoop.simps) simp

lemma repLoop_step:
  "repGroupId < repEnd \<Longrightarrow>
   kLoop replicaN ptNumPerNode ptIdx (unat ptNumPerNode) repGroupId repGroups ptView
     = Some (repGroupId', repGroups', ptView') \<Longrightarrow>
   repLoop replicaN ptNumPerNode repEnd repGroupId ptIdx repGroups ptView =
   repLoop replicaN ptNumPerNode repEnd repGroupId' (ptIdx + ptNumPerNode * replicaN) repGroups' ptView'"
  by (subst repLoop.simps) simp

lemma kLoop_s6_first:
  "kLoop 2 1 0 (unat (1 :: u32)) 0 [z0, z1] [p0, p1, p2, p3] =
     Some (1, [rgInit 0 0 [\<lparr>peer_ID = 1, peer_PtRole = Slave\<rparr>] Health 0, z1],
           [p0\<lparr>pt_RGID := 0\<rparr>, p1\<lparr>pt_RGID := 0\<rparr>, p2, p3])"
  by (simp add: setRGID_def upt_rec Let_def)

lemma kLoop_s6_second:
  "kLoop 2 1 2 (unat (1 :: u32)) 1 [r0, z1] [p0, p1, p2, p3] =
     Some (2, [r0, rgInit 1 2 [\<lparr>peer_ID = 3, peer_PtRole = Slave\<rparr>] Health 0],
           [p0, p1, p2\<lparr>pt_RGID := 1\<rparr>, p3\<lparr>pt_RGID := 1\<rparr>])"
  by (simp add: setRGID_def upt_rec Let_def)

lemma repLoop_s6:
  "repLoop 2 1 2 0 0 [z0, z1] [p0, p1, p2, p3] =
     Some ([rgInit 0 0 [\<lparr>peer_ID = 1, peer_PtRole = Slave\<rparr>] Health 0,
            rgInit 1 2 [\<lparr>peer_ID = 3, peer_PtRole = Slave\<rparr>] Health 0],
           [p0\<lparr>pt_RGID := 0\<rparr>, p1\<lparr>pt_RGID := 0\<rparr>, p2\<lparr>pt_RGID := 1\<rparr>, p3\<lparr>pt_RGID := 1\<rparr>])"
proof -
  have a: "(0 :: u32) < 2" "(1 :: u32) < 2" "\<not> (2 :: u32) < 2"
    by (simp_all add: word_less_nat_alt)
  show ?thesis
    apply (subst repLoop_step [OF a(1) kLoop_s6_first])
    apply (simp only: mult_1 add_0)
    apply (subst repLoop_step [OF a(2) kLoop_s6_second])
    apply (subst repLoop_done [OF a(3)])
    apply simp
    done
qed

lemma updatePtStatus_next:
  "map_of (PtView data) db = Some v \<Longrightarrow> unat ptId < length v \<Longrightarrow>
   updatePtStatus data db ptId nid st =
     Some (data\<lparr>PtView := map_set (PtView data) db
       (v[unat ptId := (let pi1 = (v ! unat ptId)\<lparr>pt_Owner := nid, pt_Status := st, pt_PtId := ptId\<rparr>
                        in if pt_Ver pi1 = 0 then pi1\<lparr>pt_Ver := 1\<rparr> else pi1)])\<rparr>)"
  by (simp add: updatePtStatus_def Let_def)

lemma updatePtStatus_first:
  "map_of (PtView data) db = None \<Longrightarrow> unat ptId < unat (ClusterPtNum data) \<Longrightarrow>
   updatePtStatus data db ptId nid st =
     Some (data\<lparr>PtView := map_set (PtView data) db
       ((replicate (unat (ClusterPtNum data)) zeroPt)
          [unat ptId := \<lparr>pt_Owner = nid, pt_Status = st, pt_PtId = ptId, pt_Ver = 1, pt_RGID = 0\<rparr>])\<rparr>)"
  by (simp add: updatePtStatus_def Let_def GetClusterPtNum_def zeroPt_def)

lemma assign_s6:
  assumes "ClusterPtNum data = 4" and "GetWriteNode data = [n0, n1, n2, n3]"
    and "map_of (PtView data) db = None"
  shows "assignPtForWAF data db =
     Some (data\<lparr>PtView := map_set (PtView data) db
        [newPt n0 0 0, newPt n1 1 0, newPt n2 2 0, newPt n3 3 0]\<rparr>, None)"
proof -
  have u: "[0..<unat (4 :: u32)] = [0, 1, 2, 3]" by (simp add: upt_rec)
  let ?d1 = "data\<lparr>PtView := map_set (PtView data) db
       [newPt n0 0 0, zeroPt, zeroPt, zeroPt]\<rparr>"
  have n4: "replicate 4 zeroPt = [zeroPt, zeroPt, zeroPt, zeroPt]"
    by (simp add: numeral_eq_Suc)
  have s1: "updatePtStatus data db 0 (dn_ID n0) Offline = Some ?d1"
    using updatePtStatus_first[OF assms(3), of 0 "dn_ID n0" Offline] assms(1)
    by (simp add: newPt_def n4)
  let ?d2 = "data\<lparr>PtView := map_set (PtView data) db
       [newPt n0 0 0, newPt n1 1 0, zeroPt, zeroPt]\<rparr>"
  have s2: "updatePtStatus ?d1 db 1 (dn_ID n1) Offline = Some ?d2"
    by (subst updatePtStatus_next[where v = "[newPt n0 0 0, zeroPt, zeroPt, zeroPt]"])
       (simp_all add: map_of_map_set map_set_twice zeroPt_def newPt_def)
  let ?d3 = "data\<lparr>PtView := map_set (PtView data) db
       [newPt n0 0 0, newPt n1 1 0, newPt n2 2 0, zeroPt]\<rparr>"
  have s3: "updatePtStatus ?d2 db 2 (dn_ID n2) Offline = Some ?d3"
    by (subst updatePtStatus_next[where v = "[newPt n0 0 0, newPt n1 1 0, zeroPt, zeroPt]"])
       (simp_all add: map_of_map_set map_set_twice zeroPt_def newPt_def)
  let ?d4 = "data\<lparr>PtView := map_set (PtView data) db
       [newPt n0 0 0, newPt n1 1 0, newPt n2 2 0, newPt n3 3 0]\<rparr>"
  have s4: "updatePtStatus ?d3 db 3 (dn_ID n3) Offline = Some ?d4"
    by (subst updatePtStatus_next[where v = "[newPt n0 0 0, newPt n1 1 0, newPt n2 2 0, zeroPt]"])
       (simp_all add: map_of_map_set map_set_twice zeroPt_def newPt_def)
  have "assignLoop [n0, n1, n2, n3] db [0, 1, 2, 3] data = Some ?d4"
    using s1 s2 s3 s4 by (simp add: Let_def)
  then show ?thesis
    using assms(1,2) u by (simp add: assignPtForWAF_def Let_def GetClusterPtNum_def)
qed

lemma map_modify_map_set: "map_modify (map_set m k v) k f = map_set m k (f v)"
  by (induction m) auto

lemma replication_s6_state:
  assumes "PtNumPerNode data = 1" and "ClusterPtNum data = 4"
    and "GetWriteNode data = [n0, n1, n2, n3]"
    and "map_of (PtView data) db = None" and "map_of (ReplicaGroups data) db = None"
  shows "createViewAndReplication Replication data db 2 =
     Some (data\<lparr>PtView := map_set (PtView data) db
                     [newPt n0 0 0, newPt n1 1 0, newPt n2 2 1, newPt n3 3 1],
                 ReplicaGroups := map_set (ReplicaGroups data) db
                     [rgInit 0 0 [slavePeer 1] Health 0, rgInit 1 2 [slavePeer 3] Health 0]\<rparr>,
           None)"
proof -
  let ?v = "[newPt n0 0 0, newPt n1 1 0, newPt n2 2 0, newPt n3 3 0]"
  let ?d1 = "data\<lparr>PtView := map_set (PtView data) db ?v\<rparr>"
  have v: "CreateDBPtView Replication data db = Some (?d1, None)"
    using assms(4) assign_s6[OF assms(2,3,4)]
    by (simp add: CreateDBPtView_def DBPtView_def dbPtAssigner_def)
  have pv: "DBPtView ?d1 db = ?v"
    by (simp add: DBPtView_def map_of_map_set)
  have rg: "DBRepGroups ?d1 db = []"
    using assms(5) by (simp add: DBRepGroups_def)
  have w: "(of_nat (length ?v) :: u32) = 4" by simp
  have d: "(4 :: u32) div 1 = 4" "(4 :: u32) mod 2 = 0" "(4 :: u32) div 2 = 2" "(2 :: u32) - 0 = 2"
    "\<not> (2 :: u32) \<le> 1" "unat (2 :: u32) = Suc (Suc 0)"
    by (simp_all add: word_le_nat_alt)
  let ?e = "expandRepGroups ?d1 db 2"
  have "replicate 2 zeroRepGroup = [zeroRepGroup, zeroRepGroup]"
    by (simp add: numeral_eq_Suc)
  then have r2: "replicate (unat (2 :: u32)) zeroRepGroup = [zeroRepGroup, zeroRepGroup]"
    by simp
  have e1: "DBRepGroups ?e db = [zeroRepGroup, zeroRepGroup]"
    unfolding expandRepGroups_def rg r2 by (simp add: DBRepGroups_def map_of_map_set)
  have e2: "DBPtView ?e db = ?v" "PtNumPerNode ?e = 1"
    using pv assms(1) by (simp_all add: expandRepGroups_def DBPtView_def)
  have loop: "repLoop 2 1 2 0 0 [zeroRepGroup, zeroRepGroup] ?v =
     Some ([rgInit 0 0 [slavePeer 1] Health 0, rgInit 1 2 [slavePeer 3] Health 0],
           [newPt n0 0 0, newPt n1 1 0, newPt n2 2 1, newPt n3 3 1])"
    by (simp add: repLoop_s6 slavePeer_def newPt_def)
  have inner: "createReplicationInner ?d1 db 2 0 2 0 =
     Some (data\<lparr>PtView := map_set (PtView data) db
                     [newPt n0 0 0, newPt n1 1 0, newPt n2 2 1, newPt n3 3 1],
                 ReplicaGroups := map_set (ReplicaGroups data) db
                     [rgInit 0 0 [slavePeer 1] Health 0, rgInit 1 2 [slavePeer 3] Health 0]\<rparr>)"
    unfolding createReplicationInner_def d(4) Let_def e1 e2 loop
    by (simp add: expandRepGroups_def map_set_twice map_modify_map_set)
  have "CreateReplication ?d1 db 2 =
     Some (data\<lparr>PtView := map_set (PtView data) db
                     [newPt n0 0 0, newPt n1 1 0, newPt n2 2 1, newPt n3 3 1],
                 ReplicaGroups := map_set (ReplicaGroups data) db
                     [rgInit 0 0 [slavePeer 1] Health 0, rgInit 1 2 [slavePeer 3] Health 0]\<rparr>,
           None)"
    unfolding CreateReplication_def createReplicationImp_def Let_def pv w
    using assms(1) d inner by simp
  then show ?thesis
    using v by (simp add: createViewAndReplication_def andThen_def)
qed

lemma s6_hyps:
  "PtNumPerNode s6Data = 1" "ClusterPtNum s6Data = 4"
  "GetWriteNode s6Data = [writerNode 1 ''h1'', writerNode 2 ''h2'', writerNode 3 ''h3'',
                          writerNode 4 ''h4'']"
  "map_of (PtView s6Data) ''dbR'' = None" "map_of (ReplicaGroups s6Data) ''dbR'' = None"
  by (simp_all add: s6Data_def emptyData_def GetWriteNode_def writerNode_def IsNodeWriter_def)

text \<open>
  C5, as stated, fails. In scenario S6 the code pairs neighbouring partitions: group 0
  has the master 0 and the peer 1, and group 1 has the master 2 and the peer 3; the claim
  has the peer 2 for group 0 and the master 1 for group 1.
\<close>

theorem replication_S6_counterexample:
  "repGroupsOf (createViewAndReplication Replication s6Data ''dbR'' 2) ''dbR'' =
     Some [rgInit 0 0 [slavePeer 1] Health 0, rgInit 1 2 [slavePeer 3] Health 0] \<and>
   rgInit 0 0 [slavePeer 1] Health 0 \<noteq> rgInit 0 0 [slavePeer 2] Health 0 \<and>
   rgInit 1 2 [slavePeer 3] Health 0 \<noteq> rgInit 1 1 [slavePeer 3] Health 0"
  by (simp add: replication_s6_state [OF s6_hyps] repGroupsOf_def map_of_map_set rgInit_def
      slavePeer_def)

text \<open>
  C5, amended. With one partition per node, four partitions, four writer nodes
  \<open>n0\<close> to \<open>n3\<close> and no view or replica groups yet for the database, creating the view
  and then the replica groups with two replicas returns without error and gives: a view
  of the four partitions 0 to 3, partition \<open>i\<close> on node \<open>ni\<close>, offline, version 1; two
  replica groups, group 0 with the master 0 and the slave peer 1, group 1 with the master
  2 and the slave peer 3, both healthy; partitions 0 and 1 carry the group id 0 and
  partitions 2 and 3 the group id 1. The peer at index \<open>i\<close> (from 0) of a group is the
  partition master + \<open>PtNumPerNode\<close> * (i + 1).
\<close>

theorem replication_S6:
  assumes "PtNumPerNode data = 1" and "ClusterPtNum data = 4"
    and "GetWriteNode data = [n0, n1, n2, n3]"
    and "map_of (PtView data) db = None" and "map_of (ReplicaGroups data) db = None"
  shows "(\<exists>data'. createViewAndReplication Replication data db 2 = Some (data', None)) \<and>
     ptViewOf (createViewAndReplication Replication data db 2) db =
       Some [newPt n0 0 0, newPt n1 1 0, newPt n2 2 1, newPt n3 3 1] \<and>
     repGroupsOf (createViewAndReplication Replication data db 2) db =
       Some [rgInit 0 0 [slavePeer (0 + PtNumPerNode data * (0 + 1))] Health 0,
             rgInit 1 2 [slavePeer (2 + PtNumPerNode data * (0 + 1))] Health 0]"
  using assms
  by (simp add: replication_s6_state [OF assms] ptViewOf_def repGroupsOf_def map_of_map_set)

theorem replication_S6_witness:
  "PtNumPerNode s6Data = 1 \<and> ClusterPtNum s6Data = 4 \<and>
   GetWriteNode s6Data = [writerNode 1 ''h1'', writerNode 2 ''h2'', writerNode 3 ''h3'',
                          writerNode 4 ''h4''] \<and>
   map_of (PtView s6Data) ''dbR'' = None \<and> map_of (ReplicaGroups s6Data) ''dbR'' = None \<and>
   ptViewOf (createViewAndReplication Replication s6Data ''dbR'' 2) ''dbR'' =
     Some [\<lparr>pt_Owner = 1, pt_Status = Offline, pt_PtId = 0, pt_Ver = 1, pt_RGID = 0\<rparr>,
           \<lparr>pt_Owner = 2, pt_Status = Offline, pt_PtId = 1, pt_Ver = 1, pt_RGID = 0\<rparr>,
           \<lparr>pt_Owner = 3, pt_Status = Offline, pt_PtId = 2, pt_Ver = 1, pt_RGID = 1\<rparr>,
           \<lparr>pt_Owner = 4, pt_Status = Offline, pt_PtId = 3, pt_Ver = 1, pt_RGID = 1\<rparr>] \<and>
   repGroupsOf (createViewAndReplication Replication s6Data ''dbR'' 2) ''dbR'' =
     Some [\<lparr>rg_ID = 0, rg_MasterPtID = 0, rg_Peers = [\<lparr>peer_ID = 1, peer_PtRole = Slave\<rparr>],
             rg_Status = Health, rg_Term = 0\<rparr>,
           \<lparr>rg_ID = 1, rg_MasterPtID = 2, rg_Peers = [\<lparr>peer_ID = 3, peer_PtRole = Slave\<rparr>],
             rg_Status = Health, rg_Term = 0\<rparr>]"
  using s6_hyps replication_S6 [OF s6_hyps]
  by (simp add: newPt_def rgInit_def slavePeer_def writerNode_def)

subsection \<open>Re-sharding\<close>

lemma insort_key_before_last:
  "f a \<le> f x \<Longrightarrow> insort_key f a (ys @ [x]) = insort_key f a ys @ [x]"
  by (induction ys) auto

lemma sort_key_snoc_max:
  "\<forall>y\<in>set xs. f y \<le> f x \<Longrightarrow> sort_key f (xs @ [x]) = sort_key f xs @ [x]"
proof (induction xs)
  case Nil
  then show ?case by simp
next
  case (Cons a xs)
  then have "sort_key f (xs @ [x]) = sort_key f xs @ [x]" by simp
  moreover have "f a \<le> f x" using Cons.prems by simp
  ultimately show ?case by (simp add: insort_key_before_last)
qed

lemma find_mod_upt:
  assumes "i < n"
  shows "find (\<lambda>p. p mod n = i) [0..<m] = (if i < m then Some i else None)"
proof (cases "i < m")
  case True
  have "find (\<lambda>p. p mod n = i) [0..<m] = Some i"
    unfolding find_Some_iff
  proof (intro exI[of _ i] conjI)
    show "i < length [0..<m]" using True by simp
    show "[0..<m] ! i mod n = i" using True assms by simp
    show "i = [0..<m] ! i" using True by simp
    show "\<forall>j<i. \<not> [0..<m] ! j mod n = i"
    proof (intro allI impI)
      fix j assume "j < i"
      then have "[0..<m] ! j = j" "j mod n = j" using True assms by simp_all
      then show "\<not> [0..<m] ! j mod n = i" using \<open>j < i\<close> by simp
    qed
  qed
  then show ?thesis using True by simp
next
  case False
  have "find (\<lambda>p. p mod n = i) [0..<m] = None"
    unfolding find_None_iff
  proof (intro notI)
    assume "\<exists>x. x \<in> set [0..<m] \<and> x mod n = i"
    then obtain x where "x < m" "x mod n = i" by auto
    moreover have "x mod n \<le> x" by simp
    ultimately show False using False by simp
  qed
  then show ?thesis using False by simp
qed

lemma forEach_map:
  "\<forall>i\<in>set js. f i = Some (g i) \<Longrightarrow> forEach f js = Some (map g js)"
  by (induction js) auto

lemma modify_lookup:
  "map_of m k = Some v \<Longrightarrow> map_of (map_modify m k f) k = Some (f v)"
  by (simp add: map_of_map_modify)

lemma rpAt_modifyRp:
  "rpAt data db rp = Some rpi \<Longrightarrow> rpAt (modifyRp data db rp f) db rp = Some (f rpi)"
  by (auto simp: rpAt_def modifyRp_def map_of_map_modify split: option.splits)

lemma RetentionPolicy_rpAt:
  "RetentionPolicy data db rp = Inr rpi \<Longrightarrow> rpAt data db rp = Some rpi"
  by (auto simp: RetentionPolicy_def GetDatabase_def Database_def GetRetentionPolicy_def rpAt_def
      split: option.splits if_splits sum.splits)

lemma RetentionPolicy_ptNum:
  "RetentionPolicy data db rp = Inr rpi \<Longrightarrow> \<exists>ptNum. GetEffectivePtNum data db = Some ptNum"
  by (auto simp: RetentionPolicy_def GetDatabase_def Database_def GetEffectivePtNum_def
      DBReplicaN_def split: option.splits if_splits sum.splits)

lemma mkIndexes_nth:
  "i < n \<Longrightarrow> mkIndexes m n ! i = \<lparr>ix_ID = m + of_nat i + 1, ix_Owners = [of_nat i], ix_MarkDelete = False\<rparr>"
  by (simp add: mkIndexes_def)

lemma mkIndexes_length: "length (mkIndexes m n) = n"
  by (simp add: mkIndexes_def)

lemma boundShard_closed:
  assumes "i < length bounds + 1" and "length (ig_Indexes igi) = ptNum"
    and "\<forall>j<ptNum. ix_ID (ig_Indexes igi ! j) = maxIndexID + of_nat j + 1"
  shows "boundShard maxShardID tier ptNum igi bounds i =
           Some (reshardShard maxShardID maxIndexID tier ptNum bounds i)"
proof -
  have f: "find (\<lambda>ptId. ptId mod (length bounds + 1) = i) [0..<ptNum] =
             (if i < ptNum then Some i else None)"
    using assms(1) by (rule find_mod_upt)
  have l: "i \<noteq> length bounds \<longleftrightarrow> i < length bounds" using assms(1) by auto
  show ?thesis
  proof (cases "i < ptNum")
    case True
    then show ?thesis using f l assms(2,3)
      by (simp add: boundShard_def reshardShard_def Let_def)
  next
    case False
    then show ?thesis using f l
      by (simp add: boundShard_def reshardShard_def Let_def)
  qed
qed

lemma GetEffectivePtNum_frame:
  "Databases d' = Databases d \<Longrightarrow> ReplicaGroups d' = ReplicaGroups d \<Longrightarrow>
   ClusterPtNum d' = ClusterPtNum d \<Longrightarrow> GetEffectivePtNum d' db = GetEffectivePtNum d db"
proof -
  assume a: "Databases d' = Databases d" "ReplicaGroups d' = ReplicaGroups d"
    "ClusterPtNum d' = ClusterPtNum d"
  have r: "DBReplicaN d' db = DBReplicaN d db" "DBRepGroups d' db = DBRepGroups d db"
    using a by (simp_all add: DBReplicaN_def DBRepGroups_def)
  show ?thesis unfolding GetEffectivePtNum_def a(3) r by (rule refl)
qed

lemma ReSharding_found:
  assumes rp: "RetentionPolicy data (rs_Database info) (rs_Rp info) = Inr rpi"
    and ne: "rp_ShardGroups rpi \<noteq> []"
    and idl: "sg_ID (last (rp_ShardGroups rpi)) = rs_ShardGroupID info"
    and sh: "sg_Shards (last (rp_ShardGroups rpi)) \<noteq> []"
    and pt: "GetEffectivePtNum data (rs_Database info) = Some ptNum"
    and late: "\<forall>ig\<in>set (rp_IndexGroups rpi). ig_StartTime ig \<le> sint (rs_SplitTime info + 1)"
  shows "\<exists>data'. ReSharding data info = Some (data', None) \<and>
     rpAt data' (rs_Database info) (rs_Rp info) =
       Some (rpi\<lparr>rp_IndexGroups := sortIndexGroups (rp_IndexGroups rpi) @
                      [reshardIndexGroup data rpi (sint (rs_SplitTime info + 1)) ptNum],
                  rp_ShardGroups := sortShardGroups (rp_ShardGroups rpi @
                      [reshardShardGroup data rpi (sint (rs_SplitTime info + 1)) ptNum
                         (rs_Bounds info)])\<rparr>)"
proof -
  let ?db = "rs_Database info" and ?st = "sint (rs_SplitTime info + 1)"
  let ?ig = "reshardIndexGroup data rpi ?st ptNum"
  let ?d1 = "data\<lparr>MaxIndexGroupID := MaxIndexGroupID data + 1,
                    MaxIndexID := MaxIndexID data + of_nat (unat ptNum)\<rparr>"
  let ?rp1 = "rpi\<lparr>rp_IndexGroups := sortIndexGroups (rp_IndexGroups rpi) @ [?ig]\<rparr>"
  have srt: "sortIndexGroups (rp_IndexGroups rpi @ [?ig]) = sortIndexGroups (rp_IndexGroups rpi) @ [?ig]"
    unfolding sortIndexGroups_def
    by (rule sort_key_snoc_max) (use late in \<open>simp add: reshardIndexGroup_def\<close>)
  have c1: "createIndexGroup data ?db rpi ?st = Some (?d1, ?rp1)"
    using ne pt srt by (simp add: createIndexGroup_def Let_def reshardIndexGroup_def)
  have pt1: "GetEffectivePtNum ?d1 ?db = Some ptNum"
    using pt GetEffectivePtNum_frame[of ?d1 data ?db] by simp
  let ?tier = "sh_Tier (sg_Shards (last (rp_ShardGroups rpi)) ! 0)"
  have ix: "length (ig_Indexes ?ig) = unat ptNum"
    "\<forall>j<unat ptNum. ix_ID (ig_Indexes ?ig ! j) = MaxIndexID data + of_nat j + 1"
    by (simp_all add: reshardIndexGroup_def mkIndexes_length mkIndexes_nth)
  have fe: "forEach (boundShard (MaxShardID data) ?tier (unat ptNum) ?ig (rs_Bounds info))
              [0..<length (rs_Bounds info) + 1] =
            Some (map (reshardShard (MaxShardID data) (MaxIndexID data) ?tier (unat ptNum)
                         (rs_Bounds info)) [0..<length (rs_Bounds info) + 1])"
    by (rule forEach_map) (use boundShard_closed[OF _ ix] in auto)
  let ?sg = "reshardShardGroup data rpi ?st ptNum (rs_Bounds info)"
  let ?d2 = "?d1\<lparr>MaxShardGroupID := MaxShardGroupID data + 1,
                   MaxShardID := MaxShardID data + of_nat (length (rs_Bounds info) + 1)\<rparr>"
  let ?rp2 = "?rp1\<lparr>rp_ShardGroups := sortShardGroups (rp_ShardGroups rpi @ [?sg])\<rparr>"
  have c2: "CreateShardGroupWithBounds ?d1 ?db ?rp1 ?st (rs_Bounds info)
              (sg_EngineType (last (rp_ShardGroups ?rp1))) = Some ((?d2, ?rp2), None)"
    using ne sh pt1 fe
    by (simp add: CreateShardGroupWithBounds_def Let_def reshardShardGroup_def)
  have r: "ReSharding data info = Some (modifyRp ?d2 ?db (rs_Rp info) (\<lambda>_. ?rp2), None)"
    using rp ne idl c1 c2 by (simp add: ReSharding_def Let_def)
  have "rpAt data ?db (rs_Rp info) = Some rpi" using rp by (rule RetentionPolicy_rpAt)
  then have "rpAt ?d2 ?db (rs_Rp info) = Some rpi" by (simp add: rpAt_def)
  from rpAt_modifyRp[OF this, of "\<lambda>_. ?rp2"] r show ?thesis by simp
qed

lemma s1_policy: "RetentionPolicy s1Data ''db0'' ''autogen'' = Inr autogen"
  by (simp add: RetentionPolicy_def GetDatabase_def Database_def s1Data_def db0_def
      GetRetentionPolicy_def autogen_def)

lemma s1_ptNum: "GetEffectivePtNum s1Data ''db0'' = Some 2"
  by (simp add: GetEffectivePtNum_def DBReplicaN_def s1Data_def db0_def)

lemma s1_reshard_hyps:
  "rp_ShardGroups autogen \<noteq> []" "sg_ID (last (rp_ShardGroups autogen)) = 1"
  "sg_Shards (last (rp_ShardGroups autogen)) \<noteq> []"
  "\<forall>ig\<in>set (rp_IndexGroups autogen). ig_StartTime ig \<le> sint (1704069900000000000 + 1 :: 64 word)"
  by (simp_all add: autogen_def sg1_def ig1_def t2024_def)

text \<open>
  C3, as stated, fails. The example has two partitions; re-sharding its shard group
  with two bounds makes three shards, and the third has no owner (and the index id 0):
  no partition has an id congruent to 2 modulo 3.
\<close>

theorem ReSharding_owners_counterexample:
  "shardOwnersOf (ReSharding s1Data reshard2) ''db0'' ''autogen'' =
     Some [[[0], [1]], [[0], [1], []]]"
proof -
  have r: "rs_Database reshard2 = ''db0''" "rs_Rp reshard2 = ''autogen''"
    "rs_ShardGroupID reshard2 = 1" "rs_SplitTime reshard2 = 1704069900000000000"
    "rs_Bounds reshard2 = [''g'', ''m'']"
    by (simp_all add: reshard2_def)
  from ReSharding_found [of s1Data reshard2 autogen 2] s1_policy s1_ptNum s1_reshard_hyps r
  obtain data' where d: "ReSharding s1Data reshard2 = Some (data', None)"
    and a: "rpAt data' ''db0'' ''autogen'' =
       Some (autogen\<lparr>rp_IndexGroups := sortIndexGroups (rp_IndexGroups autogen) @
                      [reshardIndexGroup s1Data autogen (sint (1704069900000000000 + 1 :: 64 word)) 2],
                  rp_ShardGroups := sortShardGroups (rp_ShardGroups autogen @
                      [reshardShardGroup s1Data autogen (sint (1704069900000000000 + 1 :: 64 word)) 2
                         [''g'', ''m'']])\<rparr>)"
    by auto
  have u: "[0..<Suc (Suc (Suc 0))] = [0, 1, 2]" by (simp add: upt_rec)
  show ?thesis
    unfolding shardOwnersOf_def shardGroupsOf_def d
    by (simp add: a sortShardGroups_def autogen_def sg1_def reshardShardGroup_def
        reshardShard_def t2024_def hour_def u)
qed

text \<open>
  C3, amended. For a retention policy that exists and has shard groups: \<open>ReSharding\<close>
  fails with \<open>ErrShardGroupAlreadyReSharding\<close> when the id of the last shard group is
  not the target. When it is, the last shard group has a shard, no index group starts
  after the split time + 1, and there are at least as many partitions as shards to
  create (one more than there are bounds), \<open>ReSharding\<close> succeeds: the policy gets a
  new index group \<open>newIG\<close>, stored last, with one index per partition, and a new shard
  group \<open>newSG\<close> from the split time + 1 to the end of the last group, with one shard
  more than there are bounds; the last shard has no max and the first no min, shard \<open>i\<close>
  otherwise has the max \<open>bounds[i]\<close> and the min \<open>bounds[i-1]\<close>; shard \<open>i\<close> is owned
  by the one partition \<open>i\<close>, whose id is \<open>i\<close> modulo the number of shards, and has the
  id of the index at position \<open>i\<close> of \<open>newIG\<close>, which partition \<open>i\<close> owns too.
\<close>

theorem ReSharding_amended:
  assumes "RetentionPolicy data (rs_Database info) (rs_Rp info) = Inr rpi"
    and "rp_ShardGroups rpi \<noteq> []"
    and "GetEffectivePtNum data (rs_Database info) = Some ptNum"
  shows "(sg_ID (last (rp_ShardGroups rpi)) \<noteq> rs_ShardGroupID info \<longrightarrow>
            ReSharding data info =
              Some (data, Some (ErrShardGroupAlreadyReSharding (rs_ShardGroupID info)))) \<and>
         (sg_ID (last (rp_ShardGroups rpi)) = rs_ShardGroupID info \<and>
          sg_Shards (last (rp_ShardGroups rpi)) \<noteq> [] \<and>
          (\<forall>ig\<in>set (rp_IndexGroups rpi). ig_StartTime ig \<le> sint (rs_SplitTime info + 1)) \<and>
          length (rs_Bounds info) + 1 \<le> unat ptNum \<longrightarrow>
            (\<exists>data' newIG newSG.
               ReSharding data info = Some (data', None) \<and>
               rpAt data' (rs_Database info) (rs_Rp info) =
                 Some (rpi\<lparr>rp_IndexGroups := sortIndexGroups (rp_IndexGroups rpi) @ [newIG],
                            rp_ShardGroups := sortShardGroups (rp_ShardGroups rpi @ [newSG])\<rparr>) \<and>
               ig_StartTime newIG = sint (rs_SplitTime info + 1) \<and>
               length (ig_Indexes newIG) = unat ptNum \<and>
               sg_StartTime newSG = sint (rs_SplitTime info + 1) \<and>
               sg_EndTime newSG = sg_EndTime (last (rp_ShardGroups rpi)) \<and>
               sg_EngineType newSG = sg_EngineType (last (rp_ShardGroups rpi)) \<and>
               length (sg_Shards newSG) = length (rs_Bounds info) + 1 \<and>
               (\<forall>i<length (rs_Bounds info) + 1.
                  sh_Max (sg_Shards newSG ! i) =
                    (if i < length (rs_Bounds info) then rs_Bounds info ! i else []) \<and>
                  sh_Min (sg_Shards newSG ! i) =
                    (if 0 < i then rs_Bounds info ! (i - 1) else []) \<and>
                  sh_Owners (sg_Shards newSG ! i) = [of_nat i] \<and>
                  unat (of_nat i :: u32) mod (length (rs_Bounds info) + 1) = i \<and>
                  sh_IndexID (sg_Shards newSG ! i) = ix_ID (ig_Indexes newIG ! i) \<and>
                  ix_Owners (ig_Indexes newIG ! i) = [of_nat i])))"
proof (intro conjI impI)
  assume "sg_ID (last (rp_ShardGroups rpi)) \<noteq> rs_ShardGroupID info"
  then show "ReSharding data info =
      Some (data, Some (ErrShardGroupAlreadyReSharding (rs_ShardGroupID info)))"
    using assms by (simp add: ReSharding_def)
next
  assume h: "sg_ID (last (rp_ShardGroups rpi)) = rs_ShardGroupID info \<and>
          sg_Shards (last (rp_ShardGroups rpi)) \<noteq> [] \<and>
          (\<forall>ig\<in>set (rp_IndexGroups rpi). ig_StartTime ig \<le> sint (rs_SplitTime info + 1)) \<and>
          length (rs_Bounds info) + 1 \<le> unat ptNum"
  then have enough: "length (rs_Bounds info) + 1 \<le> unat ptNum" by blast
  note pt = assms(3)
  let ?st = "sint (rs_SplitTime info + 1)"
  let ?ig = "reshardIndexGroup data rpi ?st ptNum"
  let ?sg = "reshardShardGroup data rpi ?st ptNum (rs_Bounds info)"
  from ReSharding_found[OF assms(1,2) _ _ pt] h
  obtain data' where r: "ReSharding data info = Some (data', None)"
    and a: "rpAt data' (rs_Database info) (rs_Rp info) =
       Some (rpi\<lparr>rp_IndexGroups := sortIndexGroups (rp_IndexGroups rpi) @ [?ig],
                  rp_ShardGroups := sortShardGroups (rp_ShardGroups rpi @ [?sg])\<rparr>)"
    by blast
  have ig: "ig_StartTime ?ig = ?st" "length (ig_Indexes ?ig) = unat ptNum"
    by (simp_all add: reshardIndexGroup_def mkIndexes_length)
  have sg: "sg_StartTime ?sg = ?st" "sg_EndTime ?sg = sg_EndTime (last (rp_ShardGroups rpi))"
    "sg_EngineType ?sg = sg_EngineType (last (rp_ShardGroups rpi))"
    "length (sg_Shards ?sg) = length (rs_Bounds info) + 1"
    by (simp_all add: reshardShardGroup_def)
  have sh: "\<forall>i<length (rs_Bounds info) + 1.
                  sh_Max (sg_Shards ?sg ! i) =
                    (if i < length (rs_Bounds info) then rs_Bounds info ! i else []) \<and>
                  sh_Min (sg_Shards ?sg ! i) =
                    (if 0 < i then rs_Bounds info ! (i - 1) else []) \<and>
                  sh_Owners (sg_Shards ?sg ! i) = [of_nat i] \<and>
                  unat (of_nat i :: u32) mod (length (rs_Bounds info) + 1) = i \<and>
                  sh_IndexID (sg_Shards ?sg ! i) = ix_ID (ig_Indexes ?ig ! i) \<and>
                  ix_Owners (ig_Indexes ?ig ! i) = [of_nat i]"
  proof (intro allI impI)
    fix i assume i: "i < length (rs_Bounds info) + 1"
    then have ip: "i < unat ptNum" using enough by simp
    have "i < 2 ^ 32" using ip unsigned_less[of ptNum, where 'a = nat] by simp
    then have u: "unat (of_nat i :: u32) = i" by (simp add: unsigned_of_nat take_bit_nat_eq_self)
    have m: "unat (of_nat i :: u32) mod (length (rs_Bounds info) + 1) = i"
      unfolding u using i by simp
    have "sg_Shards ?sg ! i = reshardShard (MaxShardID data) (MaxIndexID data)
            (sh_Tier (sg_Shards (last (rp_ShardGroups rpi)) ! 0)) (unat ptNum) (rs_Bounds info) i"
      unfolding reshardShardGroup_def using i by (simp del: upt_Suc)
    then have "sh_Max (sg_Shards ?sg ! i) =
                    (if i < length (rs_Bounds info) then rs_Bounds info ! i else []) \<and>
                  sh_Min (sg_Shards ?sg ! i) =
                    (if 0 < i then rs_Bounds info ! (i - 1) else []) \<and>
                  sh_Owners (sg_Shards ?sg ! i) = [of_nat i] \<and>
                  sh_IndexID (sg_Shards ?sg ! i) = ix_ID (ig_Indexes ?ig ! i) \<and>
                  ix_Owners (ig_Indexes ?ig ! i) = [of_nat i]"
      using ip by (simp add: reshardShard_def reshardIndexGroup_def mkIndexes_nth)
    with m show "sh_Max (sg_Shards ?sg ! i) =
                    (if i < length (rs_Bounds info) then rs_Bounds info ! i else []) \<and>
                  sh_Min (sg_Shards ?sg ! i) =
                    (if 0 < i then rs_Bounds info ! (i - 1) else []) \<and>
                  sh_Owners (sg_Shards ?sg ! i) = [of_nat i] \<and>
                  unat (of_nat i :: u32) mod (length (rs_Bounds info) + 1) = i \<and>
                  sh_IndexID (sg_Shards ?sg ! i) = ix_ID (ig_Indexes ?ig ! i) \<and>
                  ix_Owners (ig_Indexes ?ig ! i) = [of_nat i]"
      by blast
  qed
  show "\<exists>data' newIG newSG.
               ReSharding data info = Some (data', None) \<and>
               rpAt data' (rs_Database info) (rs_Rp info) =
                 Some (rpi\<lparr>rp_IndexGroups := sortIndexGroups (rp_IndexGroups rpi) @ [newIG],
                            rp_ShardGroups := sortShardGroups (rp_ShardGroups rpi @ [newSG])\<rparr>) \<and>
               ig_StartTime newIG = sint (rs_SplitTime info + 1) \<and>
               length (ig_Indexes newIG) = unat ptNum \<and>
               sg_StartTime newSG = sint (rs_SplitTime info + 1) \<and>
               sg_EndTime newSG = sg_EndTime (last (rp_ShardGroups rpi)) \<and>
               sg_EngineType newSG = sg_EngineType (last (rp_ShardGroups rpi)) \<and>
               length (sg_Shards newSG) = length (rs_Bounds info) + 1 \<and>
               (\<forall>i<length (rs_Bounds info) + 1.
                  sh_Max (sg_Shards newSG ! i) =
                    (if i < length (rs_Bounds info) then rs_Bounds info ! i else []) \<and>
                  sh_Min (sg_Shards newSG ! i) =
                    (if 0 < i then rs_Bounds info ! (i - 1) else []) \<and>
                  sh_Owners (sg_Shards newSG ! i) = [of_nat i] \<and>
                  unat (of_nat i :: u32) mod (length (rs_Bounds info) + 1) = i \<and>
                  sh_IndexID (sg_Shards newSG ! i) = ix_ID (ig_Indexes newIG ! i) \<and>
                  ix_Owners (ig_Indexes newIG ! i) = [of_nat i])"
    apply (rule exI[of _ data'], rule exI[of _ ?ig], rule exI[of _ ?sg])
    using r a ig sg sh by blast
qed

text \<open>Scenario S2: the one bound \<open>m\<close> gives two shards, the first up to \<open>m\<close>, the second from \<open>m\<close>.\<close>

lemma ReSharding_S2:
  "map_option (map sg_Shards) (shardGroupsOf (ReSharding s1Data reshard1) ''db0'' ''autogen'') =
     Some [sg_Shards sg1,
           [\<lparr>sh_ID = 3, sh_Owners = [0], sh_Min = [], sh_Max = ''m'', sh_Tier = 1, sh_IndexID = 3,
             sh_MarkDelete = False\<rparr>,
            \<lparr>sh_ID = 4, sh_Owners = [1], sh_Min = ''m'', sh_Max = [], sh_Tier = 1, sh_IndexID = 4,
             sh_MarkDelete = False\<rparr>]]"
proof -
  have r: "rs_Database reshard1 = ''db0''" "rs_Rp reshard1 = ''autogen''"
    "rs_ShardGroupID reshard1 = 1" "rs_SplitTime reshard1 = 1704069900000000000"
    "rs_Bounds reshard1 = [''m'']"
    by (simp_all add: reshard1_def)
  from ReSharding_found [of s1Data reshard1 autogen 2] s1_policy s1_ptNum s1_reshard_hyps r
  obtain data' where d: "ReSharding s1Data reshard1 = Some (data', None)"
    and a: "rpAt data' ''db0'' ''autogen'' =
       Some (autogen\<lparr>rp_IndexGroups := sortIndexGroups (rp_IndexGroups autogen) @
                      [reshardIndexGroup s1Data autogen (sint (1704069900000000000 + 1 :: 64 word)) 2],
                  rp_ShardGroups := sortShardGroups (rp_ShardGroups autogen @
                      [reshardShardGroup s1Data autogen (sint (1704069900000000000 + 1 :: 64 word)) 2
                         [''m'']])\<rparr>)"
    by auto
  have u: "[0..<Suc (Suc 0)] = [0, 1]" by (simp add: upt_rec)
  show ?thesis
    unfolding shardGroupsOf_def d
    by (simp add: a sortShardGroups_def autogen_def sg1_def reshardShardGroup_def
        reshardShard_def t2024_def hour_def u s1Data_def)
qed

theorem ReSharding_amended_witness:
  "RetentionPolicy s1Data (rs_Database reshard1) (rs_Rp reshard1) = Inr autogen \<and>
   rp_ShardGroups autogen \<noteq> [] \<and>
   GetEffectivePtNum s1Data (rs_Database reshard1) = Some 2 \<and>
   sg_ID (last (rp_ShardGroups autogen)) = rs_ShardGroupID reshard1 \<and>
   sg_Shards (last (rp_ShardGroups autogen)) \<noteq> [] \<and>
   list_all (\<lambda>ig. ig_StartTime ig \<le> sint (rs_SplitTime reshard1 + 1)) (rp_IndexGroups autogen) \<and>
   length (rs_Bounds reshard1) + 1 \<le> unat (2 :: u32) \<and>
   (\<exists>data'. ReSharding s1Data reshard1 = Some (data', None)) \<and>
   sg_ID (last (rp_ShardGroups autogen)) \<noteq> rs_ShardGroupID (reshard1\<lparr>rs_ShardGroupID := 7\<rparr>) \<and>
   ReSharding s1Data (reshard1\<lparr>rs_ShardGroupID := 7\<rparr>) =
     Some (s1Data, Some (ErrShardGroupAlreadyReSharding 7))"
proof -
  have r: "rs_Database reshard1 = ''db0''" "rs_Rp reshard1 = ''autogen''"
    "rs_ShardGroupID reshard1 = 1" "rs_SplitTime reshard1 = 1704069900000000000"
    "rs_Bounds reshard1 = [''m'']"
    by (simp_all add: reshard1_def)
  have p: "RetentionPolicy s1Data (rs_Database reshard1) (rs_Rp reshard1) = Inr autogen"
    using s1_policy r by simp
  have p7: "RetentionPolicy s1Data (rs_Database (reshard1\<lparr>rs_ShardGroupID := 7\<rparr>))
              (rs_Rp (reshard1\<lparr>rs_ShardGroupID := 7\<rparr>)) = Inr autogen"
    using s1_policy r by simp
  have n: "GetEffectivePtNum s1Data (rs_Database reshard1) = Some 2"
    using s1_ptNum r by simp
  have n7: "GetEffectivePtNum s1Data (rs_Database (reshard1\<lparr>rs_ShardGroupID := 7\<rparr>)) = Some 2"
    using s1_ptNum r by simp
  have h: "sg_ID (last (rp_ShardGroups autogen)) = rs_ShardGroupID reshard1"
    "sg_Shards (last (rp_ShardGroups autogen)) \<noteq> []"
    "\<forall>ig\<in>set (rp_IndexGroups autogen). ig_StartTime ig \<le> sint (rs_SplitTime reshard1 + 1)"
    using s1_reshard_hyps r by simp_all
  have b: "length (rs_Bounds reshard1) + 1 \<le> unat (2 :: u32)" by (simp add: r)
  have d7: "sg_ID (last (rp_ShardGroups autogen)) \<noteq> rs_ShardGroupID (reshard1\<lparr>rs_ShardGroupID := 7\<rparr>)"
    using s1_reshard_hyps(2) by simp
  from ReSharding_amended [OF p s1_reshard_hyps(1) n] h b
  have ok: "\<exists>data'. ReSharding s1Data reshard1 = Some (data', None)" by blast
  from ReSharding_amended [OF p7 s1_reshard_hyps(1) n7] d7
  have er: "ReSharding s1Data (reshard1\<lparr>rs_ShardGroupID := 7\<rparr>) =
     Some (s1Data, Some (ErrShardGroupAlreadyReSharding 7))" by simp
  from h(3)
  have l: "list_all (\<lambda>ig. ig_StartTime ig \<le> sint (rs_SplitTime reshard1 + 1))
             (rp_IndexGroups autogen)"
    unfolding list_all_iff .
  from p s1_reshard_hyps(1) n h(1,2) l b ok d7 er show ?thesis by blast
qed

subsection \<open>Creating a shard group keeps the shards linked\<close>

lemma filter_eq_upt: "i < n \<Longrightarrow> filter (\<lambda>p. p = i) [0..<n] = [i]"
proof (induction n)
  case 0
  then show ?case by simp
next
  case (Suc n)
  show ?case
  proof (cases "i < n")
    case True
    then show ?thesis using Suc.IH by simp
  next
    case False
    then have i: "i = n" using Suc.prems by simp
    have "filter (\<lambda>p. p = n) [0..<n] = []" by (simp add: filter_empty_conv)
    then show ?thesis using i by simp
  qed
qed

lemma filter_mod_upt: "i < n \<Longrightarrow> filter (\<lambda>p. p mod n = i) [0..<n] = [i]"
proof -
  assume i: "i < n"
  have "filter (\<lambda>p. p mod n = i) [0..<n] = filter (\<lambda>p. p = i) [0..<n]"
    by (rule filter_cong) auto
  then show ?thesis using filter_eq_upt[OF i] by simp
qed

lemma hashShard_closed:
  assumes "i < shardN" and "shardN \<le> length (ig_Indexes igi)"
  shows "hashShard maxShardID tier shardN igi None i = Some (hashedShard maxShardID tier igi i)"
  using assms by (simp add: hashShard_def filter_mod_upt hashedShard_def)

lemma createShards_hash:
  assumes "GetEffectivePtNum data db = Some ptNum" and "\<not> rangeSharded msti"
    and "unat ptNum \<le> length (ig_Indexes igi)"
  shows "createShards data db sgi igi rpi msti tier =
           Some (data\<lparr>MaxShardID := MaxShardID data + of_nat (unat ptNum)\<rparr>,
                 sgi\<lparr>sg_Shards := map (hashedShard (MaxShardID data) tier igi) [0..<unat ptNum]\<rparr>)"
proof -
  have fe: "forEach (hashShard (MaxShardID data) tier (unat ptNum) igi None) [0..<unat ptNum] =
              Some (map (hashedShard (MaxShardID data) tier igi) [0..<unat ptNum])"
    by (rule forEach_map) (use hashShard_closed[OF _ assms(3)] in auto)
  have nr: "(0 < length (m_ShardKeys msti) \<and> sk_Type (m_ShardKeys msti ! 0) = RANGE) = False"
    using assms(2) by (simp add: rangeSharded_def)
  show ?thesis
    unfolding createShards_def assms(1) Let_def nr by (simp add: fe)
qed

lemma Truncate_range: "0 < d \<Longrightarrow> Truncate t d \<le> t \<and> t < Truncate t d + d"
proof -
  assume d: "0 < d"
  have "0 \<le> (t - zeroTime) mod d" "(t - zeroTime) mod d < d"
    using d by simp_all
  then show ?thesis using d by (simp add: Truncate_def)
qed

lemma hashedShard_linked:
  assumes "i < unat (ptNum :: u32)" and "unat ptNum \<le> length (ig_Indexes igi)"
    and "ownsByPosition igi"
  shows "linkedIn igi (hashedShard m tier igi i)"
proof -
  have "i < 2 ^ 32" using assms(1) unsigned_less[of ptNum, where 'a = nat] by simp
  then have u: "unat (of_nat i :: u32) = i" by (simp add: unsigned_of_nat take_bit_nat_eq_self)
  have "i < length (ig_Indexes igi)" using assms(1,2) by simp
  then show ?thesis using u assms(3)
    by (simp add: linkedIn_def hashedShard_def ownsByPosition_def)
qed

lemma shardLinked_mono:
  "set igs \<subseteq> set igs' \<Longrightarrow> shardLinked igs g s \<Longrightarrow> shardLinked igs' g s"
  unfolding shardLinked_def list_ex_iff by blast

lemma list_all_map_modify:
  "list_all (\<lambda>(k, v). P v) m \<Longrightarrow> (\<And>v. P v \<Longrightarrow> P (f v)) \<Longrightarrow>
   list_all (\<lambda>(k, v). P v) (map_modify m k f)"
  by (induction m) auto

lemma allRps_modifyRp:
  assumes "allRps P data" and "\<And>v. P v \<Longrightarrow> P (f v)"
  shows "allRps P (modifyRp data db rp f)"
proof -
  have "list_all (\<lambda>(n, d). list_all (\<lambda>(rn, r). P r) (db_RetentionPolicies d))
          (map_modify (Databases data) db
             (\<lambda>dbi. dbi\<lparr>db_RetentionPolicies := map_modify (db_RetentionPolicies dbi) rp f\<rparr>))"
  proof (rule list_all_map_modify)
    show "list_all (\<lambda>(n, d). list_all (\<lambda>(rn, r). P r) (db_RetentionPolicies d)) (Databases data)"
      using assms(1) by (simp add: allRps_def)
  next
    fix v :: DatabaseInfo
    assume "list_all (\<lambda>(rn, r). P r) (db_RetentionPolicies v)"
    then have "list_all (\<lambda>(rn, r). P r) (map_modify (db_RetentionPolicies v) rp f)"
      using assms(2) by (rule list_all_map_modify)
    then show "list_all (\<lambda>(rn, r). P r)
        (db_RetentionPolicies (v\<lparr>db_RetentionPolicies := map_modify (db_RetentionPolicies v) rp f\<rparr>))"
      by simp
  qed
  then show ?thesis by (simp add: allRps_def modifyRp_def)
qed

lemma CreateIndexGroup_props:
  assumes "0 < rp_IndexGroupDuration rpi" and "timestamp \<le> MaxNanoTime"
    and "CreateIndexGroup data rpi timestamp engineType ptNum = (data1, rpi1, igi)"
  shows "Databases data1 = Databases data \<and> ReplicaGroups data1 = ReplicaGroups data \<and>
         ClusterPtNum data1 = ClusterPtNum data \<and> MaxShardGroupID data1 = MaxShardGroupID data \<and>
         (\<exists>igs. rpi1 = rpi\<lparr>rp_IndexGroups := igs\<rparr> \<and> set (rp_IndexGroups rpi) \<subseteq> set igs \<and>
                igi \<in> set igs) \<and>
         ig_EngineType igi = engineType \<and> igContains igi timestamp \<and>
         unat ptNum \<le> length (ig_Indexes igi) \<and> ownsByPosition igi"
proof -
  let ?st = "Truncate timestamp (rp_IndexGroupDuration rpi)"
  let ?e0 = "?st + rp_IndexGroupDuration rpi"
  let ?igi = "\<lparr>ig_ID = MaxIndexGroupID data + 1, ig_StartTime = ?st,
               ig_EndTime = (if ?e0 > MaxNanoTime then MaxNanoTime + 1 else ?e0),
               ig_Indexes = mkIndexes (MaxIndexID data) (unat ptNum),
               ig_DeletedAt = zeroTime, ig_EngineType = engineType\<rparr>"
  let ?d = "data\<lparr>MaxIndexGroupID := MaxIndexGroupID data + 1,
                   MaxIndexID := MaxIndexID data + of_nat (unat ptNum)\<rparr>"
  let ?r = "rpi\<lparr>rp_IndexGroups := sortIndexGroups (rp_IndexGroups rpi @ [?igi])\<rparr>"
  have "CreateIndexGroup data rpi timestamp engineType ptNum = (?d, ?r, ?igi)"
    unfolding CreateIndexGroup_def Let_def by (rule refl)
  with assms(3) have "(data1, rpi1, igi) = (?d, ?r, ?igi)" by (rule subst)
  then have "data1 = ?d \<and> rpi1 = ?r \<and> igi = ?igi" by (simp only: prod.inject)
  then have d: "data1 = ?d" and r: "rpi1 = ?r" and i: "igi = ?igi" by blast+
  have t: "?st \<le> timestamp" "timestamp < ?e0"
    using Truncate_range[OF assms(1), of timestamp] by simp_all
  have c: "igContains igi timestamp"
    using t assms(2) by (simp add: i igContains_def)
  have o: "ownsByPosition igi"
    by (simp add: i ownsByPosition_def mkIndexes_length mkIndexes_nth)
  have l: "unat ptNum \<le> length (ig_Indexes igi)" by (simp add: i mkIndexes_length)
  have s: "set (rp_IndexGroups rpi) \<subseteq> set (sortIndexGroups (rp_IndexGroups rpi @ [?igi]))"
    "igi \<in> set (sortIndexGroups (rp_IndexGroups rpi @ [?igi]))"
    by (auto simp: sortIndexGroups_def i)
  have e: "ig_EngineType igi = engineType" by (simp add: i)
  from d have f: "Databases data1 = Databases data" "ReplicaGroups data1 = ReplicaGroups data"
    "ClusterPtNum data1 = ClusterPtNum data" "MaxShardGroupID data1 = MaxShardGroupID data"
    by simp_all
  from f r s e c l o show ?thesis by blast
qed

lemma createIndexGroupIfNeeded_props:
  assumes "0 < rp_IndexGroupDuration rpi" and "timestamp \<le> MaxNanoTime"
    and "\<forall>ig\<in>set (rp_IndexGroups rpi). ownsByPosition ig"
    and "createIndexGroupIfNeeded data rpi timestamp engineType ptNum = (data1, rpi1, igi)"
  shows "Databases data1 = Databases data \<and> ReplicaGroups data1 = ReplicaGroups data \<and>
         ClusterPtNum data1 = ClusterPtNum data \<and> MaxShardGroupID data1 = MaxShardGroupID data \<and>
         (\<exists>igs. rpi1 = rpi\<lparr>rp_IndexGroups := igs\<rparr> \<and> set (rp_IndexGroups rpi) \<subseteq> set igs \<and>
                igi \<in> set igs) \<and>
         ig_EngineType igi = engineType \<and> igContains igi timestamp \<and>
         unat ptNum \<le> length (ig_Indexes igi) \<and> ownsByPosition igi"
proof (cases "createIndexGroupIfNeeded data rpi timestamp engineType ptNum =
              CreateIndexGroup data rpi timestamp engineType ptNum")
  case True
  then have "CreateIndexGroup data rpi timestamp engineType ptNum = (data1, rpi1, igi)"
    using assms(4) by simp
  from CreateIndexGroup_props[OF assms(1,2) this] show ?thesis .
next
  case False
  then obtain ig where f: "find (\<lambda>ig. ig_EngineType ig = engineType \<and> igContains ig timestamp)
                             (rp_IndexGroups rpi) = Some ig"
    and l: "unat ptNum \<le> length (ig_Indexes ig)"
    and e: "createIndexGroupIfNeeded data rpi timestamp engineType ptNum = (data, rpi, ig)"
    by (auto simp: createIndexGroupIfNeeded_def split: if_splits option.splits)
  from e assms(4) have eq: "data1 = data" "rpi1 = rpi" "igi = ig" by simp_all
  from f have m: "ig \<in> set (rp_IndexGroups rpi)" "ig_EngineType ig = engineType"
    "igContains ig timestamp"
    by (auto simp: find_Some_iff)
  have o: "ownsByPosition ig" using m(1) assms(3) by blast
  have "rpi = rpi\<lparr>rp_IndexGroups := rp_IndexGroups rpi\<rparr>" by simp
  then have x: "\<exists>igs. rpi = rpi\<lparr>rp_IndexGroups := igs\<rparr> \<and> set (rp_IndexGroups rpi) \<subseteq> set igs \<and>
                ig \<in> set igs"
    using m(1) by blast
  show ?thesis unfolding eq using x m(2,3) l o by blast
qed

lemma CreateShardGroup_new:
  assumes ready: "checkStoreReady data = None"
    and rp: "RetentionPolicy data database policy = Inr rpi"
    and nosg: "ShardGroupByTimestampAndEngineType rpi timestamp engineType = None"
    and mst: "rp_Measurements rpi \<noteq> []"
    and hash: "\<forall>nm\<in>set (rp_Measurements rpi). \<not> rangeSharded (snd nm)"
    and sgd: "0 < rp_ShardGroupDuration rpi"
    and igd: "0 < rp_IndexGroupDuration rpi"
    and ts: "timestamp \<le> MaxNanoTime"
    and own: "\<forall>ig\<in>set (rp_IndexGroups rpi). ownsByPosition ig"
  shows "\<exists>data' igs g ptNum.
           CreateShardGroup data database policy timestamp tier engineType version =
             Some (data', None) \<and>
           Databases data' = Databases (modifyRp data database policy
             (\<lambda>_. rpi\<lparr>rp_IndexGroups := igs,
                       rp_ShardGroups := sortShardGroups (rp_ShardGroups rpi @ [g])\<rparr>)) \<and>
           set (rp_IndexGroups rpi) \<subseteq> set igs \<and>
           sg_ID g = MaxShardGroupID data + 1 \<and> sg_EngineType g = engineType \<and>
           sgContains g timestamp \<and>
           GetEffectivePtNum data database = Some ptNum \<and>
           length (sg_Shards g) = unat ptNum \<and>
           (\<forall>i<unat ptNum. sh_Owners (sg_Shards g ! i) = [of_nat i]) \<and>
           list_all (shardLinked igs g) (sg_Shards g)"
proof -
  from mst obtain mstName msti rest where ms: "rp_Measurements rpi = (mstName, msti) # rest"
    by (cases "rp_Measurements rpi") auto
  then have nr: "\<not> rangeSharded msti" using hash by simp
  from RetentionPolicy_ptNum[OF rp] obtain ptNum
    where pt: "GetEffectivePtNum data database = Some ptNum" by blast
  obtain data1 rpi1 igi
    where ci: "createIndexGroupIfNeeded data rpi timestamp engineType ptNum = (data1, rpi1, igi)"
    by (cases "createIndexGroupIfNeeded data rpi timestamp engineType ptNum") auto
  from createIndexGroupIfNeeded_props[OF igd ts own ci]
  obtain igs where f: "Databases data1 = Databases data" "ReplicaGroups data1 = ReplicaGroups data"
      "ClusterPtNum data1 = ClusterPtNum data" "MaxShardGroupID data1 = MaxShardGroupID data"
    and r1: "rpi1 = rpi\<lparr>rp_IndexGroups := igs\<rparr>"
    and sub: "set (rp_IndexGroups rpi) \<subseteq> set igs" and mem: "igi \<in> set igs"
    and et: "ig_EngineType igi = engineType" and ct: "igContains igi timestamp"
    and len: "unat ptNum \<le> length (ig_Indexes igi)" and o: "ownsByPosition igi"
    by blast
  let ?st = "Truncate timestamp (rp_ShardGroupDuration rpi)"
  let ?e0 = "?st + rp_ShardGroupDuration rpi"
  let ?sgi = "\<lparr>sg_ID = MaxShardGroupID data + 1, sg_StartTime = ?st,
               sg_EndTime = (if ?e0 > MaxNanoTime then MaxNanoTime + 1 else ?e0),
               sg_DeletedAt = zeroTime, sg_Shards = [], sg_EngineType = engineType,
               sg_Version = version\<rparr>"
  let ?d2 = "data1\<lparr>MaxShardGroupID := MaxShardGroupID data1 + 1\<rparr>"
  have ns: "newShardGroup data1 rpi1 timestamp engineType version = (?d2, ?sgi)"
    by (simp add: newShardGroup_def Let_def r1 f(4))
  have pt2: "GetEffectivePtNum ?d2 database = Some ptNum"
    using pt GetEffectivePtNum_frame[of ?d2 data database] f by simp
  let ?g = "?sgi\<lparr>sg_Shards := map (hashedShard (MaxShardID ?d2) tier igi) [0..<unat ptNum]\<rparr>"
  let ?d3 = "?d2\<lparr>MaxShardID := MaxShardID ?d2 + of_nat (unat ptNum)\<rparr>"
  have cs: "createShards ?d2 database ?sgi igi rpi1 msti tier = Some (?d3, ?g)"
    by (rule createShards_hash[OF pt2 nr len])
  let ?rp' = "rpi1\<lparr>rp_ShardGroups := sortShardGroups (rp_ShardGroups rpi1 @ [?g])\<rparr>"
  have res: "CreateShardGroup data database policy timestamp tier engineType version =
               Some (modifyRp ?d3 database policy (\<lambda>_. ?rp'), None)"
    by (simp add: CreateShardGroup_def ready rp nosg ms pt ci ns cs del: upt_Suc)
  have rpe: "?rp' = rpi\<lparr>rp_IndexGroups := igs,
                         rp_ShardGroups := sortShardGroups (rp_ShardGroups rpi @ [?g])\<rparr>"
    by (simp add: r1)
  have dbs: "Databases (modifyRp ?d3 database policy (\<lambda>_. ?rp')) =
             Databases (modifyRp data database policy
               (\<lambda>_. rpi\<lparr>rp_IndexGroups := igs,
                         rp_ShardGroups := sortShardGroups (rp_ShardGroups rpi @ [?g])\<rparr>))"
    unfolding rpe by (simp add: modifyRp_def f(1))
  have t: "?st \<le> timestamp" "timestamp < ?e0"
    using Truncate_range[OF sgd, of timestamp] by simp_all
  have c: "sgContains ?g timestamp" using t ts by (simp add: sgContains_def)
  have lk: "list_all (shardLinked igs ?g) (sg_Shards ?g)"
    unfolding list_all_iff
  proof
    fix s assume "s \<in> set (sg_Shards ?g)"
    then obtain i where i: "i < unat ptNum" and s: "s = hashedShard (MaxShardID ?d2) tier igi i"
      by auto
    have "linkedIn igi s" unfolding s by (rule hashedShard_linked[OF i len o])
    moreover have "ig_StartTime igi < sg_EndTime ?g" "sg_StartTime ?g < ig_EndTime igi"
      using c ct by (simp_all add: sgContains_def igContains_def)
    moreover have "ig_EngineType igi = sg_EngineType ?g" using et by simp
    ultimately show "shardLinked igs ?g s"
      unfolding shardLinked_def list_ex_iff using mem by blast
  qed
  have i: "sg_ID ?g = MaxShardGroupID data + 1" "sg_EngineType ?g = engineType"
    "length (sg_Shards ?g) = unat ptNum"
    by simp_all
  have ow: "\<forall>i<unat ptNum. sh_Owners (sg_Shards ?g ! i) = [of_nat i]"
    by (simp add: hashedShard_def del: upt_Suc)
  show ?thesis
    apply (rule exI[of _ "modifyRp ?d3 database policy (\<lambda>_. ?rp')"])
    apply (rule exI[of _ igs], rule exI[of _ ?g], rule exI[of _ ptNum])
    using res dbs sub i ow c pt lk by blast
qed

lemma rpAt_Databases: "Databases d' = Databases d \<Longrightarrow> rpAt d' db rp = rpAt d db rp"
  by (simp add: rpAt_def)

lemma allRps_Databases: "Databases d' = Databases d \<Longrightarrow> allRps P d' = allRps P d"
  by (simp add: allRps_def)

lemma s1_linked: "shardIndexInv s1Data"
  by (simp add: shardIndexInv_def allRps_def s1Data_def db0_def autogen_def sg1_def ig1_def
      shardLinked_def linkedIn_def hour_def t2024_def)

text \<open>
  Re-sharding the shard group of scenario S1 (two partitions) with the two bounds \<open>g\<close>
  and \<open>m\<close> returns without an error and leaves a shard group of three shards whose third
  shard has no owner and the index id 0.
\<close>

lemma ReSharding_ownerless_unlinked:
  "invAfter (ReSharding s1Data reshard2) = Some (None, False)"
proof -
  have r: "rs_Database reshard2 = ''db0''" "rs_Rp reshard2 = ''autogen''"
    "rs_ShardGroupID reshard2 = 1" "rs_SplitTime reshard2 = 1704069900000000000"
    "rs_Bounds reshard2 = [''g'', ''m'']"
    by (simp_all add: reshard2_def)
  let ?st = "sint (1704069900000000000 + 1 :: 64 word)"
  let ?g = "reshardShardGroup s1Data autogen ?st 2 [''g'', ''m'']"
  let ?igs = "sortIndexGroups (rp_IndexGroups autogen) @ [reshardIndexGroup s1Data autogen ?st 2]"
  from ReSharding_found [of s1Data reshard2 autogen 2] s1_policy s1_ptNum s1_reshard_hyps r
  obtain data' where d: "ReSharding s1Data reshard2 = Some (data', None)"
    and a: "rpAt data' ''db0'' ''autogen'' =
       Some (autogen\<lparr>rp_IndexGroups := ?igs,
                      rp_ShardGroups := sortShardGroups (rp_ShardGroups autogen @ [?g])\<rparr>)"
    by auto
  have "\<not> shardIndexInv data'"
  proof
    assume "shardIndexInv data'"
    then have "list_all (\<lambda>g. list_all (shardLinked ?igs g) (sg_Shards g))
                 (sortShardGroups (rp_ShardGroups autogen @ [?g]))"
      unfolding shardIndexInv_def using allRps_rpAt[OF _ a] by fastforce
    then have "list_all (shardLinked ?igs ?g) (sg_Shards ?g)"
      unfolding list_all_iff sortShardGroups_def by simp
    moreover have "reshardShard (MaxShardID s1Data) (MaxIndexID s1Data)
        (sh_Tier (sg_Shards (last (rp_ShardGroups autogen)) ! 0)) 2 [''g'', ''m''] 2
        \<in> set (sg_Shards ?g)"
      by (auto simp: reshardShardGroup_def simp del: upt_Suc)
    ultimately have "shardLinked ?igs ?g (reshardShard (MaxShardID s1Data) (MaxIndexID s1Data)
        (sh_Tier (sg_Shards (last (rp_ShardGroups autogen)) ! 0)) 2 [''g'', ''m''] 2)"
      unfolding list_all_iff by blast
    then show False
      by (simp add: shardLinked_def list_ex_iff linkedIn_def reshardShard_def)
  qed
  then show ?thesis by (simp add: invAfter_def d)
qed


text \<open>
  Re-sharding a shard group of the column-oriented engine with one bound, on two
  partitions: every new shard has its owner, but the index group that \<open>createIndexGroup\<close>
  makes for them has no engine type assigned, and the only index group of the engine
  type of the new shard group does not hold their indexes.
\<close>

lemma cs_linked: "shardIndexInv csData"
  by (simp add: shardIndexInv_def allRps_def csData_def withGroups_def s1Data_def db0_def
      autogen_def sg1_def ig1_def shardLinked_def linkedIn_def hour_def t2024_def)

lemma ReSharding_columnstore_unlinked:
  "invAfter (ReSharding csData reshard1) = Some (None, False)"
proof -
  let ?rp = "autogen\<lparr>rp_ShardGroups := [sg1\<lparr>sg_EngineType := COLUMNSTORE\<rparr>],
                      rp_IndexGroups := [ig1\<lparr>ig_EngineType := COLUMNSTORE\<rparr>]\<rparr>"
  have r: "rs_Database reshard1 = ''db0''" "rs_Rp reshard1 = ''autogen''"
    "rs_ShardGroupID reshard1 = 1" "rs_SplitTime reshard1 = 1704069900000000000"
    "rs_Bounds reshard1 = [''m'']"
    by (simp_all add: reshard1_def)
  have p: "RetentionPolicy csData ''db0'' ''autogen'' = Inr ?rp"
    by (simp add: RetentionPolicy_def GetDatabase_def Database_def csData_def withGroups_def
        s1Data_def db0_def GetRetentionPolicy_def autogen_def)
  have n: "GetEffectivePtNum csData ''db0'' = Some 2"
    by (simp add: GetEffectivePtNum_def DBReplicaN_def csData_def withGroups_def s1Data_def
        db0_def)
  have h: "rp_ShardGroups ?rp \<noteq> []" "sg_ID (last (rp_ShardGroups ?rp)) = 1"
    "sg_Shards (last (rp_ShardGroups ?rp)) \<noteq> []"
    "\<forall>ig\<in>set (rp_IndexGroups ?rp). ig_StartTime ig \<le> sint (1704069900000000000 + 1 :: 64 word)"
    by (simp_all add: sg1_def ig1_def t2024_def)
  let ?st = "sint (1704069900000000000 + 1 :: 64 word)"
  let ?g = "reshardShardGroup csData ?rp ?st 2 [''m'']"
  let ?igs = "sortIndexGroups (rp_IndexGroups ?rp) @ [reshardIndexGroup csData ?rp ?st 2]"
  from ReSharding_found [of csData reshard1 ?rp 2] p n h r
  obtain data' where d: "ReSharding csData reshard1 = Some (data', None)"
    and a: "rpAt data' ''db0'' ''autogen'' =
       Some (?rp\<lparr>rp_IndexGroups := ?igs,
                  rp_ShardGroups := sortShardGroups (rp_ShardGroups ?rp @ [?g])\<rparr>)"
    by auto
  let ?s = "reshardShard (MaxShardID csData) (MaxIndexID csData)
        (sh_Tier (sg_Shards (last (rp_ShardGroups ?rp)) ! 0)) 2 [''m''] 0"
  have "\<not> shardIndexInv data'"
  proof
    assume "shardIndexInv data'"
    then have "list_all (\<lambda>g. list_all (shardLinked ?igs g) (sg_Shards g))
                 (sortShardGroups (rp_ShardGroups ?rp @ [?g]))"
      unfolding shardIndexInv_def using allRps_rpAt[OF _ a] by fastforce
    then have "list_all (shardLinked ?igs ?g) (sg_Shards ?g)"
      unfolding list_all_iff sortShardGroups_def by simp
    moreover have "?s \<in> set (sg_Shards ?g)"
      by (auto simp: reshardShardGroup_def simp del: upt_Suc)
    ultimately have "shardLinked ?igs ?g ?s"
      unfolding list_all_iff by blast
    then show False
      by (simp add: shardLinked_def linkedIn_def reshardShard_def reshardShardGroup_def
          reshardIndexGroup_def sortIndexGroups_def ig1_def sg1_def csData_def withGroups_def
          s1Data_def)
  qed
  then show ?thesis by (simp add: invAfter_def d)
qed

text \<open>
  C1 does not hold of the code: \<open>ReSharding\<close> breaks the link in two ways. Both catalogs
  below have every shard linked to its index; both calls return without an error; after
  either, some shard is not linked. In the first, \<open>createIndexGroup\<close> does not set the
  engine type of the index group it creates, which its sibling \<open>CreateIndexGroup\<close> does,
  so the new shards of a column-oriented shard group point into an index group of the
  other engine type. In the second, \<open>CreateShardGroupWithBounds\<close> leaves a shard without
  an owner when there are more shards than partitions.
\<close>

theorem ReSharding_breaks_link:
  "shardIndexInv csData \<and> invAfter (ReSharding csData reshard1) = Some (None, False) \<and>
   shardIndexInv s1Data \<and> invAfter (ReSharding s1Data reshard2) = Some (None, False)"
  using cs_linked ReSharding_columnstore_unlinked s1_linked ReSharding_ownerless_unlinked
  by (intro conjI)

text \<open>
  Pruning breaks the link too: after the index group of the example has been pruned
  away (index 2, then index 1) its shard group is still there, and no index group is
  left for its shards.
\<close>

lemma prune_index_unlinks:
  "PruneGroups s1Data False 2 = Some (withGroups [sg1] [ig1Marked2], None) \<and>
   PruneGroups (withGroups [sg1] [ig1Marked2]) False 1 = Some (withGroups [sg1] [], None) \<and>
   \<not> shardIndexInv (withGroups [sg1] [])"
proof -
  have "\<not> shardIndexInv (withGroups [sg1] [])"
    by (simp add: shardIndexInv_def allRps_def withGroups_def s1Data_def db0_def autogen_def
        sg1_def shardLinked_def)
  then show ?thesis
    using s1_prune_index pruneIndexGroups_ignores_DeletedAt by (simp add: PruneGroups_def)
qed

text \<open>
  \<open>CreateShardGroup\<close>, the sibling of re-sharding, keeps the link. Let the store be ready, the policy
  exist with positive durations of its shard groups and index groups, have no shard
  group of the engine type for the timestamp, have a measurement and none that is
  sharded by range, and let index \<open>i\<close> of each of its index groups own partition \<open>i\<close>;
  let the timestamp be at most \<open>MaxNanoTime\<close>. Then \<open>CreateShardGroup\<close> returns without
  an error, and the policy has a new shard group \<open>g\<close> of the engine type that contains
  the timestamp, with one shard per partition, shard \<open>i\<close> owned by partition \<open>i\<close>,
  each of them linked: \<open>IndexID\<close> is the id
  of the index at the position of the first owner in an index group of the policy that
  overlaps \<open>g\<close> and has its engine type, and that index has the owners of the shard.
  If all shards of the catalog were linked before, all are linked afterwards.
\<close>

theorem CreateShardGroup_keeps_link:
  assumes ready: "checkStoreReady data = None"
    and rp: "RetentionPolicy data database policy = Inr rpi"
    and nosg: "ShardGroupByTimestampAndEngineType rpi timestamp engineType = None"
    and mst: "rp_Measurements rpi \<noteq> []"
    and hash: "list_all (\<lambda>nm. \<not> rangeSharded (snd nm)) (rp_Measurements rpi)"
    and sgd: "0 < rp_ShardGroupDuration rpi"
    and igd: "0 < rp_IndexGroupDuration rpi"
    and ts: "timestamp \<le> MaxNanoTime"
    and own: "list_all ownsByPosition (rp_IndexGroups rpi)"
  shows "\<exists>data' rp' g ptNum.
           CreateShardGroup data database policy timestamp tier engineType version =
             Some (data', None) \<and>
           rpAt data' database policy = Some rp' \<and>
           g \<in> set (rp_ShardGroups rp') \<and>
           sg_ID g = MaxShardGroupID data + 1 \<and> sg_EngineType g = engineType \<and>
           sgContains g timestamp \<and>
           GetEffectivePtNum data database = Some ptNum \<and>
           length (sg_Shards g) = unat ptNum \<and>
           (\<forall>i<unat ptNum. sh_Owners (sg_Shards g ! i) = [of_nat i]) \<and>
           list_all (shardLinked (rp_IndexGroups rp') g) (sg_Shards g) \<and>
           (shardIndexInv data \<longrightarrow> shardIndexInv data')"
proof -
  from hash have hash': "\<forall>nm\<in>set (rp_Measurements rpi). \<not> rangeSharded (snd nm)"
    unfolding list_all_iff .
  from own have own': "\<forall>ig\<in>set (rp_IndexGroups rpi). ownsByPosition ig"
    unfolding list_all_iff .
  from CreateShardGroup_new[OF ready rp nosg mst hash' sgd igd ts own', of tier version]
  obtain data' igs g ptNum
    where res: "CreateShardGroup data database policy timestamp tier engineType version =
                  Some (data', None)"
      and dbs: "Databases data' = Databases (modifyRp data database policy
                  (\<lambda>_. rpi\<lparr>rp_IndexGroups := igs,
                            rp_ShardGroups := sortShardGroups (rp_ShardGroups rpi @ [g])\<rparr>))"
      and sub: "set (rp_IndexGroups rpi) \<subseteq> set igs"
      and g: "sg_ID g = MaxShardGroupID data + 1" "sg_EngineType g = engineType"
        "sgContains g timestamp"
      and pt: "GetEffectivePtNum data database = Some ptNum"
        "length (sg_Shards g) = unat ptNum"
        "\<forall>i<unat ptNum. sh_Owners (sg_Shards g ! i) = [of_nat i]"
      and lk: "list_all (shardLinked igs g) (sg_Shards g)"
    by blast
  let ?rp' = "rpi\<lparr>rp_IndexGroups := igs,
                  rp_ShardGroups := sortShardGroups (rp_ShardGroups rpi @ [g])\<rparr>"
  let ?P = "\<lambda>rp. list_all (\<lambda>g. list_all (shardLinked (rp_IndexGroups rp) g) (sg_Shards g))
                    (rp_ShardGroups rp)"
  have at: "rpAt data database policy = Some rpi" using rp by (rule RetentionPolicy_rpAt)
  have at': "rpAt data' database policy = Some ?rp'"
    using rpAt_modifyRp[OF at, of "\<lambda>_. ?rp'"] rpAt_Databases[OF dbs] by simp
  have mem: "g \<in> set (rp_ShardGroups ?rp')" by (simp add: sortShardGroups_def)
  have lk': "list_all (shardLinked (rp_IndexGroups ?rp') g) (sg_Shards g)" using lk by simp
  have inv: "shardIndexInv data \<longrightarrow> shardIndexInv data'"
  proof
    assume i: "shardIndexInv data"
    then have a: "allRps ?P data" by (simp add: shardIndexInv_def)
    from allRps_rpAt[OF a at] have old: "?P rpi" .
    have new: "?P ?rp'"
      unfolding list_all_iff
    proof (intro ballI)
      fix h s assume h: "h \<in> set (rp_ShardGroups ?rp')" and s: "s \<in> set (sg_Shards h)"
      from h have "h = g \<or> h \<in> set (rp_ShardGroups rpi)" by (auto simp: sortShardGroups_def)
      then show "shardLinked (rp_IndexGroups ?rp') h s"
      proof
        assume "h = g"
        then show ?thesis using lk s unfolding list_all_iff by simp
      next
        assume "h \<in> set (rp_ShardGroups rpi)"
        then have "shardLinked (rp_IndexGroups rpi) h s"
          using old s unfolding list_all_iff by blast
        from shardLinked_mono[OF sub this] show ?thesis by simp
      qed
    qed
    have "allRps ?P (modifyRp data database policy (\<lambda>_. ?rp'))"
      by (rule allRps_modifyRp[OF a]) (rule new)
    then have "allRps ?P data'" using allRps_Databases[OF dbs] by simp
    then show "shardIndexInv data'" by (simp add: shardIndexInv_def)
  qed
  show ?thesis
    apply (rule exI[of _ data'], rule exI[of _ ?rp'], rule exI[of _ g], rule exI[of _ ptNum])
    using res at' mem g pt lk' inv by blast
qed

theorem CreateShardGroup_keeps_link_witness:
  "checkStoreReady s1Data = None \<and>
   RetentionPolicy s1Data ''db0'' ''autogen'' = Inr autogen \<and>
   ShardGroupByTimestampAndEngineType autogen (t2024 + hour) TSSTORE = None \<and>
   rp_Measurements autogen \<noteq> [] \<and>
   list_all (\<lambda>nm. \<not> rangeSharded (snd nm)) (rp_Measurements autogen) \<and>
   0 < rp_ShardGroupDuration autogen \<and> 0 < rp_IndexGroupDuration autogen \<and>
   t2024 + hour \<le> MaxNanoTime \<and>
   list_all ownsByPosition (rp_IndexGroups autogen) \<and>
   shardIndexInv s1Data \<and>
   (\<exists>data'. CreateShardGroup s1Data ''db0'' ''autogen'' (t2024 + hour) 1 TSSTORE 0 =
               Some (data', None) \<and>
            shardIndexInv data')"
proof -
  have h1: "checkStoreReady s1Data = None"
    by (simp add: checkStoreReady_def GetClusterPtNum_def s1Data_def)
  have h3: "ShardGroupByTimestampAndEngineType autogen (t2024 + hour) TSSTORE = None"
    by (simp add: ShardGroupByTimestampAndEngineType_def autogen_def sg1_def sgContains_def)
  have h4: "rp_Measurements autogen \<noteq> []" by (simp add: autogen_def)
  have h5: "list_all (\<lambda>nm. \<not> rangeSharded (snd nm)) (rp_Measurements autogen)"
    by (simp add: autogen_def cpuMst_def rangeSharded_def RANGE_def)
  have h6: "0 < rp_ShardGroupDuration autogen" "0 < rp_IndexGroupDuration autogen"
    by (simp_all add: autogen_def hour_def)
  have h8: "t2024 + hour \<le> MaxNanoTime" by (simp add: t2024_def hour_def MaxNanoTime_def)
  have h9: "list_all ownsByPosition (rp_IndexGroups autogen)"
    by (simp add: autogen_def ig1_def ownsByPosition_def less_Suc_eq)
  from CreateShardGroup_keeps_link [OF h1 s1_policy h3 h4 h5 h6 h8 h9, of 1 0] s1_linked
  have c: "\<exists>data'. CreateShardGroup s1Data ''db0'' ''autogen'' (t2024 + hour) 1 TSSTORE 0 =
               Some (data', None) \<and> shardIndexInv data'"
    by blast
  from h1 s1_policy h3 h4 h5 h6 h8 h9 s1_linked c show ?thesis by blast
qed

subsection \<open>Clone\<close>

text \<open>The operations on the store are those on the values, seen through \<open>view\<close>.\<close>

lemma view_expandRepGroups_st:
  assumes "case ref_ReplicaGroups data of None \<Rightarrow> True | Some a \<Rightarrow> a < length (st_repGroups st)"
    and "expandRepGroups_st st data db repNum = (st', data')"
  shows "view st' data' = expandRepGroups (view st data) db repNum"
  using assms
  by (auto simp: expandRepGroups_st_def view_def expandRepGroups_def DBRepGroups_def Let_def
      nth_append split: option.splits)

lemma view_DropDatabase_st:
  assumes "case ref_ReplicaGroups data of None \<Rightarrow> True | Some a \<Rightarrow> a < length (st_repGroups st)"
    and "case ref_PtView data of None \<Rightarrow> True | Some a \<Rightarrow> a < length (st_ptViews st)"
    and "DropDatabase_st st data name = (st', data')"
  shows "view st' data' = DropDatabase (view st data) name"
  using assms
  by (auto simp: DropDatabase_st_def view_def DropDatabase_def Let_def map_delete_def
      split: option.splits)

text \<open>At the moment of cloning the clone reads as the original.\<close>

lemma Clone_view:
  assumes "Clone st data = (st1, other)"
  shows "view st1 other = view st data"
  using assms
  by (auto simp: Clone_def CloneDBPtView_def view_def Let_def nth_append split: option.splits)

text \<open>
  The partition view of the clone is a map object of its own: dropping a database in
  the original does not change it.
\<close>

lemma Clone_PtView_kept:
  assumes "case ref_PtView data of None \<Rightarrow> True | Some a \<Rightarrow> a < length (st_ptViews st)"
    and "Clone st data = (st1, other)"
    and "DropDatabase_st st1 data name = (st2, data2)"
  shows "PtView (view st2 other) = PtView (view st data)"
  using assms
  by (auto simp: Clone_def CloneDBPtView_def DropDatabase_st_def view_def Let_def nth_append
      nth_list_update split: option.splits)

lemma Clone_ReplicaGroups_dropped:
  assumes "ref_ReplicaGroups data = Some a" and "a < length (st_repGroups st)"
    and "Clone st data = (st1, other)"
    and "DropDatabase_st st1 data name = (st2, data2)"
  shows "ReplicaGroups (view st2 other) = map_delete (ReplicaGroups (view st data)) name"
  using assms
  by (auto simp: Clone_def CloneDBPtView_def DropDatabase_st_def view_def Let_def
      split: option.splits)

text \<open>
  C9: \<open>Clone\<close> is not a deep clone. The clone holds the map object of \<open>ReplicaGroups\<close>
  of the original, if the original has one: at the moment of cloning the replica groups
  of a database read the same in both, and when \<open>expandRepGroups\<close> then adds groups to
  the database in the original, a reader of the clone sees them too.
\<close>

theorem Clone_shares_ReplicaGroups:
  assumes "ref_ReplicaGroups data = Some a" and "a < length (st_repGroups st)"
    and "Clone st data = (st1, other)"
    and "expandRepGroups_st st1 data db repNum = (st2, data2)"
  shows "DBRepGroups (view st1 other) db = DBRepGroups (view st data) db \<and>
         DBRepGroups (view st2 other) db =
           DBRepGroups (view st data) db @ replicate (unat repNum) zeroRepGroup"
proof -
  from assms(3) have o: "ref_ReplicaGroups other = Some a" and r: "st_repGroups st1 = st_repGroups st"
    using assms(1)
    by (auto simp: Clone_def CloneDBPtView_def Let_def split: option.splits)
  let ?m = "st_repGroups st ! a"
  let ?old = "case map_of ?m db of None \<Rightarrow> [] | Some rgs \<Rightarrow> rgs"
  from assms(4) have r2: "st_repGroups st2 =
      (st_repGroups st)[a := map_set ?m db (?old @ replicate (unat repNum) zeroRepGroup)]"
    using assms(1) r by (auto simp: expandRepGroups_st_def Let_def)
  have 1: "DBRepGroups (view st1 other) db = DBRepGroups (view st data) db"
    by (simp add: DBRepGroups_def view_def o r assms(1))
  have "ReplicaGroups (view st2 other) =
          map_set ?m db (?old @ replicate (unat repNum) zeroRepGroup)"
    using assms(2) by (simp add: view_def o r2)
  then have "DBRepGroups (view st2 other) db = ?old @ replicate (unat repNum) zeroRepGroup"
    by (simp add: DBRepGroups_def map_of_map_set)
  moreover have "DBRepGroups (view st data) db = ?old"
    by (simp add: DBRepGroups_def view_def assms(1))
  ultimately show ?thesis using 1 by simp
qed

theorem Clone_shares_ReplicaGroups_witness:
  "ref_ReplicaGroups cloneData = Some 0 \<and> 0 < length (st_repGroups cloneStore) \<and>
   DBRepGroups (view cloneStore cloneData) ''db0'' = [zeroRepGroup] \<and>
   DBRepGroups (view (fst (Clone cloneStore cloneData)) (snd (Clone cloneStore cloneData))) ''db0''
     = [zeroRepGroup] \<and>
   DBRepGroups (view (fst (expandRepGroups_st (fst (Clone cloneStore cloneData)) cloneData ''db0'' 1))
                     (snd (Clone cloneStore cloneData))) ''db0''
     = [zeroRepGroup, zeroRepGroup]"
proof -
  have h1: "ref_ReplicaGroups cloneData = Some 0" by (simp add: cloneData_def)
  have h2: "0 < length (st_repGroups cloneStore)" by (simp add: cloneStore_def)
  have v: "DBRepGroups (view cloneStore cloneData) ''db0'' = [zeroRepGroup]"
    by (simp add: DBRepGroups_def view_def cloneData_def cloneStore_def)
  have u: "unat (1 :: u32) = 1" by simp
  note T = Clone_shares_ReplicaGroups [OF h1 h2 surjective_pairing surjective_pairing,
      where db = "''db0''" and repNum = 1]
  from T have a: "DBRepGroups (view (fst (Clone cloneStore cloneData))
                     (snd (Clone cloneStore cloneData))) ''db0'' = [zeroRepGroup]"
    unfolding v by (rule conjunct1)
  from T have b: "DBRepGroups (view (fst (expandRepGroups_st (fst (Clone cloneStore cloneData))
                       cloneData ''db0'' 1))
                     (snd (Clone cloneStore cloneData))) ''db0'' = [zeroRepGroup, zeroRepGroup]"
    unfolding v u by simp
  from h1 h2 v a b show ?thesis by blast
qed

text \<open>
  The same input with \<open>DropDatabase\<close>: the replica groups of \<open>db0\<close> are gone from the
  clone, its partition view is as it was.
\<close>

lemma Clone_then_DropDatabase:
  "ReplicaGroups (view (fst (Clone cloneStore cloneData)) (snd (Clone cloneStore cloneData)))
     = [(''db0'', [zeroRepGroup])] \<and>
   ReplicaGroups (view (fst (DropDatabase_st (fst (Clone cloneStore cloneData)) cloneData ''db0''))
                       (snd (Clone cloneStore cloneData))) = [] \<and>
   PtView (view (fst (DropDatabase_st (fst (Clone cloneStore cloneData)) cloneData ''db0''))
                (snd (Clone cloneStore cloneData))) = PtView s1Data"
proof -
  have c: "Clone cloneStore cloneData =
             (\<lparr>st_ptViews = [PtView s1Data, PtView s1Data], st_repGroups = [[(''db0'', [zeroRepGroup])]]\<rparr>,
              \<lparr>ref_PtView = Some 1, ref_ReplicaGroups = Some 0, ref_values = s1Data\<rparr>)"
    by (simp add: Clone_def CloneDBPtView_def cloneData_def cloneStore_def)
  show ?thesis
    unfolding c by (simp add: DropDatabase_st_def view_def cloneData_def map_delete_def)
qed

end
